(* ===== verification/Errors.thy ===== *)
theory Errors
  imports Prelude
begin

text \<open>
  Error values. A Go \<open>error\<close> result is a \<open>go_error option\<close>, with \<open>None\<close> for \<open>nil\<close>; a
  result pair \<open>(value, error)\<close> is a sum. The constructors tell apart what the operator
  tells apart: API status errors by their reason, the missing-kind error of the REST
  mapper, the operator's own \<open>*blocked\<close> (internal/controller/serenedb_controller.go),
  errors of the SQL connection, and the two forms of \<open>fmt.Errorf\<close>.
\<close>

datatype api_reason = NotFound | AlreadyExists | OtherReason string

record blocked =
  reason :: string
  message :: string

datatype go_error =
    ApiStatus api_reason string
  | NoKindMatch string
  | Blocked blocked
  | SqlError string
  | Errorf string
  | Wrap string go_error

text \<open>\<open>err.Error()\<close>; \<open>Wrap p e\<close> is \<open>fmt.Errorf("p: %w", e)\<close>.\<close>

fun error_text :: "go_error \<Rightarrow> string" where
  "error_text (ApiStatus _ m) = m"
| "error_text (NoKindMatch m) = m"
| "error_text (Blocked b) = message b"
| "error_text (SqlError m) = m"
| "error_text (Errorf m) = m"
| "error_text (Wrap p e) = p @ '': '' @ error_text e"

text \<open>
  The classification of API errors. The library functions look through wrapping
  (\<open>errors.As\<close>), the operator's \<open>asBlocked\<close> is a plain type assertion and does not.
\<close>

fun is_not_found :: "go_error \<Rightarrow> bool" where
  "is_not_found (ApiStatus r _) \<longleftrightarrow> r = NotFound"
| "is_not_found (Wrap _ e) \<longleftrightarrow> is_not_found e"
| "is_not_found _ \<longleftrightarrow> False"

fun is_already_exists :: "go_error \<Rightarrow> bool" where
  "is_already_exists (ApiStatus r _) \<longleftrightarrow> r = AlreadyExists"
| "is_already_exists (Wrap _ e) \<longleftrightarrow> is_already_exists e"
| "is_already_exists _ \<longleftrightarrow> False"

fun isNoKindMatch :: "go_error \<Rightarrow> bool" where
  "isNoKindMatch (NoKindMatch _) \<longleftrightarrow> True"
| "isNoKindMatch (Wrap _ e) \<longleftrightarrow> isNoKindMatch e"
| "isNoKindMatch _ \<longleftrightarrow> False"

text \<open>\<open>client.IgnoreNotFound\<close>.\<close>

definition ignore_not_found :: "go_error option \<Rightarrow> go_error option" where
  "ignore_not_found err = (case err of None \<Rightarrow> None
     | Some e \<Rightarrow> if is_not_found e then None else Some e)"

text \<open>An answer to a creation that leaves an object of that name in the API.\<close>

definition accepted :: "go_error option \<Rightarrow> bool" where
  "accepted r = (case r of None \<Rightarrow> True | Some err \<Rightarrow> is_already_exists err)"

lemma accepted_simps [simp]: "accepted None" "accepted (Some e) \<longleftrightarrow> is_already_exists e"
  by (simp_all add: accepted_def)

definition asBlocked :: "go_error option \<Rightarrow> blocked option" where
  "asBlocked err = (case err of Some (Blocked b) \<Rightarrow> Some b | _ \<Rightarrow> None)"

lemma asBlocked_simps [simp]:
  "asBlocked None = None"
  "asBlocked (Some (Blocked b)) = Some b"
  "asBlocked (Some (Wrap p e)) = None"
  "asBlocked (Some (ApiStatus r m)) = None"
  "asBlocked (Some (NoKindMatch m)) = None"
  "asBlocked (Some (SqlError m)) = None"
  "asBlocked (Some (Errorf m)) = None"
  by (simp_all add: asBlocked_def)

lemma asBlocked_Some_iff: "asBlocked err = Some b \<longleftrightarrow> err = Some (Blocked b)"
  by (auto simp: asBlocked_def split: option.splits go_error.splits)

lemma ignore_not_found_simps [simp]:
  "ignore_not_found None = None"
  "is_not_found e \<Longrightarrow> ignore_not_found (Some e) = None"
  "\<not> is_not_found e \<Longrightarrow> ignore_not_found (Some e) = Some e"
  by (simp_all add: ignore_not_found_def)

text \<open>
  A run-time panic (an index out of range) is the other way a Go function can end; only
  the operations that can panic return this type.
\<close>

datatype 'a go = Panic string | Done 'a

end
