(* ===== verification/ApiTypes.thy ===== *)
theory ApiTypes
  imports Errors
begin

text \<open>
  The API types of api/v1alpha1, field by field, and the metadata types they embed. Pointers
  are options, times are nanoseconds since the Unix epoch, quantities and the scheduling
  values the operator only copies are opaque.
\<close>

section \<open>Metadata\<close>

type_synonym time = int

text \<open>\<open>time.Time{}\<close>: midnight of 1 January of the year 1, UTC.\<close>

definition zero_time :: time where
  "zero_time = - 62135596800 * 10 ^ 9"

text \<open>\<open>(*metav1.Time).IsZero\<close>: a nil pointer or the zero time.\<close>

definition IsZero :: "time option \<Rightarrow> bool" where
  "IsZero t = (case t of None \<Rightarrow> True | Some t \<Rightarrow> t = zero_time)"

record owner_ref =
  or_kind :: string
  or_name :: string
  or_uid :: string
  or_controller :: bool

record object_meta =
  om_name :: string
  om_namespace :: string
  om_uid :: string
  om_resource_version :: string
  om_generation :: int64
  om_creation_timestamp :: time
  om_deletion_timestamp :: "time option"
  om_labels :: gomap
  om_annotations :: gomap
  om_owner_references :: "owner_ref list"
  om_finalizers :: "string list"

text \<open>The zero \<open>metav1.ObjectMeta\<close>, the base of the composite literals.\<close>

definition empty_meta :: object_meta where
  "empty_meta = \<lparr>om_name = [], om_namespace = [], om_uid = [], om_resource_version = [],
     om_generation = 0, om_creation_timestamp = zero_time, om_deletion_timestamp = None,
     om_labels = [], om_annotations = [], om_owner_references = [], om_finalizers = []\<rparr>"

record condition =
  c_type :: string
  c_status :: string
  c_reason :: string
  c_message :: string
  c_observed_generation :: int64

definition ConditionTrue :: string where "ConditionTrue = ''True''"
definition ConditionFalse :: string where "ConditionFalse = ''False''"

text \<open>Values the operator copies without looking inside, and quantities by their text.\<close>

datatype opaque = Opaque string
datatype quantity = Quantity string

record local_object_reference =
  lor_name :: string

record secret_key_selector =
  sks_name :: string
  sks_key :: string

record env_var =
  ev_name :: string
  ev_value :: string
  ev_secret_key_ref :: "secret_key_selector option"

section \<open>SereneDB\<close>

definition DefaultImageRepository :: string where "DefaultImageRepository = ''serenedb/serenedb''"
definition DefaultImageTag :: string where "DefaultImageTag = ''26.09.2''"
definition DefaultPostgresPort :: int32 where "DefaultPostgresPort = 7890"
definition DefaultHTTPPort :: int32 where "DefaultHTTPPort = 9200"
definition DefaultDataMountPath :: string where "DefaultDataMountPath = ''/var/lib/serenedb''"
definition DefaultPasswordKey :: string where "DefaultPasswordKey = ''postgres-password''"
definition ImageUID :: int64 where "ImageUID = 999"
definition DefaultTerminationGracePeriodSeconds :: int64 where
  "DefaultTerminationGracePeriodSeconds = 120"
definition ConditionReady :: string where "ConditionReady = ''Ready''"
definition ConditionProgressing :: string where "ConditionProgressing = ''Progressing''"

record image_spec =
  im_repository :: string
  im_tag :: string
  im_pull_policy :: string

record auth_spec =
  au_existing_secret :: string
  au_password_key :: string

record postgres_listener_spec =
  pl_port :: int32
  pl_sslmode :: string

record http_listener_spec =
  hl_enabled :: bool
  hl_port :: int32
  hl_cors_origins :: string

record listeners_spec =
  ls_postgres :: postgres_listener_spec
  ls_http :: http_listener_spec

record tls_spec =
  tls_enabled :: bool
  tls_secret_name :: string
  tls_min_version :: string

record config_spec =
  cf_log_level :: string
  cf_max_connections :: int32
  cf_cpu_threads :: int32
  cf_io_threads :: int32
  cf_background_threads :: int32
  cf_auth_timeout :: string
  cf_idle_session_timeout :: string
  cf_pg_max_message_bytes :: int64
  cf_hba :: string
  cf_extra_flags :: "string list"

record retention_policy_spec =
  rp_when_deleted :: string
  rp_when_scaled :: string

record persistence_spec =
  pe_size :: "quantity option"
  pe_storage_class_name :: "string option"
  pe_access_modes :: "string list"
  pe_existing_claim :: string
  pe_retention_policy :: retention_policy_spec

record service_spec_cr =
  sc_type :: string
  sc_node_port :: int32
  sc_annotations :: gomap

record network_policy_spec_cr =
  nc_enabled :: bool

record bootstrap_spec =
  bs_volume_snapshot_name :: string

record serenedb_spec =
  sp_bootstrap :: "bootstrap_spec option"
  sp_image :: image_spec
  sp_image_pull_secrets :: "local_object_reference list"
  sp_auth :: auth_spec
  sp_listeners :: listeners_spec
  sp_tls :: tls_spec
  sp_config :: config_spec
  sp_persistence :: persistence_spec
  sp_resources :: opaque
  sp_termination_grace_period_seconds :: "int64 option"
  sp_service :: service_spec_cr
  sp_network_policy :: network_policy_spec_cr
  sp_env :: "env_var list"
  sp_pod_annotations :: gomap
  sp_pod_labels :: gomap
  sp_node_selector :: gomap
  sp_tolerations :: "opaque list"
  sp_affinity :: "opaque option"
  sp_priority_class_name :: string

record serenedb_status =
  st_observed_generation :: int64
  st_conditions :: "condition list"
  st_ready_replicas :: int32
  st_version :: string
  st_secret_name :: string
  st_host :: string
  st_port :: int32

record serenedb =
  db_meta :: object_meta
  db_spec :: serenedb_spec
  db_status :: serenedb_status

section \<open>Objects managed through SQL\<close>

definition ReclaimRetain :: string where "ReclaimRetain = ''Retain''"
definition ReclaimDelete :: string where "ReclaimDelete = ''Delete''"
definition DependentFinalizer :: string where "DependentFinalizer = ''database.serenedb.com/cleanup''"

record cluster_ref =
  cr_name :: string

record dependent_status =
  ds_observed_generation :: int64
  ds_conditions :: "condition list"

record database_spec =
  dbs_cluster :: cluster_ref
  dbs_name :: string
  dbs_reclaim_policy :: string

record database =
  da_meta :: object_meta
  da_spec :: database_spec
  da_status :: dependent_status

record password_secret_ref =
  ps_name :: string
  ps_key :: string

record database_role_spec =
  ro_cluster :: cluster_ref
  ro_name :: string
  ro_login :: bool
  ro_superuser :: bool
  ro_create_db :: bool
  ro_create_role :: bool
  ro_inherit :: "bool option"
  ro_connection_limit :: "int32 option"
  ro_valid_until :: string
  ro_password_secret :: "password_secret_ref option"
  ro_in_roles :: "string list"
  ro_reclaim_policy :: string

record database_role_status = dependent_status +
  rs_password_secret_version :: string

record database_role =
  dr_meta :: object_meta
  dr_spec :: database_role_spec
  dr_status :: database_role_status

record server_secret_spec =
  ss_cluster :: cluster_ref
  ss_name :: string
  ss_type :: string
  ss_scope :: string
  ss_options :: gomap
  ss_values_from :: "local_object_reference option"

record server_secret_status = dependent_status +
  sv_values_secret_version :: string

record server_secret =
  se_meta :: object_meta
  se_spec :: server_secret_spec
  se_status :: server_secret_status

section \<open>Backups\<close>

definition BackupMethodVolumeSnapshot :: string where
  "BackupMethodVolumeSnapshot = ''volumeSnapshot''"
definition BackupPhasePending :: string where "BackupPhasePending = ''Pending''"
definition BackupPhaseRunning :: string where "BackupPhaseRunning = ''Running''"
definition BackupPhaseCompleted :: string where "BackupPhaseCompleted = ''Completed''"
definition BackupPhaseFailed :: string where "BackupPhaseFailed = ''Failed''"
definition ScheduledBackupLabel :: string where
  "ScheduledBackupLabel = ''database.serenedb.com/scheduled-backup''"

lemmas phase_defs =
  BackupPhasePending_def BackupPhaseRunning_def BackupPhaseCompleted_def BackupPhaseFailed_def

record backup_spec =
  ba_cluster :: cluster_ref
  ba_method :: string
  ba_volume_snapshot_class_name :: "string option"

record backup_status =
  bt_phase :: string
  bt_started_at :: "time option"
  bt_completed_at :: "time option"
  bt_snapshot_name :: string
  bt_error :: string

record backup =
  bk_meta :: object_meta
  bk_spec :: backup_spec
  bk_status :: backup_status

definition empty_backup_status :: backup_status where
  "empty_backup_status = \<lparr>bt_phase = [], bt_started_at = None, bt_completed_at = None,
     bt_snapshot_name = [], bt_error = []\<rparr>"

record scheduled_backup_spec =
  sb_cluster :: cluster_ref
  sb_schedule :: string
  sb_suspend :: bool
  sb_immediate :: bool
  sb_keep :: "int32 option"
  sb_method :: string
  sb_volume_snapshot_class_name :: "string option"

record scheduled_backup_status =
  su_last_schedule_time :: "time option"
  su_next_schedule_time :: "time option"
  su_last_backup :: string
  su_conditions :: "condition list"

record scheduled_backup =
  sd_meta :: object_meta
  sd_spec :: scheduled_backup_spec
  sd_status :: scheduled_backup_status

end
