(* ===== verification/KubeTypes.thy ===== *)
theory KubeTypes
  imports ApiTypes
begin

text \<open>
  The Kubernetes object types the operator builds and reads, with the fields it sets or
  looks at. An absent field is one the operator leaves at its zero value. Pointers are
  options, named integer types are words of the same width.
\<close>

section \<open>Secrets and config maps\<close>

record secret =
  sec_meta :: object_meta
  sec_type :: string
  sec_data :: gomap
  sec_string_data :: gomap

record config_map =
  cm_meta :: object_meta
  cm_data :: gomap

section \<open>Services\<close>

datatype int_or_string = FromInt32 int32 | FromString string

record service_port =
  svp_name :: string
  svp_port :: int32
  svp_target_port :: int_or_string
  svp_protocol :: string
  svp_node_port :: int32

record service_spec =
  svs_type :: string
  svs_ports :: "service_port list"
  svs_selector :: gomap
  svs_cluster_ip :: string
  svs_publish_not_ready_addresses :: bool

record service =
  svc_meta :: object_meta
  svc_spec :: service_spec

section \<open>Pods and StatefulSets\<close>

record exec_probe =
  pb_command :: "string list"
  pb_initial_delay_seconds :: int32
  pb_period_seconds :: int32
  pb_timeout_seconds :: int32
  pb_failure_threshold :: int32

record container_port =
  cp_name :: string
  cp_container_port :: int32
  cp_protocol :: string

record volume_mount =
  vm_name :: string
  vm_mount_path :: string
  vm_read_only :: bool

record container_security_context =
  cs_run_as_user :: "int64 option"
  cs_run_as_non_root :: "bool option"
  cs_allow_privilege_escalation :: "bool option"
  cs_drop_capabilities :: "string list"
  cs_seccomp_profile :: string

record container =
  co_name :: string
  co_image :: string
  co_image_pull_policy :: string
  co_security_context :: container_security_context
  co_args :: "string list"
  co_env :: "env_var list"
  co_ports :: "container_port list"
  co_startup_probe :: exec_probe
  co_readiness_probe :: exec_probe
  co_liveness_probe :: exec_probe
  co_resources :: opaque
  co_volume_mounts :: "volume_mount list"

datatype volume_source =
    ConfigMapSource string
  | SecretSource string
  | PersistentVolumeClaimSource string

record volume =
  vo_name :: string
  vo_source :: volume_source

record pod_spec =
  po_termination_grace_period_seconds :: "int64 option"
  po_automount_service_account_token :: "bool option"
  po_image_pull_secrets :: "local_object_reference list"
  po_fs_group :: "int64 option"
  po_priority_class_name :: string
  po_containers :: "container list"
  po_volumes :: "volume list"
  po_node_selector :: gomap
  po_tolerations :: "opaque list"
  po_affinity :: "opaque option"

record pod_template =
  pt_labels :: gomap
  pt_annotations :: gomap
  pt_spec :: pod_spec

record typed_local_object_reference =
  tr_api_group :: string
  tr_kind :: string
  tr_name :: string

record persistent_volume_claim =
  pc_name :: string
  pc_access_modes :: "string list"
  pc_storage_class_name :: "string option"
  pc_storage_request :: quantity
  pc_data_source :: "typed_local_object_reference option"

record pvc_retention_policy =
  pr_when_deleted :: string
  pr_when_scaled :: string

record stateful_set_spec =
  sts_replicas :: "int32 option"
  sts_service_name :: string
  sts_selector :: gomap
  sts_update_strategy :: string
  sts_template :: pod_template
  sts_pvc_retention_policy :: "pvc_retention_policy option"
  sts_volume_claim_templates :: "persistent_volume_claim list"

record stateful_set_status =
  sts_observed_generation :: int64
  sts_ready_replicas :: int32
  sts_updated_replicas :: int32
  sts_current_revision :: string
  sts_update_revision :: string

record stateful_set =
  sts_meta :: object_meta
  sts_spec :: stateful_set_spec
  sts_status :: stateful_set_status

definition empty_sts_status :: stateful_set_status where
  "empty_sts_status = \<lparr>sts_observed_generation = 0, sts_ready_replicas = 0,
     sts_updated_replicas = 0, sts_current_revision = [], sts_update_revision = []\<rparr>"

section \<open>Network policies\<close>

record network_policy_port =
  npp_protocol :: string
  npp_port :: int_or_string

record network_policy_spec =
  nps_pod_selector :: gomap
  nps_policy_types :: "string list"
  nps_ingress_ports :: "network_policy_port list list"

record network_policy =
  np_meta :: object_meta
  np_spec :: network_policy_spec

section \<open>Unstructured objects\<close>

datatype json = JBool bool | JString string | JObject "(string \<times> json) list"

record group_version_kind =
  gvk_group :: string
  gvk_version :: string
  gvk_kind :: string

record unstructured =
  un_gvk :: group_version_kind
  un_object :: json

end
