(* ===== verification/Names.thy ===== *)
theory Names
  imports KubeTypes
begin

text \<open>internal/resources/names.go: the names, defaults and labels every built object shares.\<close>

definition ManagedBy :: string where "ManagedBy = ''serenedb-operator''"
definition AppName :: string where "AppName = ''serenedb''"
definition ConfigHashAnnotation :: string where
  "ConfigHashAnnotation = ''database.serenedb.com/config-hash''"
definition configMountPath :: string where "configMountPath = ''/etc/serenedb''"
definition tlsMountPath :: string where "tlsMountPath = ''/etc/serenedb-tls''"
definition containerName :: string where "containerName = ''serened''"
definition dataVolume :: string where "dataVolume = ''data''"
definition configVolume :: string where "configVolume = ''config''"
definition tlsVolume :: string where "tlsVolume = ''tls''"
definition postgresPort :: string where "postgresPort = ''postgres''"
definition httpPort :: string where "httpPort = ''http''"
definition flagfileKey :: string where "flagfileKey = ''serened.conf''"
definition hbaKey :: string where "hbaKey = ''pg_hba.conf''"

lemmas volume_name_defs = dataVolume_def configVolume_def tlsVolume_def
lemmas port_name_defs = postgresPort_def httpPort_def

definition Name :: "serenedb \<Rightarrow> string" where
  "Name db = om_name (db_meta db)"

abbreviation Namespace :: "serenedb \<Rightarrow> string" where
  "Namespace db \<equiv> om_namespace (db_meta db)"

definition HeadlessServiceName :: "serenedb \<Rightarrow> string" where
  "HeadlessServiceName db = om_name (db_meta db) @ ''-hl''"

definition SecretName :: "serenedb \<Rightarrow> string" where
  "SecretName db = (if au_existing_secret (sp_auth (db_spec db)) \<noteq> []
     then au_existing_secret (sp_auth (db_spec db)) else Name db)"

definition PasswordKey :: "serenedb \<Rightarrow> string" where
  "PasswordKey db = (if au_password_key (sp_auth (db_spec db)) \<noteq> []
     then au_password_key (sp_auth (db_spec db)) else DefaultPasswordKey)"

definition ImageRepository :: "serenedb \<Rightarrow> string" where
  "ImageRepository db = (if im_repository (sp_image (db_spec db)) \<noteq> []
     then im_repository (sp_image (db_spec db)) else DefaultImageRepository)"

definition ImageTag :: "serenedb \<Rightarrow> string" where
  "ImageTag db = (if im_tag (sp_image (db_spec db)) \<noteq> []
     then im_tag (sp_image (db_spec db)) else DefaultImageTag)"

definition ServerImage :: "serenedb \<Rightarrow> string" where
  "ServerImage db = ImageRepository db @ '':'' @ ImageTag db"

definition PostgresPort :: "serenedb \<Rightarrow> int32" where
  "PostgresPort db = (if pl_port (ls_postgres (sp_listeners (db_spec db))) \<noteq> 0
     then pl_port (ls_postgres (sp_listeners (db_spec db))) else DefaultPostgresPort)"

definition HTTPPort :: "serenedb \<Rightarrow> int32" where
  "HTTPPort db = (if hl_port (ls_http (sp_listeners (db_spec db))) \<noteq> 0
     then hl_port (ls_http (sp_listeners (db_spec db))) else DefaultHTTPPort)"

definition Host :: "serenedb \<Rightarrow> string" where
  "Host db = Name db @ ''.'' @ Namespace db @ ''.svc''"

definition SelectorLabels :: "serenedb \<Rightarrow> gomap" where
  "SelectorLabels db = [(''app.kubernetes.io/name'', AppName),
     (''app.kubernetes.io/instance'', om_name (db_meta db))]"

definition Labels :: "serenedb \<Rightarrow> gomap" where
  "Labels db = (let labels = SelectorLabels db;
       labels = AList.update ''app.kubernetes.io/managed-by'' ManagedBy labels
     in AList.update ''app.kubernetes.io/version'' (ImageTag db) labels)"

text \<open>The labels of an owned object extend its selector and never change it.\<close>

lemma Labels_extend:
  "map_of (SelectorLabels db) k = Some v \<Longrightarrow> map_of (Labels db) k = Some v"
  by (simp add: Labels_def SelectorLabels_def update_conv' split: if_splits)

lemma distinct_SelectorLabels [simp]: "distinct (map fst (SelectorLabels db))"
  by (simp add: SelectorLabels_def)

lemma ports_nonzero: "PostgresPort db \<noteq> 0" "HTTPPort db \<noteq> 0"
  by (simp_all add: PostgresPort_def HTTPPort_def DefaultPostgresPort_def DefaultHTTPPort_def)

end
