(* ===== verification/SqlLex.thy ===== *)
theory SqlLex
  imports Prelude
begin

text \<open>
  An abstract reader of SQL text, the specification side of the rendering code: quoted
  strings and identifiers with doubled quotes, words, and single-character symbols. It is
  what "the statement contains this value and nothing else" is measured against.
\<close>

section \<open>Quoted text\<close>

fun lex_body :: "char \<Rightarrow> string \<Rightarrow> (string \<times> string) option" where
  "lex_body q [] = None"
| "lex_body q (c # cs) =
     (if c \<noteq> q then map_option (apfst (Cons c)) (lex_body q cs)
      else (case cs of [] \<Rightarrow> Some ([], [])
            | d # ds \<Rightarrow> if d = q then map_option (apfst (Cons q)) (lex_body q ds) else Some ([], cs)))"

definition lex_quoted :: "char \<Rightarrow> string \<Rightarrow> (string \<times> string) option" where
  "lex_quoted q s = (case s of [] \<Rightarrow> None | c # cs \<Rightarrow> if c = q then lex_body q cs else None)"

text \<open>A text that does not start with the given quote, so that the quoted part ends there.\<close>

definition ends_quote :: "char \<Rightarrow> string \<Rightarrow> bool" where
  "ends_quote q rest \<longleftrightarrow> (case rest of [] \<Rightarrow> True | c # _ \<Rightarrow> c \<noteq> q)"

lemma ends_quote_simps [simp]:
  "ends_quote q []"
  "ends_quote q (c # cs) \<longleftrightarrow> c \<noteq> q"
  by (simp_all add: ends_quote_def)

lemma lex_body_end: "ends_quote q rest \<Longrightarrow> lex_body q (q # rest) = Some ([], rest)"
  by (cases rest) auto

lemma lex_body_step: "c \<noteq> q \<Longrightarrow> lex_body q (c # cs) = map_option (apfst (Cons c)) (lex_body q cs)"
  by simp

lemma lex_body_pair: "lex_body q (q # q # cs) = map_option (apfst (Cons q)) (lex_body q cs)"
  by simp

declare lex_body.simps(2) [simp del]

lemma lex_body_doubled:
  "ends_quote q rest \<Longrightarrow> lex_body q (replace_all s q [q, q] @ q # rest) = Some (s, rest)"
proof (induction s)
  case Nil
  then show ?case by (simp add: lex_body_end)
next
  case (Cons x s)
  then show ?case by (cases "x = q") (simp_all add: lex_body_step lex_body_pair)
qed

lemma lex_quoted_doubled:
  "ends_quote q rest \<Longrightarrow> lex_quoted q (q # replace_all s q [q, q] @ q # rest) = Some (s, rest)"
  by (simp add: lex_quoted_def lex_body_doubled)

lemma lex_body_length: "lex_body q s = Some (v, rest) \<Longrightarrow> length rest < length s"
proof (induction q s arbitrary: v rest rule: lex_body.induct)
  case (1 q)
  then show ?case by simp
next
  case (2 q c cs)
  show ?case
  proof (cases "c = q")
    case False
    then show ?thesis using 2 by (fastforce simp: lex_body_step)
  next
    case True
    show ?thesis
    proof (cases cs)
      case Nil
      then show ?thesis using True 2(3) by (simp add: lex_body.simps(2))
    next
      case (Cons d ds)
      show ?thesis
      proof (cases "d = q")
        case d: True
        then obtain v' where "lex_body q ds = Some (v', rest)"
          using True Cons 2(3) by (auto simp: lex_body_pair)
        with 2(2) [of d ds] True Cons d show ?thesis by fastforce
      next
        case False
        then show ?thesis using True Cons 2(3) by (simp add: lex_body.simps(2))
      qed
    qed
  qed
qed

section \<open>The interface of a quoting function\<close>

text \<open>
  What the statement renderer relies on when it splices a quoted value: on the values the
  function accepts, a reader finds the value and the rest of the text unchanged.
\<close>

locale quoting =
  fixes quoted :: "string \<Rightarrow> string"
    and q :: char
    and accepts :: "string \<Rightarrow> bool"
  assumes starts: "accepts s \<Longrightarrow> \<exists>t. quoted s = q # t"
    and reads_back: "accepts s \<Longrightarrow> ends_quote q rest \<Longrightarrow> lex_quoted q (quoted s @ rest) = Some (s, rest)"
begin

lemma inject: "accepts s \<Longrightarrow> accepts t \<Longrightarrow> quoted s = quoted t \<longleftrightarrow> s = t"
  by (metis append_Nil2 ends_quote_simps(1) fst_conv option.inject reads_back)

lemma inject_rest:
  assumes "accepts s" "accepts t" "ends_quote q r1" "ends_quote q r2"
    and eq: "quoted s @ r1 = quoted t @ r2"
  shows "s = t \<and> r1 = r2"
proof -
  have "Some (s, r1) = lex_quoted q (quoted s @ r1)" by (rule reads_back [OF assms(1,3), symmetric])
  also have "\<dots> = Some (t, r2)" unfolding eq by (rule reads_back [OF assms(2,4)])
  finally show ?thesis by blast
qed

lemma body:
  assumes "accepts s" "ends_quote q rest"
  shows "\<exists>t. quoted s = q # t \<and> lex_body q (t @ rest) = Some (s, rest)"
proof -
  obtain t where t: "quoted s = q # t" using starts [OF assms(1)] by blast
  have "lex_quoted q (q # t @ rest) = Some (s, rest)"
    using reads_back [OF assms] unfolding t by simp
  with t show ?thesis by (auto simp: lex_quoted_def)
qed

end

section \<open>Tokens\<close>

datatype token = Kw string | Str string | Ident string | Sym char

definition word_char :: "char \<Rightarrow> bool" where
  "word_char c \<longleftrightarrow> (CHR ''a'' \<le> c \<and> c \<le> CHR ''z'') \<or> (CHR ''A'' \<le> c \<and> c \<le> CHR ''Z'')
     \<or> is_digit c \<or> c = CHR ''_''"

abbreviation squote :: char where "squote \<equiv> CHR 0x27"
abbreviation dquote :: char where "dquote \<equiv> CHR 0x22"

text \<open>
  The tokens of a statement; \<open>None\<close> for an unterminated quote or a comment. The fuel is
  the length of the text, which every step shortens.
\<close>

fun tokens_fuel :: "nat \<Rightarrow> string \<Rightarrow> token list option" where
  "tokens_fuel 0 s = (if s = [] then Some [] else None)"
| "tokens_fuel (Suc n) [] = Some []"
| "tokens_fuel (Suc n) (c # cs) =
     (if c = CHR '' '' then tokens_fuel n cs
      else if c = squote then
        (case lex_body squote cs of None \<Rightarrow> None
         | Some (v, rest) \<Rightarrow> map_option (Cons (Str v)) (tokens_fuel n rest))
      else if c = dquote then
        (case lex_body dquote cs of None \<Rightarrow> None
         | Some (v, rest) \<Rightarrow> map_option (Cons (Ident v)) (tokens_fuel n rest))
      else if word_char c then
        map_option (Cons (Kw (c # takeWhile word_char cs))) (tokens_fuel n (dropWhile word_char cs))
      else if c = CHR ''-'' \<and> (case cs of d # _ \<Rightarrow> d = CHR ''-'' | [] \<Rightarrow> False) then None
      else map_option (Cons (Sym c)) (tokens_fuel n cs))"

definition sql_tokens :: "string \<Rightarrow> token list option" where
  "sql_tokens s = tokens_fuel (length s) s"

lemma tokens_fuel_step:
  assumes "\<And>t. length t \<le> length cs \<Longrightarrow> tokens_fuel n t = tokens_fuel m t"
  shows "tokens_fuel (Suc n) (c # cs) = tokens_fuel (Suc m) (c # cs)"
proof -
  have "tokens_fuel n (dropWhile word_char cs) = tokens_fuel m (dropWhile word_char cs)"
    "tokens_fuel n cs = tokens_fuel m cs"
    by (rule assms, simp add: length_dropWhile_le)+
  moreover have "tokens_fuel n rest = tokens_fuel m rest" if "lex_body q cs = Some (v, rest)" for q v rest
    by (rule assms) (use lex_body_length [OF that] in simp)
  ultimately show ?thesis by (auto split: option.split)
qed

lemma tokens_fuel_enough:
  "length s \<le> n \<Longrightarrow> length s \<le> m \<Longrightarrow> tokens_fuel n s = tokens_fuel m s"
proof (induction n arbitrary: m s)
  case 0
  then show ?case by (cases m) auto
next
  case (Suc n)
  show ?case
  proof (cases s)
    case Nil
    then show ?thesis by (cases m) auto
  next
    case (Cons c cs)
    with Suc.prems obtain k where m: "m = Suc k" by (cases m) auto
    show ?thesis
      unfolding Cons m by (rule tokens_fuel_step, rule Suc.IH) (use Suc.prems Cons m in auto)
  qed
qed

lemma sql_tokens_Nil [simp]: "sql_tokens [] = Some []"
  by (simp add: sql_tokens_def)

lemma tokens_fuel_sql: "length s \<le> n \<Longrightarrow> tokens_fuel n s = sql_tokens s"
  unfolding sql_tokens_def by (rule tokens_fuel_enough) auto

lemma sql_tokens_space: "sql_tokens (CHR '' '' # cs) = sql_tokens cs"
  by (simp add: sql_tokens_def)

lemma sql_tokens_word:
  assumes "word_char c"
  shows "sql_tokens (c # cs) =
    map_option (Cons (Kw (c # takeWhile word_char cs))) (sql_tokens (dropWhile word_char cs))"
proof -
  have "c \<noteq> CHR '' ''" "c \<noteq> squote" "c \<noteq> dquote"
    using assms by (auto simp: word_char_def is_digit_def less_eq_char_def)
  moreover have "tokens_fuel (length cs) (dropWhile word_char cs) = sql_tokens (dropWhile word_char cs)"
    by (rule tokens_fuel_sql) (rule length_dropWhile_le)
  ultimately show ?thesis using assms by (simp add: sql_tokens_def [of "c # cs"])
qed

lemma sql_tokens_quoted:
  assumes "lex_body k cs = Some (v, rest)"
  shows "k = squote \<Longrightarrow> sql_tokens (k # cs) = map_option (Cons (Str v)) (sql_tokens rest)"
    and "k = dquote \<Longrightarrow> sql_tokens (k # cs) = map_option (Cons (Ident v)) (sql_tokens rest)"
proof -
  have "tokens_fuel (length cs) rest = sql_tokens rest"
    by (rule tokens_fuel_sql) (use lex_body_length [OF assms] in simp)
  then show "k = squote \<Longrightarrow> sql_tokens (k # cs) = map_option (Cons (Str v)) (sql_tokens rest)"
    and "k = dquote \<Longrightarrow> sql_tokens (k # cs) = map_option (Cons (Ident v)) (sql_tokens rest)"
    using assms by (simp_all add: sql_tokens_def [of "_ # cs"])
qed

definition plain_symbol :: "char \<Rightarrow> bool" where
  "plain_symbol c \<longleftrightarrow> c \<noteq> CHR '' '' \<and> c \<noteq> squote \<and> c \<noteq> dquote \<and> c \<noteq> CHR ''-'' \<and> \<not> word_char c"

lemma sql_tokens_symbol:
  "plain_symbol c \<Longrightarrow> sql_tokens (c # cs) = map_option (Cons (Sym c)) (sql_tokens cs)"
  by (simp add: sql_tokens_def plain_symbol_def)

text \<open>A word followed by something that cannot continue it.\<close>

definition ends_word :: "string \<Rightarrow> bool" where
  "ends_word rest \<longleftrightarrow> (case rest of [] \<Rightarrow> True | c # _ \<Rightarrow> \<not> word_char c)"

lemma ends_word_simps [simp]:
  "ends_word []"
  "ends_word (c # cs) \<longleftrightarrow> \<not> word_char c"
  by (simp_all add: ends_word_def)

lemma sql_tokens_word_append:
  assumes "w \<noteq> []" "\<forall>c \<in> set w. word_char c" "ends_word rest"
  shows "sql_tokens (w @ rest) = map_option (Cons (Kw w)) (sql_tokens rest)"
proof -
  obtain c cs where w: "w = c # cs" using assms(1) by (cases w) auto
  have "takeWhile word_char rest = []" "dropWhile word_char rest = rest"
    using assms(3) by (cases rest; simp)+
  moreover have "\<forall>c \<in> set cs. word_char c" "word_char c" using assms(2) w by auto
  ultimately have "takeWhile word_char (cs @ rest) = cs" "dropWhile word_char (cs @ rest) = rest"
    by (simp_all add: takeWhile_append2 dropWhile_append2)
  then show ?thesis using sql_tokens_word [OF \<open>word_char c\<close>, of "cs @ rest"] w by simp
qed

text \<open>A quoted value read as one token, from the contract of its quoting function.\<close>

subsection \<open>Splicing quoted values\<close>

context quoting
begin

lemma tokens_str:
  assumes "q = squote" "accepts s" "ends_quote q rest"
  shows "sql_tokens (quoted s @ rest) = map_option (Cons (Str s)) (sql_tokens rest)"
  using body [OF assms(2,3)] sql_tokens_quoted(1) [OF _ assms(1)] by auto

lemma tokens_ident:
  assumes "q = dquote" "accepts s" "ends_quote q rest"
  shows "sql_tokens (quoted s @ rest) = map_option (Cons (Ident s)) (sql_tokens rest)"
  using body [OF assms(2,3)] sql_tokens_quoted(2) [OF _ assms(1)] by auto

end

end
