(* ===== verification/Library.thy ===== *)
theory Library
  imports KubeTypes SqlLex
begin

text \<open>
  The pure functions of third-party packages the operator calls, as one record of
  parameters. Every definition that uses them takes the record as an argument, so what is
  proved holds for any implementation; where the code relies on what such a function
  promises, the promise is one of the named predicates below and a hypothesis of the
  theorem. An instance at the end shows that the promises can be kept together.
\<close>

section \<open>The parameters\<close>

type_synonym cron_schedule = "time \<Rightarrow> time"

record lib =
  sanitize :: "string \<Rightarrow> string"
  set_status_condition :: "condition list \<Rightarrow> condition \<Rightarrow> condition list"
  is_status_condition_true :: "condition list \<Rightarrow> string \<Rightarrow> bool"
  contains_finalizer :: "object_meta \<Rightarrow> string \<Rightarrow> bool"
  add_finalizer :: "object_meta \<Rightarrow> string \<Rightarrow> object_meta"
  remove_finalizer :: "object_meta \<Rightarrow> string \<Rightarrow> object_meta"
  set_controller_reference :: "object_meta \<Rightarrow> object_meta \<Rightarrow> go_error + object_meta"
  set_controller_reference_u :: "object_meta \<Rightarrow> unstructured \<Rightarrow> go_error + unstructured"
  remove_controller_reference :: "object_meta \<Rightarrow> object_meta \<Rightarrow> go_error + object_meta"
  is_controlled_by :: "object_meta \<Rightarrow> object_meta \<Rightarrow> bool"
  nested_bool :: "json \<Rightarrow> string list \<Rightarrow> bool"
  nested_string :: "json \<Rightarrow> string list \<Rightarrow> string"
  cron_parse_standard :: "string \<Rightarrow> go_error + cron_schedule"
  sha256_sum :: "string \<Rightarrow> string"

text \<open>
  \<^item> \<open>sanitize\<close>: \<open>pgx.Identifier{name}.Sanitize()\<close>.
  \<^item> \<open>set_status_condition\<close>, \<open>is_status_condition_true\<close>: package meta of apimachinery.
  \<^item> \<open>contains_finalizer\<close> to \<open>remove_controller_reference\<close>: package controllerutil; in the
    controller references the first argument is the owner, the second the object.
  \<^item> \<open>is_controlled_by\<close>: \<open>metav1.IsControlledBy(object, owner)\<close>.
  \<^item> \<open>set_controller_reference_u\<close>: the same function on an unstructured object.
  \<^item> \<open>nested_bool\<close>, \<open>nested_string\<close>: the value part of \<open>unstructured.NestedBool\<close> and
    \<open>NestedString\<close>, the zero value when the field is absent or of another type.
  \<^item> \<open>cron_parse_standard\<close>: \<open>cron.ParseStandard\<close>, a schedule being its \<open>Next\<close> method.
  \<^item> \<open>sha256_sum\<close>: the digest of package crypto/sha256.
\<close>

section \<open>What the operator relies on\<close>

definition nul_free :: "string \<Rightarrow> bool" where
  "nul_free s \<longleftrightarrow> CHR 0x00 \<notin> set s"

text \<open>A sanitized identifier reads back as the identifier.\<close>

definition sanitize_law :: "lib \<Rightarrow> bool" where
  "sanitize_law l \<longleftrightarrow> quoting (sanitize l) dquote nul_free"

definition find_condition :: "string \<Rightarrow> condition list \<Rightarrow> condition option" where
  "find_condition t cs = find (\<lambda>c. c_type c = t) cs"

text \<open>
  Setting a condition replaces or adds the entry of its type and no other; the truth test
  looks at the entry of the type.
\<close>

definition condition_law :: "lib \<Rightarrow> bool" where
  "condition_law l \<longleftrightarrow>
     (\<forall>cs c t. find_condition t (set_status_condition l cs c) =
        (if t = c_type c then Some c else find_condition t cs)) \<and>
     (\<forall>cs t. is_status_condition_true l cs t \<longleftrightarrow>
        (\<exists>c. find_condition t cs = Some c \<and> c_status c = ConditionTrue))"

text \<open>The finalizer list is a set of names: membership, insertion, removal.\<close>

definition finalizer_law :: "lib \<Rightarrow> bool" where
  "finalizer_law l \<longleftrightarrow>
     (\<forall>m f. contains_finalizer l m f \<longleftrightarrow> f \<in> set (om_finalizers m)) \<and>
     (\<forall>m f. set (om_finalizers (add_finalizer l m f)) = insert f (set (om_finalizers m))) \<and>
     (\<forall>m f. set (om_finalizers (remove_finalizer l m f)) = set (om_finalizers m) - {f})"

text \<open>
  A controller reference once set is the one the ownership test sees; a removed one is not, and
  its removal touches the owner references only.
\<close>

definition controller_law :: "lib \<Rightarrow> bool" where
  "controller_law l \<longleftrightarrow>
     (\<forall>w m m'. set_controller_reference l w m = Inr m' \<longrightarrow> is_controlled_by l m' w) \<and>
     (\<forall>w m m'. remove_controller_reference l w m = Inr m' \<longrightarrow> \<not> is_controlled_by l m' w \<and>
        (\<exists>refs. m' = m\<lparr>om_owner_references := refs\<rparr>))"

text \<open>
  Setting a controller reference touches the owner references only, and an object of the same
  namespace that has the references already is left as it is.
\<close>

definition owner_law :: "lib \<Rightarrow> bool" where
  "owner_law l \<longleftrightarrow> (\<forall>w m m'. set_controller_reference l w m = Inr m' \<longrightarrow>
     (\<exists>refs. m' = m\<lparr>om_owner_references := refs\<rparr> \<and>
       (\<forall>m2. om_owner_references m2 = refs \<longrightarrow> om_namespace m2 = om_namespace m \<longrightarrow>
         set_controller_reference l w m2 = Inr m2)))"

text \<open>
  \<open>Next\<close> returns an activation time later than its argument, or the zero time when the
  expression has none within five years.
\<close>

definition cron_law :: "cron_schedule \<Rightarrow> bool" where
  "cron_law next \<longleftrightarrow> (\<forall>t. t < next t \<or> next t = zero_time)"

lemma sanitize_quoting: "sanitize_law l \<Longrightarrow> quoting (sanitize l) dquote nul_free"
  by (simp add: sanitize_law_def)

lemma find_condition_set:
  "condition_law l \<Longrightarrow> find_condition t (set_status_condition l cs c) =
     (if t = c_type c then Some c else find_condition t cs)"
  unfolding condition_law_def by blast

lemma condition_true_iff:
  "condition_law l \<Longrightarrow> is_status_condition_true l cs t \<longleftrightarrow>
     (\<exists>c. find_condition t cs = Some c \<and> c_status c = ConditionTrue)"
  unfolding condition_law_def by blast

section \<open>An instance\<close>

definition doubled_identifier :: "string \<Rightarrow> string" where
  "doubled_identifier s = dquote # replace_all s dquote [dquote, dquote] @ [dquote]"

fun replace_condition :: "condition list \<Rightarrow> condition \<Rightarrow> condition list" where
  "replace_condition [] c = [c]"
| "replace_condition (d # cs) c =
     (if c_type d = c_type c then c # cs else d # replace_condition cs c)"

definition owner_of :: "object_meta \<Rightarrow> owner_ref" where
  "owner_of w = \<lparr>or_kind = [], or_name = om_name w, or_uid = om_uid w, or_controller = True\<rparr>"

fun json_path :: "json \<Rightarrow> string list \<Rightarrow> json option" where
  "json_path j [] = Some j"
| "json_path (JObject fs) (k # ks) =
     (case map_of fs k of None \<Rightarrow> None | Some j \<Rightarrow> json_path j ks)"
| "json_path _ (k # ks) = None"

definition plain_lib :: "lib" where
  "plain_lib = \<lparr>
     sanitize = doubled_identifier,
     set_status_condition = replace_condition,
     is_status_condition_true =
       (\<lambda>cs t. case find_condition t cs of None \<Rightarrow> False | Some c \<Rightarrow> c_status c = ConditionTrue),
     contains_finalizer = (\<lambda>m f. f \<in> set (om_finalizers m)),
     add_finalizer = (\<lambda>m f. m\<lparr>om_finalizers := om_finalizers m @ [f]\<rparr>),
     remove_finalizer = (\<lambda>m f. m\<lparr>om_finalizers := filter (\<lambda>g. g \<noteq> f) (om_finalizers m)\<rparr>),
     set_controller_reference = (\<lambda>w m. Inr (m\<lparr>om_owner_references := [owner_of w]\<rparr>)),
     set_controller_reference_u = (\<lambda>w u. Inr (case un_object u of
         JObject fs \<Rightarrow> u\<lparr>un_object := JObject (fs @ [(''ownerUID'', JString (om_uid w))])\<rparr> | _ \<Rightarrow> u)),
     remove_controller_reference = (\<lambda>w m. Inr (m\<lparr>om_owner_references := []\<rparr>)),
     is_controlled_by = (\<lambda>m w. owner_of w \<in> set (om_owner_references m)),
     nested_bool = (\<lambda>j ks. case json_path j ks of Some (JBool b) \<Rightarrow> b | _ \<Rightarrow> False),
     nested_string = (\<lambda>j ks. case json_path j ks of Some (JString s) \<Rightarrow> s | _ \<Rightarrow> []),
     cron_parse_standard = (\<lambda>s. if s = [] then Inl (Errorf ''empty spec string'')
        else Inr (\<lambda>t. (t div (3600 * 10 ^ 9) + 1) * (3600 * 10 ^ 9))),
     sha256_sum = (\<lambda>s. take 32 s)\<rparr>"

lemma plain_lib_sanitize: "sanitize_law plain_lib"
proof -
  have "lex_quoted dquote (doubled_identifier s @ rest) = Some (s, rest)"
    if "ends_quote dquote rest" for s rest
    using lex_quoted_doubled [OF that, of s] by (simp add: doubled_identifier_def)
  then show ?thesis
    unfolding sanitize_law_def plain_lib_def
    by unfold_locales (simp_all add: doubled_identifier_def)
qed

lemma find_replace_condition:
  "find_condition t (replace_condition cs c) = (if t = c_type c then Some c else find_condition t cs)"
  by (induction cs c rule: replace_condition.induct) (auto simp: find_condition_def)

lemma plain_lib_condition: "condition_law plain_lib"
  unfolding condition_law_def
  by (auto simp: plain_lib_def find_replace_condition split: option.splits)

lemma plain_lib_finalizer: "finalizer_law plain_lib"
  unfolding finalizer_law_def by (auto simp: plain_lib_def)

lemma plain_lib_controller: "controller_law plain_lib"
  unfolding controller_law_def by (auto simp: plain_lib_def)

lemma plain_lib_owner: "owner_law plain_lib"
  unfolding owner_law_def by (auto simp: plain_lib_def)

lemma plain_lib_cron: "cron_parse_standard plain_lib s = Inr next \<Longrightarrow> cron_law next"
  unfolding cron_law_def
  by (auto simp: plain_lib_def split: if_splits)

end
