(* ===== verification/Config.thy ===== *)
theory Config
  imports Names Library "HOL-Library.Sublist"
begin

text \<open>
  internal/resources/configmap.go: the flagfile, the listener value and the digest that
  rolls the pod when the configuration changes.
\<close>

section \<open>Definitions\<close>

definition orDefault :: "string \<Rightarrow> string \<Rightarrow> string" where
  "orDefault value fallback = (if value \<noteq> [] then value else fallback)"

definition logLevel :: "config_spec \<Rightarrow> string" where
  "logLevel cfg = orDefault (cf_log_level cfg) ''info''"

definition appendNonZero :: "string list \<Rightarrow> string \<Rightarrow> int64 \<Rightarrow> string list" where
  "appendNonZero lines flag value = (if value = 0 then lines else lines @ [flag @ ''='' @ fmt_d value])"

text \<open>The conversion \<open>int64(x)\<close> of an \<open>int32\<close> extends the sign.\<close>

definition int64_of :: "int32 \<Rightarrow> int64" where
  "int64_of w = scast w"

definition ListenValue :: "serenedb \<Rightarrow> string" where
  "ListenValue db =
     (let pg = ''postgres://0.0.0.0:'' @ fmt_d (PostgresPort db);
          ls = sp_listeners (db_spec db);
          pg = (if pl_sslmode (ls_postgres ls) \<noteq> [] then pg @ ''?sslmode='' @ pl_sslmode (ls_postgres ls) else pg)
      in if \<not> hl_enabled (ls_http ls) then pg
         else (let scheme = (if tls_enabled (sp_tls (db_spec db)) then ''https'' else ''http'')
               in pg @ '','' @ (scheme @ ''://0.0.0.0:'' @ fmt_d (HTTPPort db) @ ''?api=es'')))"

definition flagfile_lines :: "serenedb \<Rightarrow> string list" where
  "flagfile_lines db =
     (let cfg = sp_config (db_spec db);
          http = ls_http (sp_listeners (db_spec db));
          tls = sp_tls (db_spec db);
          lines = [''--listen='' @ ListenValue db, ''--log_storage=stdout'', ''--log_level='' @ logLevel cfg];
          lines = appendNonZero lines ''--max_connections'' (int64_of (cf_max_connections cfg));
          lines = appendNonZero lines ''--cpu_threads'' (int64_of (cf_cpu_threads cfg));
          lines = appendNonZero lines ''--io_threads'' (int64_of (cf_io_threads cfg));
          lines = appendNonZero lines ''--background_threads'' (int64_of (cf_background_threads cfg));
          lines = lines @ [''--auth_timeout='' @ orDefault (cf_auth_timeout cfg) ''30s''];
          lines = lines @ [''--idle_session_timeout='' @ orDefault (cf_idle_session_timeout cfg) ''75s''];
          lines = appendNonZero lines ''--pg_max_message_bytes'' (cf_pg_max_message_bytes cfg);
          lines = (if hl_enabled http \<and> hl_cors_origins http \<noteq> []
                   then lines @ [''--http_cors_origins='' @ hl_cors_origins http] else lines);
          lines = (if tls_enabled tls
                   then lines @ [''--tls_cert='' @ tlsMountPath @ ''/tls.crt'',
                                 ''--tls_key='' @ tlsMountPath @ ''/tls.key'',
                                 ''--tls_min_version='' @ orDefault (tls_min_version tls) ''1.2'']
                   else lines);
          lines = (if cf_hba cfg \<noteq> [] then lines @ [''--hba_config='' @ configMountPath @ ''/'' @ hbaKey]
                   else lines)
      in lines @ cf_extra_flags cfg)"

definition newline :: string where "newline = [CHR 0x0A]"

definition Flagfile :: "serenedb \<Rightarrow> string" where
  "Flagfile db = join newline (flagfile_lines db) @ newline"

definition ConfigMap :: "serenedb \<Rightarrow> config_map" where
  "ConfigMap db =
     (let data = [(flagfileKey, Flagfile db)];
          data = (if cf_hba (sp_config (db_spec db)) \<noteq> []
                  then AList.update hbaKey (cf_hba (sp_config (db_spec db))) data else data)
      in \<lparr>cm_meta = empty_meta\<lparr>om_name := Name db, om_namespace := Namespace db, om_labels := Labels db\<rparr>,
          cm_data = data\<rparr>)"

text \<open>The bytes fed to the digest: keys in sorted order, each key and value NUL-terminated.\<close>

fun digest_entries :: "gomap \<Rightarrow> string list \<Rightarrow> string" where
  "digest_entries data [] = []"
| "digest_entries data (k # ks) =
     k @ [CHR 0x00] @ (case map_of data k of None \<Rightarrow> [] | Some v \<Rightarrow> v) @ [CHR 0x00] @ digest_entries data ks"

definition digest_input :: "gomap \<Rightarrow> string" where
  "digest_input data = digest_entries data (sort (map fst data))"

definition hex_encode :: "string \<Rightarrow> string" where
  "hex_encode bytes = concat (map (\<lambda>c. [hex_digit (of_char c div 16), hex_digit (of_char c mod 16)]) bytes)"

definition ConfigHash :: "lib \<Rightarrow> config_map \<Rightarrow> string" where
  "ConfigHash l cm = hex_encode (sha256_sum l (digest_input (cm_data cm)))"

section \<open>The digest input\<close>

lemma nul_terminated_inject:
  assumes "nul_free a" "nul_free b" "a @ CHR 0x00 # r = b @ CHR 0x00 # s"
  shows "a = b \<and> r = s"
  using assms
proof (induction a arbitrary: b)
  case Nil
  then show ?case by (cases b) (auto simp: nul_free_def)
next
  case (Cons x a)
  then show ?case by (cases b) (auto simp: nul_free_def)
qed

definition data_nul_free :: "gomap \<Rightarrow> bool" where
  "data_nul_free data \<longleftrightarrow> (\<forall>(k, v) \<in> set data. nul_free k \<and> nul_free v)"

lemma digest_entries_inject:
  assumes "\<forall>k \<in> set ks. nul_free k \<and> (\<exists>v. map_of d k = Some v \<and> nul_free v)"
    and "\<forall>k \<in> set js. nul_free k \<and> (\<exists>v. map_of e k = Some v \<and> nul_free v)"
    and "digest_entries d ks = digest_entries e js"
  shows "ks = js \<and> (\<forall>k \<in> set ks. map_of d k = map_of e k)"
  using assms
proof (induction ks arbitrary: js)
  case Nil
  then show ?case by (cases js) auto
next
  case (Cons k ks)
  then obtain j js' where js: "js = j # js'" by (cases js) auto
  have k: "nul_free k" and "\<exists>v. map_of d k = Some v \<and> nul_free v"
    by (rule bspec [OF Cons.prems(1), of k, THEN conjunct1], simp)
      (rule bspec [OF Cons.prems(1), of k, THEN conjunct2], simp)
  then obtain v where v: "map_of d k = Some v" "nul_free v" by blast
  have j: "nul_free j" and "\<exists>w. map_of e j = Some w \<and> nul_free w"
    by (rule bspec [OF Cons.prems(2), of j, THEN conjunct1], simp add: js)
      (rule bspec [OF Cons.prems(2), of j, THEN conjunct2], simp add: js)
  then obtain w where w: "map_of e j = Some w" "nul_free w" by blast
  have "k @ CHR 0x00 # v @ CHR 0x00 # digest_entries d ks = j @ CHR 0x00 # w @ CHR 0x00 # digest_entries e js'"
    using Cons.prems(3) js v w by simp
  from nul_terminated_inject [OF k j this]
  have kj: "k = j" and "v @ CHR 0x00 # digest_entries d ks = w @ CHR 0x00 # digest_entries e js'" by blast+
  from nul_terminated_inject [OF v(2) w(2) this(2)]
  have vw: "v = w" and rest: "digest_entries d ks = digest_entries e js'" by blast+
  have "ks = js' \<and> (\<forall>k \<in> set ks. map_of d k = map_of e k)"
    by (rule Cons.IH [OF _ _ rest]) (use Cons.prems(1,2) js in simp_all)
  then show ?case using js v w kj vw by simp
qed

lemma digest_input_inject:
  assumes "distinct (map fst d)" "distinct (map fst e)" "data_nul_free d" "data_nul_free e"
    and "digest_input d = digest_input e"
  shows "map_of d = map_of e"
proof -
  have entry: "\<forall>k \<in> set (sort (map fst d)). nul_free k \<and> (\<exists>v. map_of d k = Some v \<and> nul_free v)"
    if "distinct (map fst d)" "data_nul_free d" for d
    using that by (auto simp: data_nul_free_def)
  from digest_entries_inject [OF entry [OF assms(1,3)] entry [OF assms(2,4)]
      assms(5) [unfolded digest_input_def]]
  have keys: "sort (map fst d) = sort (map fst e)"
    and same: "\<forall>k \<in> fst ` set d. map_of d k = map_of e k" by auto
  have "fst ` set d = fst ` set e" using arg_cong [OF keys, of set] by simp
  show ?thesis
  proof
    fix k show "map_of d k = map_of e k"
    proof (cases "k \<in> fst ` set d")
      case True
      then show ?thesis using same by blast
    next
      case False
      then have "k \<notin> fst ` set e" using \<open>fst ` set d = fst ` set e\<close> by simp
      with False have "map_of d k = None" "map_of e k = None" by (simp_all add: map_of_eq_None_iff)
      then show ?thesis by simp
    qed
  qed
qed

lemma ConfigMap_data:
  "map_of (cm_data (ConfigMap db)) = [flagfileKey \<mapsto> Flagfile db]
     (hbaKey := (if cf_hba (sp_config (db_spec db)) = [] then None else Some (cf_hba (sp_config (db_spec db)))))"
  by (auto simp: ConfigMap_def Let_def flagfileKey_def hbaKey_def fun_eq_iff)

lemma distinct_ConfigMap: "distinct (map fst (cm_data (ConfigMap db)))"
  by (simp add: ConfigMap_def Let_def flagfileKey_def hbaKey_def)

lemma hex_digit_code: "d < 16 \<Longrightarrow> (of_char (hex_digit d) :: nat) = (if d < 10 then 48 + d else 87 + d)"
  by (simp add: hex_digit_def)

lemma hex_digit_inject:
  assumes "d < 16" "e < 16"
  shows "hex_digit d = hex_digit e \<longleftrightarrow> d = e"
proof
  assume "hex_digit d = hex_digit e"
  then have "(of_char (hex_digit d) :: nat) = of_char (hex_digit e)" by simp
  then show "d = e"
    unfolding hex_digit_code [OF assms(1)] hex_digit_code [OF assms(2)]
    using assms by (simp split: if_splits)
qed simp

lemma div_mod_unique_nat: "(m :: nat) div 16 = n div 16 \<Longrightarrow> m mod 16 = n mod 16 \<Longrightarrow> m = n"
  by (metis div_mult_mod_eq)

lemma of_char_less_256: "(of_char x :: nat) < 256"
  using of_char_mod_256 [of x, where ?'a = nat] mod_less_divisor [of 256 "of_char x :: nat"] by simp

lemma hex_encode_inject: "hex_encode s = hex_encode t \<longleftrightarrow> s = t"
proof (induction s arbitrary: t)
  case Nil
  then show ?case by (cases t) (simp_all add: hex_encode_def)
next
  case (Cons c s)
  show ?case
  proof (cases t)
    case (Cons d t')
    have byte: "of_char x div 16 < (16 :: nat)" for x :: char
      using of_char_less_256 [of x] by linarith
    have "of_char c div 16 = (of_char d div 16 :: nat) \<and> of_char c mod 16 = (of_char d mod 16 :: nat) \<and> P \<longleftrightarrow>
        c = d \<and> P" for P
    proof -
      have "of_char c div 16 = (of_char d div 16 :: nat) \<Longrightarrow> of_char c mod 16 = (of_char d mod 16 :: nat) \<Longrightarrow>
          (of_char c :: nat) = of_char d"
        by (rule div_mod_unique_nat)
      then show ?thesis by auto
    qed
    then show ?thesis
      using Cons.IH [of t'] Cons by (simp add: hex_encode_def hex_digit_inject byte)
  qed (simp add: hex_encode_def)
qed

lemma digest_input_complete:
  assumes "data_nul_free (cm_data (ConfigMap a))" "data_nul_free (cm_data (ConfigMap b))"
  shows "digest_input (cm_data (ConfigMap a)) = digest_input (cm_data (ConfigMap b)) \<longleftrightarrow>
    Flagfile a = Flagfile b \<and> cf_hba (sp_config (db_spec a)) = cf_hba (sp_config (db_spec b))"
proof
  assume "digest_input (cm_data (ConfigMap a)) = digest_input (cm_data (ConfigMap b))"
  from digest_input_inject [OF distinct_ConfigMap distinct_ConfigMap assms this]
  have eq: "map_of (cm_data (ConfigMap a)) k = map_of (cm_data (ConfigMap b)) k" for k by simp
  from eq [of flagfileKey] eq [of hbaKey]
  show "Flagfile a = Flagfile b \<and> cf_hba (sp_config (db_spec a)) = cf_hba (sp_config (db_spec b))"
    by (auto simp: ConfigMap_data flagfileKey_def hbaKey_def split: if_splits)
next
  assume "Flagfile a = Flagfile b \<and> cf_hba (sp_config (db_spec a)) = cf_hba (sp_config (db_spec b))"
  then have "cm_data (ConfigMap a) = cm_data (ConfigMap b)" by (simp add: ConfigMap_def Let_def)
  then show "digest_input (cm_data (ConfigMap a)) = digest_input (cm_data (ConfigMap b))" by simp
qed

text \<open>SHA-256 has no collision on two given inputs.\<close>

definition no_collision :: "lib \<Rightarrow> string \<Rightarrow> string \<Rightarrow> bool" where
  "no_collision l x y \<longleftrightarrow> sha256_sum l x = sha256_sum l y \<longrightarrow> x = y"

lemma ConfigHash_eq_iff:
  assumes "no_collision l (digest_input (cm_data a)) (digest_input (cm_data b))"
  shows "ConfigHash l a = ConfigHash l b \<longleftrightarrow> digest_input (cm_data a) = digest_input (cm_data b)"
  using assms by (auto simp: ConfigHash_def hex_encode_inject no_collision_def)

text \<open>C18. The config hash that rolls the pod is complete: two servers get the same hash exactly
  when both their flagfiles and their host-based authentication texts agree, for texts without
  a NUL byte and inputs on which SHA-256 does not collide.\<close>

theorem config_digest_complete:
  assumes "data_nul_free (cm_data (ConfigMap a))" "data_nul_free (cm_data (ConfigMap b))"
    and "no_collision l (digest_input (cm_data (ConfigMap a))) (digest_input (cm_data (ConfigMap b)))"
  shows "ConfigHash l (ConfigMap a) = ConfigHash l (ConfigMap b) \<longleftrightarrow>
    Flagfile a = Flagfile b \<and> cf_hba (sp_config (db_spec a)) = cf_hba (sp_config (db_spec b))"
  by (simp only: ConfigHash_eq_iff [OF assms(3)] digest_input_complete [OF assms(1,2)])

section \<open>The flagfile\<close>

definition flag_name :: "string \<Rightarrow> string" where
  "flag_name line = takeWhile (\<lambda>c. c \<noteq> CHR ''='') line"

definition known_flags :: "string list" where
  "known_flags = [''--listen'', ''--log_storage'', ''--log_level'', ''--max_connections'', ''--cpu_threads'',
     ''--io_threads'', ''--background_threads'', ''--auth_timeout'', ''--idle_session_timeout'',
     ''--pg_max_message_bytes'', ''--http_cors_origins'', ''--tls_cert'', ''--tls_key'',
     ''--tls_min_version'', ''--hba_config'']"

lemma distinct_known_flags: "distinct known_flags"
  by (simp add: known_flags_def)

lemma flag_name_eq: "CHR ''='' \<notin> set f \<Longrightarrow> flag_name (f @ CHR ''='' # v) = f"
  by (auto simp: flag_name_def takeWhile_append)

lemma subseq_optional: "subseq xs ys \<Longrightarrow> subseq (if b then xs else []) ys"
  by simp

lemma appendNonZero_eq: "appendNonZero lines f v = lines @ (if v = 0 then [] else [f @ ''='' @ fmt_d v])"
  by (simp add: appendNonZero_def)

text \<open>The lines before the extra flags, as groups in order.\<close>

definition flag_groups :: "serenedb \<Rightarrow> string list list" where
  "flag_groups db = (let cfg = sp_config (db_spec db); http = ls_http (sp_listeners (db_spec db));
       tls = sp_tls (db_spec db) in
     [[''--listen='' @ ListenValue db, ''--log_storage=stdout'', ''--log_level='' @ logLevel cfg],
      if cf_max_connections cfg = 0 then [] else [''--max_connections='' @ fmt_d (int64_of (cf_max_connections cfg))],
      if cf_cpu_threads cfg = 0 then [] else [''--cpu_threads='' @ fmt_d (int64_of (cf_cpu_threads cfg))],
      if cf_io_threads cfg = 0 then [] else [''--io_threads='' @ fmt_d (int64_of (cf_io_threads cfg))],
      if cf_background_threads cfg = 0 then []
        else [''--background_threads='' @ fmt_d (int64_of (cf_background_threads cfg))],
      [''--auth_timeout='' @ orDefault (cf_auth_timeout cfg) ''30s'',
       ''--idle_session_timeout='' @ orDefault (cf_idle_session_timeout cfg) ''75s''],
      if cf_pg_max_message_bytes cfg = 0 then []
        else [''--pg_max_message_bytes='' @ fmt_d (cf_pg_max_message_bytes cfg)],
      if hl_enabled http \<and> hl_cors_origins http \<noteq> [] then [''--http_cors_origins='' @ hl_cors_origins http] else [],
      if tls_enabled tls then [''--tls_cert='' @ tlsMountPath @ ''/tls.crt'', ''--tls_key='' @ tlsMountPath @ ''/tls.key'',
        ''--tls_min_version='' @ orDefault (tls_min_version tls) ''1.2''] else [],
      if cf_hba cfg \<noteq> [] then [''--hba_config='' @ configMountPath @ ''/'' @ hbaKey] else []])"

lemma fmt_d_int64_of [simp]: "fmt_d (int64_of w) = fmt_d w"
proof -
  have "sint (scast w :: int64) = sint w"
    by (rule sint_up_scast) (simp add: is_up)
  then show ?thesis by (simp add: fmt_d_def int64_of_def)
qed

lemma int64_of_eq_0 [simp]: "int64_of w = 0 \<longleftrightarrow> w = 0"
proof -
  have "fmt_d (int64_of w) = fmt_d (0 :: int64) \<longleftrightarrow> fmt_d w = fmt_d (0 :: int32)"
    by (simp add: fmt_d_def [of "0 :: int64"] fmt_d_def [of "0 :: int32"])
  then show ?thesis by (simp only: fmt_d_inject)
qed

lemma flagfile_lines_eq: "flagfile_lines db = concat (flag_groups db) @ cf_extra_flags (sp_config (db_spec db))"
  by (simp add: flagfile_lines_def flag_groups_def Let_def appendNonZero_eq)

definition group_names :: "string list list" where
  "group_names = [[''--listen'', ''--log_storage'', ''--log_level''], [''--max_connections''], [''--cpu_threads''],
     [''--io_threads''], [''--background_threads''], [''--auth_timeout'', ''--idle_session_timeout''],
     [''--pg_max_message_bytes''], [''--http_cors_origins''],
     [''--tls_cert'', ''--tls_key'', ''--tls_min_version''], [''--hba_config'']]"

lemma subseq_concat: "list_all2 subseq xss yss \<Longrightarrow> subseq (concat xss) (concat yss)"
  by (induction rule: list_all2_induct) (auto intro: list_emb_append_mono)

lemma flag_groups_names: "list_all2 subseq (map (map flag_name) (flag_groups db)) group_names"
  by (simp add: flag_groups_def group_names_def Let_def flag_name_def if_distrib [of "map _"])

lemma flag_names_subseq: "subseq (map flag_name (concat (flag_groups db))) known_flags"
  using subseq_concat [OF flag_groups_names]
  by (simp add: map_concat known_flags_def group_names_def)

lemma set_of_subseq: "subseq xs ys \<Longrightarrow> set xs \<subseteq> set ys"
  by (induction rule: list_emb.induct) auto

lemma distinct_of_subseq: "subseq xs ys \<Longrightarrow> distinct ys \<Longrightarrow> distinct xs"
  by (induction rule: list_emb.induct) (auto dest: set_of_subseq)

text \<open>
  The generated part sets every known flag at most once, so the server's last-one-wins rule for
  repeated flags never applies to it.
\<close>

lemma flagfile_flags_once:
  "\<exists>generated. flagfile_lines db = generated @ cf_extra_flags (sp_config (db_spec db))
     \<and> hd generated = ''--listen='' @ ListenValue db
     \<and> distinct (map flag_name generated)
     \<and> set (map flag_name generated) \<subseteq> set known_flags"
proof (intro exI conjI)
  show "flagfile_lines db = concat (flag_groups db) @ cf_extra_flags (sp_config (db_spec db))"
    by (rule flagfile_lines_eq)
  show "hd (concat (flag_groups db)) = ''--listen='' @ ListenValue db"
    by (simp add: flag_groups_def Let_def)
  show "distinct (map flag_name (concat (flag_groups db)))"
    by (rule distinct_of_subseq [OF flag_names_subseq distinct_known_flags])
  show "set (map flag_name (concat (flag_groups db))) \<subseteq> set known_flags"
    by (rule set_of_subseq [OF flag_names_subseq])
qed

text \<open>Reading the file line by line.\<close>

function read_lines :: "string \<Rightarrow> string list" where
  "read_lines [] = []"
| "read_lines (c # cs) = takeWhile (\<lambda>d. d \<noteq> CHR 0x0A) (c # cs)
     # read_lines (drop 1 (dropWhile (\<lambda>d. d \<noteq> CHR 0x0A) (c # cs)))"
  by pat_completeness auto
termination
proof (relation "measure length", goal_cases)
  case (2 c cs)
  have "length (dropWhile (\<lambda>d. d \<noteq> CHR 0x0A) cs) \<le> length cs" by (rule length_dropWhile_le)
  then show ?case by auto
qed simp

declare read_lines.simps(2) [simp del]

lemma read_lines_line:
  assumes "CHR 0x0A \<notin> set l"
  shows "read_lines (l @ CHR 0x0A # rest) = l # read_lines rest"
proof -
  obtain c cs where eq: "l @ CHR 0x0A # rest = c # cs" by (cases "l @ CHR 0x0A # rest") auto
  have "takeWhile (\<lambda>d. d \<noteq> CHR 0x0A) (l @ CHR 0x0A # rest) = l"
    "dropWhile (\<lambda>d. d \<noteq> CHR 0x0A) (l @ CHR 0x0A # rest) = CHR 0x0A # rest"
    using assms by (auto simp: takeWhile_append dropWhile_append)
  then show ?thesis using read_lines.simps(2) [of c cs] by (simp add: eq)
qed

lemma read_lines_join:
  "xs \<noteq> [] \<Longrightarrow> \<forall>l \<in> set xs. CHR 0x0A \<notin> set l \<Longrightarrow> read_lines (join newline xs @ newline) = xs"
proof (induction xs)
  case Nil
  then show ?case by simp
next
  case (Cons x xs)
  then show ?case
    by (cases xs) (simp_all add: newline_def read_lines_line)
qed

text \<open>C33. A flagfile reads back line by line as the flags it was rendered from, provided no
  value holds a line break; the condition is on the user's verbatim texts (extra flags, CORS
  origins, sslmode, timeouts), which the operator does not check. The flags before the extra
  ones start with the single \<open>--listen\<close> and set every known flag at most once.\<close>

theorem flagfile_roundtrip:
  assumes "\<forall>l \<in> set (flagfile_lines db). CHR 0x0A \<notin> set l"
  shows "read_lines (Flagfile db) = flagfile_lines db \<and>
    (\<exists>generated. read_lines (Flagfile db) = generated @ cf_extra_flags (sp_config (db_spec db)) \<and>
      hd generated = ''--listen='' @ ListenValue db \<and> distinct (map flag_name generated) \<and>
      set (map flag_name generated) \<subseteq> set known_flags)"
proof -
  have "read_lines (Flagfile db) = flagfile_lines db"
    unfolding Flagfile_def
    by (rule read_lines_join [OF _ assms]) (simp add: flagfile_lines_eq flag_groups_def Let_def)
  with flagfile_flags_once [of db] show ?thesis by simp
qed

section \<open>A sample server\<close>

definition sample_spec :: serenedb_spec where
  "sample_spec = \<lparr>
     sp_bootstrap = None,
     sp_image = \<lparr>im_repository = [], im_tag = ''26.09.2'', im_pull_policy = []\<rparr>,
     sp_image_pull_secrets = [],
     sp_auth = \<lparr>au_existing_secret = [], au_password_key = []\<rparr>,
     sp_listeners = \<lparr>ls_postgres = \<lparr>pl_port = 7890, pl_sslmode = ''require''\<rparr>,
       ls_http = \<lparr>hl_enabled = True, hl_port = 0, hl_cors_origins = ''*''\<rparr>\<rparr>,
     sp_tls = \<lparr>tls_enabled = True, tls_secret_name = ''mydb-tls'', tls_min_version = []\<rparr>,
     sp_config = \<lparr>cf_log_level = [], cf_max_connections = 0, cf_cpu_threads = 2, cf_io_threads = 0,
       cf_background_threads = 0, cf_auth_timeout = [], cf_idle_session_timeout = [],
       cf_pg_max_message_bytes = 0, cf_hba = ''host all'', cf_extra_flags = [''--x=1'']\<rparr>,
     sp_persistence = \<lparr>pe_size = None, pe_storage_class_name = None, pe_access_modes = [],
       pe_existing_claim = [], pe_retention_policy = \<lparr>rp_when_deleted = ''Retain'', rp_when_scaled = []\<rparr>\<rparr>,
     sp_resources = Opaque [],
     sp_termination_grace_period_seconds = None,
     sp_service = \<lparr>sc_type = [], sc_node_port = 0, sc_annotations = []\<rparr>,
     sp_network_policy = \<lparr>nc_enabled = False\<rparr>,
     sp_env = [], sp_pod_annotations = [], sp_pod_labels = [], sp_node_selector = [],
     sp_tolerations = [], sp_affinity = None, sp_priority_class_name = []\<rparr>"

definition sample_db :: serenedb where
  "sample_db = \<lparr>db_meta = empty_meta\<lparr>om_name := ''mydb'', om_namespace := ''prod''\<rparr>,
     db_spec = sample_spec,
     db_status = \<lparr>st_observed_generation = 0, st_conditions = [], st_ready_replicas = 0, st_version = [],
       st_secret_name = [], st_host = [], st_port = 0\<rparr>\<rparr>"

lemma sample_numbers:
  "fmt_d (7890 :: int32) = ''7890''" "fmt_d (9200 :: int32) = ''9200''" "fmt_d (2 :: int32) = ''2''"
  by (simp_all add: fmt_d_def show_int_def show_nat.simps digit_table)

lemma sample_lines: "flagfile_lines sample_db =
   [''--listen=postgres://0.0.0.0:7890?sslmode=require,https://0.0.0.0:9200?api=es'',
    ''--log_storage=stdout'', ''--log_level=info'', ''--cpu_threads=2'', ''--auth_timeout=30s'',
    ''--idle_session_timeout=75s'', ''--http_cors_origins=*'', ''--tls_cert=/etc/serenedb-tls/tls.crt'',
    ''--tls_key=/etc/serenedb-tls/tls.key'', ''--tls_min_version=1.2'',
    ''--hba_config=/etc/serenedb/pg_hba.conf'', ''--x=1'']"
  by (simp add: flagfile_lines_eq flag_groups_def Let_def sample_db_def sample_spec_def ListenValue_def
      PostgresPort_def HTTPPort_def DefaultHTTPPort_def logLevel_def orDefault_def sample_numbers
      tlsMountPath_def configMountPath_def hbaKey_def)

theorem flagfile_roundtrip_witness:
  "read_lines (Flagfile sample_db) = flagfile_lines sample_db \<and> length (read_lines (Flagfile sample_db)) > 9"
proof -
  have "\<forall>l \<in> set (flagfile_lines sample_db). CHR 0x0A \<notin> set l" by (simp add: sample_lines)
  with flagfile_roundtrip [OF this] show ?thesis by (simp add: sample_lines)
qed

definition other_db :: serenedb where
  "other_db = sample_db\<lparr>db_spec := sample_spec\<lparr>sp_config := (sp_config sample_spec)\<lparr>cf_hba := ''host none''\<rparr>\<rparr>\<rparr>"

lemma sample_nul_free:
  "data_nul_free (cm_data (ConfigMap sample_db))" "data_nul_free (cm_data (ConfigMap other_db))"
proof -
  have lines: "flagfile_lines other_db = flagfile_lines sample_db"
    by (simp add: flagfile_lines_eq flag_groups_def Let_def other_db_def sample_db_def sample_spec_def
        ListenValue_def PostgresPort_def HTTPPort_def logLevel_def)
  have "nul_free (Flagfile sample_db)" "nul_free (Flagfile other_db)"
    by (simp_all add: Flagfile_def lines sample_lines newline_def nul_free_def)
  then show "data_nul_free (cm_data (ConfigMap sample_db))" "data_nul_free (cm_data (ConfigMap other_db))"
    by (simp_all add: data_nul_free_def ConfigMap_def Let_def flagfileKey_def hbaKey_def sample_db_def
        sample_spec_def other_db_def nul_free_def)
qed

definition wide_lib :: lib where
  "wide_lib = plain_lib\<lparr>sha256_sum := id\<rparr>"

theorem config_digest_complete_witness:
  "data_nul_free (cm_data (ConfigMap sample_db)) \<and> data_nul_free (cm_data (ConfigMap other_db)) \<and>
    no_collision wide_lib (digest_input (cm_data (ConfigMap sample_db))) (digest_input (cm_data (ConfigMap other_db))) \<and>
    ConfigHash wide_lib (ConfigMap sample_db) \<noteq> ConfigHash wide_lib (ConfigMap other_db)"
proof -
  have "cf_hba (sp_config (db_spec sample_db)) \<noteq> cf_hba (sp_config (db_spec other_db))"
    by (simp add: sample_db_def other_db_def sample_spec_def)
  moreover have collision: "no_collision wide_lib (digest_input (cm_data (ConfigMap sample_db)))
      (digest_input (cm_data (ConfigMap other_db)))"
    by (simp add: no_collision_def wide_lib_def)
  ultimately show ?thesis
    using config_digest_complete [OF sample_nul_free collision] sample_nul_free by blast
qed

end
