(* ===== verification/Effects.thy ===== *)
theory Effects
  imports Library "HOL-Library.State_Monad"
begin

text \<open>
  The outside world. A reconciler talks to the Kubernetes API (\<open>client.Client\<close>), to the
  SQL server through a connector, and to the Go runtime (clock, random source, map
  iteration order). All three are parameters: records of functions over an arbitrary
  environment state, each answering as it likes and changing the environment as it likes,
  so other writers of the cluster are included. The model adds a log of the calls made and
  the answers received; properties speak about that log.
\<close>

section \<open>The interfaces\<close>

text \<open>\<open>sqlexec.Target\<close>, \<open>sqlexec.Session\<close> and \<open>sqlexec.Connector\<close> (internal/sqlexec/session.go).\<close>

record target =
  tg_host :: string
  tg_port :: int32
  tg_user :: string
  tg_password :: string
  tg_tls :: bool

type_synonym rows = "string list list"

record 'e session =
  s_exec :: "string \<Rightarrow> 'e \<Rightarrow> go_error option \<times> 'e"
  s_query :: "string \<Rightarrow> 'e \<Rightarrow> (go_error + rows) \<times> 'e"
  s_close :: "'e \<Rightarrow> go_error option \<times> 'e"

type_synonym 'e connector = "target \<Rightarrow> 'e \<Rightarrow> (go_error + 'e session) \<times> 'e"

text \<open>
  \<open>client.Client\<close>, one function per verb and kind the operator uses it with; the
  \<open>apply\<close> functions are \<open>controllerutil.CreateOrUpdate\<close>, whose last argument is the
  mutate callback, run on the object as found (or the bare name and namespace).
\<close>

record 'e client =
  k_get_serenedb :: "string \<Rightarrow> string \<Rightarrow> 'e \<Rightarrow> (go_error + serenedb) \<times> 'e"
  k_get_database :: "string \<Rightarrow> string \<Rightarrow> 'e \<Rightarrow> (go_error + database) \<times> 'e"
  k_get_role :: "string \<Rightarrow> string \<Rightarrow> 'e \<Rightarrow> (go_error + database_role) \<times> 'e"
  k_get_server_secret :: "string \<Rightarrow> string \<Rightarrow> 'e \<Rightarrow> (go_error + server_secret) \<times> 'e"
  k_get_backup :: "string \<Rightarrow> string \<Rightarrow> 'e \<Rightarrow> (go_error + backup) \<times> 'e"
  k_get_scheduled_backup :: "string \<Rightarrow> string \<Rightarrow> 'e \<Rightarrow> (go_error + scheduled_backup) \<times> 'e"
  k_get_secret :: "string \<Rightarrow> string \<Rightarrow> 'e \<Rightarrow> (go_error + secret) \<times> 'e"
  k_get_network_policy :: "string \<Rightarrow> string \<Rightarrow> 'e \<Rightarrow> (go_error + network_policy) \<times> 'e"
  k_get_snapshot :: "string \<Rightarrow> string \<Rightarrow> 'e \<Rightarrow> (go_error + unstructured) \<times> 'e"
  k_list_backups :: "string \<Rightarrow> string \<Rightarrow> string \<Rightarrow> 'e \<Rightarrow> (go_error + backup list) \<times> 'e"
  k_create_secret :: "secret \<Rightarrow> 'e \<Rightarrow> go_error option \<times> 'e"
  k_create_snapshot :: "unstructured \<Rightarrow> 'e \<Rightarrow> go_error option \<times> 'e"
  k_create_backup :: "backup \<Rightarrow> 'e \<Rightarrow> go_error option \<times> 'e"
  k_update_database :: "database \<Rightarrow> 'e \<Rightarrow> go_error option \<times> 'e"
  k_update_role :: "database_role \<Rightarrow> 'e \<Rightarrow> go_error option \<times> 'e"
  k_update_server_secret :: "server_secret \<Rightarrow> 'e \<Rightarrow> go_error option \<times> 'e"
  k_patch_secret :: "secret \<Rightarrow> secret \<Rightarrow> 'e \<Rightarrow> go_error option \<times> 'e"
  k_patch_serenedb_status :: "serenedb \<Rightarrow> serenedb \<Rightarrow> 'e \<Rightarrow> go_error option \<times> 'e"
  k_patch_database_status :: "database \<Rightarrow> database \<Rightarrow> 'e \<Rightarrow> go_error option \<times> 'e"
  k_patch_role_status :: "database_role \<Rightarrow> database_role \<Rightarrow> 'e \<Rightarrow> go_error option \<times> 'e"
  k_patch_server_secret_status :: "server_secret \<Rightarrow> server_secret \<Rightarrow> 'e \<Rightarrow> go_error option \<times> 'e"
  k_patch_backup_status :: "backup \<Rightarrow> backup \<Rightarrow> 'e \<Rightarrow> go_error option \<times> 'e"
  k_patch_scheduled_backup_status ::
    "scheduled_backup \<Rightarrow> scheduled_backup \<Rightarrow> 'e \<Rightarrow> go_error option \<times> 'e"
  k_delete_network_policy :: "network_policy \<Rightarrow> 'e \<Rightarrow> go_error option \<times> 'e"
  k_delete_backup :: "backup \<Rightarrow> 'e \<Rightarrow> go_error option \<times> 'e"
  k_apply_config_map :: "config_map \<Rightarrow> (config_map \<Rightarrow> go_error + config_map) \<Rightarrow> 'e \<Rightarrow>
    (go_error + config_map) \<times> 'e"
  k_apply_service :: "service \<Rightarrow> (service \<Rightarrow> go_error + service) \<Rightarrow> 'e \<Rightarrow> (go_error + service) \<times> 'e"
  k_apply_stateful_set :: "stateful_set \<Rightarrow> (stateful_set \<Rightarrow> go_error + stateful_set) \<Rightarrow> 'e \<Rightarrow>
    (go_error + stateful_set) \<times> 'e"
  k_apply_network_policy :: "network_policy \<Rightarrow> (network_policy \<Rightarrow> go_error + network_policy) \<Rightarrow>
    'e \<Rightarrow> (go_error + network_policy) \<times> 'e"

text \<open>
  The Go runtime: the clock, \<open>rand.Int(rand.Reader, max)\<close>, and the choices that order one
  \<open>range\<close> loop over a map.
\<close>

record 'e runtime =
  rt_now :: "'e \<Rightarrow> time \<times> 'e"
  rt_rand_int :: "nat \<Rightarrow> 'e \<Rightarrow> (go_error + nat) \<times> 'e"
  rt_range_choices :: "'e \<Rightarrow> nat list \<times> 'e"

text \<open>\<open>rand.Int\<close> answers a number below its bound, or an error of the random source.\<close>

definition rand_law :: "'e runtime \<Rightarrow> bool" where
  "rand_law rt \<longleftrightarrow> (\<forall>bound e n. fst (rt_rand_int rt bound e) = Inr n \<longrightarrow> n < bound)"

section \<open>The log\<close>

text \<open>The operator's own objects other than \<open>SereneDB\<close>, as the log shows them.\<close>

datatype api_object =
    DatabaseObject database
  | RoleObject database_role
  | ServerSecretObject server_secret
  | BackupObject backup
  | ScheduleObject scheduled_backup

fun object_meta_of :: "api_object \<Rightarrow> object_meta" where
  "object_meta_of (DatabaseObject da) = da_meta da"
| "object_meta_of (RoleObject dr) = dr_meta dr"
| "object_meta_of (ServerSecretObject se) = se_meta se"
| "object_meta_of (BackupObject bk) = bk_meta bk"
| "object_meta_of (ScheduleObject sd) = sd_meta sd"

text \<open>
  A patch is logged with the object it is computed against and the object it makes.
\<close>

datatype event =
    GotSereneDB string string "go_error + serenedb"
  | GotObject string string "go_error + api_object"
  | GotSecret string string "go_error + secret"
  | GotNetworkPolicy string string "go_error + network_policy"
  | GotSnapshot string string "go_error + unstructured"
  | ListedBackups string string string "go_error + backup list"
  | CreatedSecret secret "go_error option"
  | CreatedSnapshot unstructured "go_error option"
  | CreatedBackup backup "go_error option"
  | UpdatedObject api_object "go_error option"
  | PatchedSecret secret secret "go_error option"
  | PatchedSereneDBStatus serenedb serenedb "go_error option"
  | PatchedStatus api_object api_object "go_error option"
  | DeletedNetworkPolicy network_policy "go_error option"
  | DeletedBackup backup "go_error option"
  | AppliedConfigMap config_map "go_error option"
  | AppliedService service "go_error option"
  | AppliedStatefulSet stateful_set "go_error + stateful_set"
  | AppliedNetworkPolicy network_policy "go_error option"
  | Connected target "go_error option"
  | Executed string "go_error option"
  | Queried string "go_error + rows"
  | Closed
  | ReadClock time
  | Drew nat "go_error + nat"
  | Ranged

definition err_of :: "'e + 'a \<Rightarrow> 'e option" where
  "err_of r = (case r of Inl e \<Rightarrow> Some e | Inr _ \<Rightarrow> None)"

lemma err_of_simps [simp]: "err_of (Inl e) = Some e" "err_of (Inr x) = None"
  by (simp_all add: err_of_def)

record ('e, 'v) world =
  w_env :: 'e
  w_log :: "'v list"

type_synonym ('e, 'v, 'a) logged = "(('e, 'v) world, 'a) state"

type_synonym ('e, 'a) eff = "('e, event, 'a) logged"

text \<open>One call: the environment answers, the call and its answer are appended to the log.\<close>

definition call :: "('e \<Rightarrow> 'a \<times> 'e) \<Rightarrow> ('a \<Rightarrow> 'v) \<Rightarrow> ('e, 'v, 'a) logged" where
  "call f ev = State (\<lambda>w. case f (w_env w) of (a, e) \<Rightarrow>
     (a, \<lparr>w_env = e, w_log = w_log w @ [ev a]\<rparr>))"

abbreviation ret :: "'a \<Rightarrow> ('e, 'v, 'a) logged" where
  "ret \<equiv> State_Monad.return"

definition result_of :: "('e, 'v, 'a) logged \<Rightarrow> 'e \<Rightarrow> 'a" where
  "result_of m e = fst (run_state m \<lparr>w_env = e, w_log = []\<rparr>)"

definition trace_of :: "('e, 'v, 'a) logged \<Rightarrow> 'e \<Rightarrow> 'v list" where
  "trace_of m e = w_log (snd (run_state m \<lparr>w_env = e, w_log = []\<rparr>))"

definition env_of :: "('e, 'v, 'a) logged \<Rightarrow> 'e \<Rightarrow> 'e" where
  "env_of m e = w_env (snd (run_state m \<lparr>w_env = e, w_log = []\<rparr>))"

section \<open>A calculus of traces\<close>

text \<open>
  \<open>emits m Q\<close>: whatever the environment answers, the run of \<open>m\<close> appends to the log a
  list of events that satisfies \<open>Q\<close> together with the result.
\<close>

definition emits :: "('e, 'v, 'a) logged \<Rightarrow> ('a \<Rightarrow> 'v list \<Rightarrow> bool) \<Rightarrow> bool" where
  "emits m Q \<longleftrightarrow> (\<forall>w. case run_state m w of (a, w') \<Rightarrow> \<exists>es. w_log w' = w_log w @ es \<and> Q a es)"

named_theorems emits_intro \<open>introduction rules of the trace calculus\<close>

lemma emits_ret [emits_intro]: "Q x [] \<Longrightarrow> emits (ret x) Q"
  by (simp add: emits_def)

lemma emits_call [emits_intro]: "(\<And>a. Q a [ev a]) \<Longrightarrow> emits (call f ev) Q"
  by (simp add: emits_def call_def split: prod.splits)

text \<open>A call whose answers obey a law of the environment.\<close>

lemma emits_call_law:
  assumes "\<And>e. P (fst (f e))" and "\<And>a. P a \<Longrightarrow> Q a [ev a]"
  shows "emits (call f ev) Q"
  unfolding emits_def call_def
  using assms by (auto split: prod.splits) (metis fst_conv)

lemma emits_bind [emits_intro]:
  assumes "emits m (\<lambda>a es. emits (f a) (\<lambda>b fs. Q b (es @ fs)))"
  shows "emits (m \<bind> f) Q"
  unfolding emits_def
proof
  fix w
  obtain a w1 where m: "run_state m w = (a, w1)" by (cases "run_state m w")
  with assms obtain es where es: "w_log w1 = w_log w @ es"
    and f: "emits (f a) (\<lambda>b fs. Q b (es @ fs))"
    unfolding emits_def by (auto dest: spec [where x = w])
  obtain b w2 where fa: "run_state (f a) w1 = (b, w2)" by (cases "run_state (f a) w1")
  with f obtain fs where "w_log w2 = w_log w1 @ fs" "Q b (es @ fs)"
    unfolding emits_def by (auto dest: spec [where x = w1])
  with m fa es show "case run_state (m \<bind> f) w of (a, w') \<Rightarrow> \<exists>es. w_log w' = w_log w @ es \<and> Q a es"
    by (intro exI [where x = "es @ fs"] | simp)+
qed

lemma emits_weaken: "emits m R \<Longrightarrow> (\<And>a es. R a es \<Longrightarrow> Q a es) \<Longrightarrow> emits m Q"
  unfolding emits_def by (fastforce split: prod.splits)

lemma emits_conj: "emits m (\<lambda>a es. Q a es \<and> R a es) \<longleftrightarrow> emits m Q \<and> emits m R"
  unfolding emits_def by (fastforce split: prod.splits)

text \<open>Case splits of the handlers.\<close>

lemma emits_if [emits_intro]:
  "(b \<Longrightarrow> emits m Q) \<Longrightarrow> (\<not> b \<Longrightarrow> emits n Q) \<Longrightarrow> emits (if b then m else n) Q"
  by simp

lemma emits_sum [emits_intro]:
  "(\<And>e. r = Inl e \<Longrightarrow> emits (m e) Q) \<Longrightarrow> (\<And>x. r = Inr x \<Longrightarrow> emits (n x) Q) \<Longrightarrow>
    emits (case r of Inl e \<Rightarrow> m e | Inr x \<Rightarrow> n x) Q"
  by (cases r) auto

lemma emits_option [emits_intro]:
  "(r = None \<Longrightarrow> emits m Q) \<Longrightarrow> (\<And>x. r = Some x \<Longrightarrow> emits (n x) Q) \<Longrightarrow>
    emits (case r of None \<Rightarrow> m | Some x \<Rightarrow> n x) Q"
  by (cases r) auto

lemma emits_prod [emits_intro]:
  "(\<And>x y. p = (x, y) \<Longrightarrow> emits (m x y) Q) \<Longrightarrow> emits (case p of (x, y) \<Rightarrow> m x y) Q"
  by (cases p) auto

lemma emits_go [emits_intro]:
  "(\<And>s. r = Panic s \<Longrightarrow> emits (m s) Q) \<Longrightarrow> (\<And>x. r = Done x \<Longrightarrow> emits (n x) Q) \<Longrightarrow>
    emits (case r of Panic s \<Rightarrow> m s | Done x \<Rightarrow> n x) Q"
  by (cases r) auto

lemma emits_Let [emits_intro]: "emits (f x) Q \<Longrightarrow> emits (Let x f) Q"
  by simp

text \<open>From the calculus to runs.\<close>

lemma emitsD: "emits m Q \<Longrightarrow> Q (result_of m e) (trace_of m e)"
  unfolding emits_def result_of_def trace_of_def
  by (drule spec [where x = "\<lparr>w_env = e, w_log = []\<rparr>"]) (auto split: prod.splits)

lemma emitsI_run:
  assumes "\<And>w. \<exists>es. w_log (snd (run_state m w)) = w_log w @ es \<and> Q (fst (run_state m w)) es"
  shows "emits m Q"
  unfolding emits_def using assms by (auto simp: case_prod_beta)

section \<open>Monitors\<close>

text \<open>
  A rule about the order of calls is stated as a monitor: a step function that reads the log
  and fails (\<open>None\<close>) at the first event the rule forbids. \<open>wp step m Q s\<close>: started in monitor
  state \<open>s\<close>, every run of \<open>m\<close> keeps the rule and ends in a result and state that satisfy \<open>Q\<close>.
\<close>

primrec watch :: "('s \<Rightarrow> 'v \<Rightarrow> 's option) \<Rightarrow> 's \<Rightarrow> 'v list \<Rightarrow> 's option" where
  "watch step s [] = Some s"
| "watch step s (e # es) = (case step s e of None \<Rightarrow> None | Some s' \<Rightarrow> watch step s' es)"

lemma watch_append:
  "watch step s (es @ fs) = (case watch step s es of None \<Rightarrow> None | Some s' \<Rightarrow> watch step s' fs)"
  by (induction es arbitrary: s) (auto split: option.splits)

lemma watch_event: "watch step s es = Some s' \<Longrightarrow> ev \<in> set es \<Longrightarrow> \<exists>w w'. step w ev = Some w'"
  by (induction es arbitrary: s) (auto split: option.splits)

definition wp :: "('s \<Rightarrow> 'v \<Rightarrow> 's option) \<Rightarrow> ('e, 'v, 'a) logged \<Rightarrow> ('a \<Rightarrow> 's \<Rightarrow> bool) \<Rightarrow> 's \<Rightarrow> bool" where
  "wp step m Q s \<longleftrightarrow> emits m (\<lambda>a es. \<exists>s'. watch step s es = Some s' \<and> Q a s')"

named_theorems wp_intro \<open>introduction rules of the monitor calculus\<close>

lemma wp_ret [wp_intro]: "Q x s \<Longrightarrow> wp step (ret x) Q s"
  by (simp add: wp_def emits_ret)

lemma wp_call [wp_intro]:
  assumes "\<And>a. case step s (ev a) of None \<Rightarrow> False | Some s' \<Rightarrow> Q a s'"
  shows "wp step (call f ev) Q s"
  unfolding wp_def
proof (rule emits_call)
  show "\<exists>s'. watch step s [ev a] = Some s' \<and> Q a s'" for a
    using assms [of a] by (simp split: option.splits)
qed

lemma wp_weaken: "wp step m R s \<Longrightarrow> (\<And>a s'. R a s' \<Longrightarrow> Q a s') \<Longrightarrow> wp step m Q s"
  unfolding wp_def by (erule emits_weaken) blast

lemma wp_conj:
  assumes "wp step m Q s" "wp step m R s"
  shows "wp step m (\<lambda>a s'. Q a s' \<and> R a s') s"
  unfolding wp_def
proof (rule emits_weaken)
  show "emits m (\<lambda>a es. (\<exists>s'. watch step s es = Some s' \<and> Q a s') \<and>
      (\<exists>s'. watch step s es = Some s' \<and> R a s'))"
    using assms unfolding wp_def by (simp add: emits_conj)
qed auto

lemma emits_wp_conj:
  assumes "emits m (\<lambda>r _. P r)" and "wp step m Q s"
  shows "wp step m (\<lambda>r s'. P r \<and> Q r s') s"
  using assms unfolding wp_def by (auto simp: emits_conj intro: emits_weaken [OF iffD2 [OF emits_conj]])

lemma wp_bind [wp_intro]:
  assumes "wp step m (\<lambda>a s'. wp step (f a) Q s') s"
  shows "wp step (m \<bind> f) Q s"
  unfolding wp_def
proof (rule emits_bind, rule emits_weaken [OF assms [unfolded wp_def]])
  fix a es
  assume "\<exists>s'. watch step s es = Some s' \<and> emits (f a) (\<lambda>a es. \<exists>s''. watch step s' es = Some s'' \<and> Q a s'')"
  then obtain s' where s': "watch step s es = Some s'"
    and "emits (f a) (\<lambda>a es. \<exists>s''. watch step s' es = Some s'' \<and> Q a s'')" by blast
  from this(2) show "emits (f a) (\<lambda>b fs. \<exists>s''. watch step s (es @ fs) = Some s'' \<and> Q b s'')"
    by (rule emits_weaken) (simp add: watch_append s')
qed

lemma wp_then:
  "wp step m R s \<Longrightarrow> (\<And>a s'. R a s' \<Longrightarrow> wp step (f a) Q s') \<Longrightarrow> wp step (m \<bind> f) Q s"
  by (rule wp_bind) (rule wp_weaken)

lemma wp_if [wp_intro]:
  "(b \<Longrightarrow> wp step m Q s) \<Longrightarrow> (\<not> b \<Longrightarrow> wp step n Q s) \<Longrightarrow> wp step (if b then m else n) Q s"
  by simp

lemma wp_sum [wp_intro]:
  "(\<And>e. r = Inl e \<Longrightarrow> wp step (m e) Q s) \<Longrightarrow> (\<And>x. r = Inr x \<Longrightarrow> wp step (n x) Q s) \<Longrightarrow>
    wp step (case r of Inl e \<Rightarrow> m e | Inr x \<Rightarrow> n x) Q s"
  by (cases r) auto

lemma wp_option [wp_intro]:
  "(r = None \<Longrightarrow> wp step m Q s) \<Longrightarrow> (\<And>x. r = Some x \<Longrightarrow> wp step (n x) Q s) \<Longrightarrow>
    wp step (case r of None \<Rightarrow> m | Some x \<Rightarrow> n x) Q s"
  by (cases r) auto

lemma wp_prod [wp_intro]:
  "(\<And>x y. p = (x, y) \<Longrightarrow> wp step (m x y) Q s) \<Longrightarrow> wp step (case p of (x, y) \<Rightarrow> m x y) Q s"
  by (cases p) auto

lemma wp_go [wp_intro]:
  "(\<And>t. r = Panic t \<Longrightarrow> wp step (m t) Q s) \<Longrightarrow> (\<And>x. r = Done x \<Longrightarrow> wp step (n x) Q s) \<Longrightarrow>
    wp step (case r of Panic t \<Rightarrow> m t | Done x \<Rightarrow> n x) Q s"
  by (cases r) auto

lemma wp_Let [wp_intro]: "wp step (f x) Q s \<Longrightarrow> wp step (Let x f) Q s"
  by simp

text \<open>A log complies with a monitor when it is read to its end.\<close>

definition complies :: "('s \<Rightarrow> 'v \<Rightarrow> 's option) \<Rightarrow> 's \<Rightarrow> 'v list \<Rightarrow> bool" where
  "complies step s es \<longleftrightarrow> watch step s es \<noteq> None"

lemma wpD: "wp step m Q s \<Longrightarrow>
    \<exists>s'. watch step s (trace_of m e) = Some s' \<and> Q (result_of m e) s'"
  unfolding wp_def by (rule emitsD)

lemma wp_complies: "wp step m Q s \<Longrightarrow> complies step s (trace_of m e)"
  unfolding complies_def using wpD by fastforce

section \<open>Logged calls\<close>

definition exec :: "'e session \<Rightarrow> string \<Rightarrow> ('e, go_error option) eff" where
  "exec s stmt = call (s_exec s stmt) (Executed stmt)"

definition query :: "'e session \<Rightarrow> string \<Rightarrow> ('e, go_error + rows) eff" where
  "query s q = call (s_query s q) (Queried q)"

definition close :: "'e session \<Rightarrow> ('e, go_error option) eff" where
  "close s = call (s_close s) (\<lambda>_. Closed)"

definition connect :: "'e connector \<Rightarrow> target \<Rightarrow> ('e, go_error + 'e session) eff" where
  "connect c t = call (c t) (\<lambda>r. Connected t (err_of r))"

definition get_serenedb :: "'e client \<Rightarrow> string \<Rightarrow> string \<Rightarrow> ('e, go_error + serenedb) eff" where
  "get_serenedb c ns n = call (k_get_serenedb c ns n) (GotSereneDB ns n)"

definition get_secret :: "'e client \<Rightarrow> string \<Rightarrow> string \<Rightarrow> ('e, go_error + secret) eff" where
  "get_secret c ns n = call (k_get_secret c ns n) (GotSecret ns n)"

definition rand_int :: "'e runtime \<Rightarrow> nat \<Rightarrow> ('e, go_error + nat) eff" where
  "rand_int rt bound = call (rt_rand_int rt bound) (Drew bound)"

text \<open>\<open>client.Get\<close> of one of the other kinds, by the client's function and the constructor.\<close>

definition get_object :: "(string \<Rightarrow> string \<Rightarrow> 'e \<Rightarrow> (go_error + 'o) \<times> 'e) \<Rightarrow> ('o \<Rightarrow> api_object) \<Rightarrow>
    string \<Rightarrow> string \<Rightarrow> ('e, go_error + 'o) eff" where
  "get_object get obj ns n = call (get ns n) (\<lambda>r. GotObject ns n (map_sum id obj r))"

definition patch_status :: "('o \<Rightarrow> 'o \<Rightarrow> 'e \<Rightarrow> go_error option \<times> 'e) \<Rightarrow> ('o \<Rightarrow> api_object) \<Rightarrow>
    'o \<Rightarrow> 'o \<Rightarrow> ('e, go_error option) eff" where
  "patch_status patch obj original changed =
     call (patch original changed) (PatchedStatus (obj original) (obj changed))"

definition now :: "'e runtime \<Rightarrow> ('e, time) eff" where
  "now rt = call (rt_now rt) ReadClock"

lemmas call_defs =
  exec_def query_def close_def connect_def get_serenedb_def get_secret_def get_object_def
  patch_status_def now_def

lemma emits_exec [emits_intro]: "(\<And>r. Q r [Executed stmt r]) \<Longrightarrow> emits (exec s stmt) Q"
  unfolding exec_def by (rule emits_call)

lemma emits_query [emits_intro]: "(\<And>r. Q r [Queried q r]) \<Longrightarrow> emits (query s q) Q"
  unfolding query_def by (rule emits_call)

lemma emits_close [emits_intro]: "(\<And>r. Q r [Closed]) \<Longrightarrow> emits (close s) Q"
  unfolding close_def by (rule emits_call)

lemma emits_connect [emits_intro]: "(\<And>r. Q r [Connected t (err_of r)]) \<Longrightarrow> emits (connect c t) Q"
  unfolding connect_def by (rule emits_call)

lemma emits_get_serenedb [emits_intro]:
  "(\<And>r. Q r [GotSereneDB ns n r]) \<Longrightarrow> emits (get_serenedb c ns n) Q"
  unfolding get_serenedb_def by (rule emits_call)

lemma emits_get_secret [emits_intro]:
  "(\<And>r. Q r [GotSecret ns n r]) \<Longrightarrow> emits (get_secret c ns n) Q"
  unfolding get_secret_def by (rule emits_call)

lemma emits_rand_int:
  assumes "rand_law rt" and "\<And>e. Q (Inl e) [Drew bound (Inl e)]"
    and "\<And>n. n < bound \<Longrightarrow> Q (Inr n) [Drew bound (Inr n)]"
  shows "emits (rand_int rt bound) Q"
  unfolding rand_int_def
proof (rule emits_call_law [where P = "\<lambda>r. \<forall>n. r = Inr n \<longrightarrow> n < bound"])
  show "\<forall>n. fst (rt_rand_int rt bound e) = Inr n \<longrightarrow> n < bound" for e
    using assms(1) by (simp add: rand_law_def)
  show "Q r [Drew bound r]" if "\<forall>n. r = Inr n \<longrightarrow> n < bound" for r
    using that assms(2,3) by (cases r) auto
qed

lemma emits_now [emits_intro]: "(\<And>t. Q t [ReadClock t]) \<Longrightarrow> emits (now rt) Q"
  unfolding now_def by (rule emits_call)

section \<open>Map iteration order\<close>

text \<open>
  A \<open>range\<close> loop over a map visits every entry once, in an order the language leaves open:
  each choice picks one of the entries not yet visited.
\<close>

fun permute :: "nat list \<Rightarrow> 'a list \<Rightarrow> 'a list" where
  "permute [] xs = xs"
| "permute (n # ns) [] = []"
| "permute (n # ns) (x # xs) =
     (let ys = x # xs; i = n mod length ys in ys ! i # permute ns (take i ys @ drop (Suc i) ys))"

lemma mset_permute: "mset (permute ns xs) = mset xs"
proof (induction ns xs rule: permute.induct)
  case (3 n ns x xs)
  define ys where "ys = x # xs"
  define i where "i = n mod length ys"
  have i: "i < length ys" by (simp add: i_def ys_def)
  have "mset ys = mset (take i ys @ ys ! i # drop (Suc i) ys)"
    by (rule arg_cong [OF id_take_nth_drop [OF i], of mset])
  moreover have "permute (n # ns) (x # xs) = ys ! i # permute ns (take i ys @ drop (Suc i) ys)"
    by (simp add: ys_def i_def Let_def)
  ultimately show ?case
    using 3 [OF ys_def i_def] by (simp add: ys_def [symmetric])
qed simp_all

text \<open>Every order is possible: the choices range over all permutations.\<close>

lemma permute_complete: "mset ys = mset xs \<Longrightarrow> \<exists>ns. permute ns xs = ys"
proof (induction ys arbitrary: xs)
  case Nil
  then have "permute [] xs = []" by simp
  then show ?case by blast
next
  case (Cons y ys)
  then have "y \<in> set xs" by (metis list.set_intros(1) set_mset_mset)
  then obtain i where i: "i < length xs" "xs ! i = y" by (auto simp: in_set_conv_nth)
  define zs where "zs = take i xs @ drop (Suc i) xs"
  have "mset xs = add_mset y (mset zs)"
    using arg_cong [OF id_take_nth_drop [OF i(1)], of mset] i(2) by (simp add: zs_def)
  then have "mset ys = mset zs" using Cons.prems by simp
  then obtain ns where ns: "permute ns zs = ys" using Cons.IH by blast
  obtain x xs' where xs: "xs = x # xs'" using i by (cases xs) auto
  have "permute (i # ns) xs = y # ys"
    using i ns unfolding xs zs_def by (simp add: Let_def)
  then show ?case by blast
qed

lemma set_permute [simp]: "set (permute ns xs) = set xs"
  by (metis mset_permute set_mset_mset)

lemma distinct_permute [simp]: "distinct (permute ns xs) \<longleftrightarrow> distinct xs"
  by (metis mset_permute mset_eq_imp_distinct_iff)

definition range_over :: "'e runtime \<Rightarrow> 'a list \<Rightarrow> ('e, 'a list) eff" where
  "range_over rt xs = call (rt_range_choices rt) (\<lambda>_. Ranged) \<bind> (\<lambda>ns. ret (permute ns xs))"

lemma emits_range_over [emits_intro]:
  "(\<And>ys. mset ys = mset xs \<Longrightarrow> Q ys [Ranged]) \<Longrightarrow> emits (range_over rt xs) Q"
  unfolding range_over_def by (intro emits_intro) (simp add: mset_permute)

section \<open>Results of a reconcile\<close>

text \<open>\<open>ctrl.Result\<close> and durations in nanoseconds.\<close>

record ctrl_result =
  requeue_after :: int64

definition no_requeue :: ctrl_result where
  "no_requeue = \<lparr>requeue_after = 0\<rparr>"

definition Second :: int64 where "Second = 1000000000"
definition missingDependencyRequeue :: int64 where "missingDependencyRequeue = 30 * Second"
definition resyncInterval :: int64 where "resyncInterval = 10 * 60 * Second"
definition snapshotPollInterval :: int64 where "snapshotPollInterval = 15 * Second"

type_synonym reconcile_result = "ctrl_result \<times> go_error option"

end
