(* ===== verification/Workload.thy ===== *)
theory Workload
  imports Config Effects
begin

text \<open>
  The Kubernetes objects built for one SereneDB: internal/resources/statefulset.go,
  service.go, networkpolicy.go, secret.go and snapshot.go. The lemmas show that the parts
  fit together: mounts and volumes, ports of the listener, the container, the services, the
  probe and the policy, labels and selectors.
\<close>

section \<open>Services\<close>

definition ProtocolTCP :: string where "ProtocolTCP = ''TCP''"
definition ClusterIPNone :: string where "ClusterIPNone = ''None''"
definition ServiceTypeClusterIP :: string where "ServiceTypeClusterIP = ''ClusterIP''"
definition ServiceTypeNodePort :: string where "ServiceTypeNodePort = ''NodePort''"

definition ServicePorts :: "serenedb \<Rightarrow> service_port list" where
  "ServicePorts db =
     (let ports = [\<lparr>svp_name = postgresPort, svp_port = PostgresPort db,
            svp_target_port = FromString postgresPort, svp_protocol = ProtocolTCP, svp_node_port = 0\<rparr>]
      in if hl_enabled (ls_http (sp_listeners (db_spec db))) then
           ports @ [\<lparr>svp_name = httpPort, svp_port = HTTPPort db,
             svp_target_port = FromString httpPort, svp_protocol = ProtocolTCP, svp_node_port = 0\<rparr>]
         else ports)"

definition serviceType :: "serenedb \<Rightarrow> string" where
  "serviceType db = (if sc_type (sp_service (db_spec db)) \<noteq> []
     then sc_type (sp_service (db_spec db)) else ServiceTypeClusterIP)"

definition Service :: "serenedb \<Rightarrow> service" where
  "Service db =
     (let svc = \<lparr>svc_meta = empty_meta\<lparr>om_name := Name db, om_namespace := Namespace db,
              om_labels := Labels db, om_annotations := sc_annotations (sp_service (db_spec db))\<rparr>,
            svc_spec = \<lparr>svs_type = serviceType db, svs_ports = ServicePorts db,
              svs_selector = SelectorLabels db, svs_cluster_ip = [],
              svs_publish_not_ready_addresses = False\<rparr>\<rparr>;
          node_port = sc_node_port (sp_service (db_spec db))
      in if svs_type (svc_spec svc) = ServiceTypeNodePort \<and> node_port \<noteq> 0 then
           svc\<lparr>svc_spec := (svc_spec svc)\<lparr>svs_ports :=
             (svs_ports (svc_spec svc))[0 := (svs_ports (svc_spec svc) ! 0)\<lparr>svp_node_port := node_port\<rparr>]\<rparr>\<rparr>
         else svc)"

definition HeadlessService :: "serenedb \<Rightarrow> service" where
  "HeadlessService db = \<lparr>
     svc_meta = empty_meta\<lparr>om_name := HeadlessServiceName db, om_namespace := Namespace db,
       om_labels := Labels db\<rparr>,
     svc_spec = \<lparr>svs_type = [], svs_ports = take 1 (ServicePorts db),
       svs_selector = SelectorLabels db, svs_cluster_ip = ClusterIPNone,
       svs_publish_not_ready_addresses = True\<rparr>\<rparr>"

section \<open>Network policy\<close>

definition network_policy_ports :: "service_port list \<Rightarrow> network_policy_port list" where
  "network_policy_ports ps =
     map (\<lambda>p. \<lparr>npp_protocol = ProtocolTCP, npp_port = FromInt32 (svp_port p)\<rparr>) ps"

definition NetworkPolicy :: "serenedb \<Rightarrow> network_policy" where
  "NetworkPolicy db = \<lparr>
     np_meta = empty_meta\<lparr>om_name := Name db, om_namespace := Namespace db, om_labels := Labels db\<rparr>,
     np_spec = \<lparr>nps_pod_selector = SelectorLabels db, nps_policy_types = [''Ingress''],
       nps_ingress_ports = [network_policy_ports (ServicePorts db)]\<rparr>\<rparr>"

section \<open>The pod\<close>

definition pullPolicy :: "serenedb \<Rightarrow> string" where
  "pullPolicy db = (if im_pull_policy (sp_image (db_spec db)) \<noteq> []
     then im_pull_policy (sp_image (db_spec db)) else ''IfNotPresent'')"

definition terminationGracePeriod :: "serenedb \<Rightarrow> int64" where
  "terminationGracePeriod db = (case sp_termination_grace_period_seconds (db_spec db) of
     Some s \<Rightarrow> s | None \<Rightarrow> DefaultTerminationGracePeriodSeconds)"

definition retentionType :: "string \<Rightarrow> string" where
  "retentionType value = (if value = ''Delete'' then ''Delete'' else ''Retain'')"

definition pgIsReady :: "serenedb \<Rightarrow> string list" where
  "pgIsReady db = [''pg_isready'', ''-h'', ''127.0.0.1'', ''-p'', fmt_d (PostgresPort db),
     ''-U'', ''postgres'']"

definition ContainerPorts :: "serenedb \<Rightarrow> container_port list" where
  "ContainerPorts db =
     (let ports = [\<lparr>cp_name = postgresPort, cp_container_port = PostgresPort db, cp_protocol = ProtocolTCP\<rparr>]
      in if hl_enabled (ls_http (sp_listeners (db_spec db))) then
           ports @ [\<lparr>cp_name = httpPort, cp_container_port = HTTPPort db, cp_protocol = ProtocolTCP\<rparr>]
         else ports)"

definition VolumeMounts :: "serenedb \<Rightarrow> volume_mount list" where
  "VolumeMounts db =
     (let mounts = [\<lparr>vm_name = dataVolume, vm_mount_path = DefaultDataMountPath, vm_read_only = False\<rparr>,
            \<lparr>vm_name = configVolume, vm_mount_path = configMountPath, vm_read_only = True\<rparr>]
      in if tls_enabled (sp_tls (db_spec db)) then
           mounts @ [\<lparr>vm_name = tlsVolume, vm_mount_path = tlsMountPath, vm_read_only = True\<rparr>]
         else mounts)"

definition Volumes :: "serenedb \<Rightarrow> volume list" where
  "Volumes db =
     (let volumes = [\<lparr>vo_name = configVolume, vo_source = ConfigMapSource (Name db)\<rparr>];
          volumes = (if tls_enabled (sp_tls (db_spec db)) then
            volumes @ [\<lparr>vo_name = tlsVolume, vo_source = SecretSource (tls_secret_name (sp_tls (db_spec db)))\<rparr>]
            else volumes)
      in if pe_existing_claim (sp_persistence (db_spec db)) \<noteq> [] then
           volumes @ [\<lparr>vo_name = dataVolume,
             vo_source = PersistentVolumeClaimSource (pe_existing_claim (sp_persistence (db_spec db)))\<rparr>]
         else volumes)"

definition Container :: "serenedb \<Rightarrow> container" where
  "Container db = (let probe = pgIsReady db in \<lparr>
     co_name = containerName,
     co_image = ServerImage db,
     co_image_pull_policy = pullPolicy db,
     co_security_context = \<lparr>cs_run_as_user = Some ImageUID, cs_run_as_non_root = Some True,
       cs_allow_privilege_escalation = Some False, cs_drop_capabilities = [''ALL''],
       cs_seccomp_profile = ''RuntimeDefault''\<rparr>,
     co_args = [containerName, DefaultDataMountPath],
     co_env = [\<lparr>ev_name = ''POSTGRES_PASSWORD'', ev_value = [],
         ev_secret_key_ref = Some \<lparr>sks_name = SecretName db, sks_key = PasswordKey db\<rparr>\<rparr>]
       @ sp_env (db_spec db),
     co_ports = ContainerPorts db,
     co_startup_probe = \<lparr>pb_command = probe, pb_initial_delay_seconds = 0, pb_period_seconds = 5,
       pb_timeout_seconds = 0, pb_failure_threshold = 60\<rparr>,
     co_readiness_probe = \<lparr>pb_command = probe, pb_initial_delay_seconds = 5, pb_period_seconds = 5,
       pb_timeout_seconds = 3, pb_failure_threshold = 3\<rparr>,
     co_liveness_probe = \<lparr>pb_command = probe, pb_initial_delay_seconds = 30, pb_period_seconds = 10,
       pb_timeout_seconds = 5, pb_failure_threshold = 6\<rparr>,
     co_resources = sp_resources (db_spec db),
     co_volume_mounts = VolumeMounts db\<rparr>)"

text \<open>\<open>maps.Copy(dst, src)\<close>: every entry of the source overwrites the destination's.\<close>

definition maps_Copy :: "gomap \<Rightarrow> gomap \<Rightarrow> gomap" where
  "maps_Copy dst src = fold (\<lambda>(k, v). AList.update k v) src dst"

definition PodTemplate :: "serenedb \<Rightarrow> string \<Rightarrow> pod_template" where
  "PodTemplate db configHash = \<lparr>
     pt_labels = maps_Copy (SelectorLabels db) (sp_pod_labels (db_spec db)),
     pt_annotations = maps_Copy [(ConfigHashAnnotation, configHash)] (sp_pod_annotations (db_spec db)),
     pt_spec = \<lparr>
       po_termination_grace_period_seconds = Some (terminationGracePeriod db),
       po_automount_service_account_token = Some False,
       po_image_pull_secrets = sp_image_pull_secrets (db_spec db),
       po_fs_group = Some 0,
       po_priority_class_name = sp_priority_class_name (db_spec db),
       po_containers = [Container db],
       po_volumes = Volumes db,
       po_node_selector = sp_node_selector (db_spec db),
       po_tolerations = sp_tolerations (db_spec db),
       po_affinity = sp_affinity (db_spec db)\<rparr>\<rparr>"

section \<open>The StatefulSet\<close>

definition VolumeSnapshotGVK :: group_version_kind where
  "VolumeSnapshotGVK = \<lparr>gvk_group = ''snapshot.storage.k8s.io'', gvk_version = ''v1'',
     gvk_kind = ''VolumeSnapshot''\<rparr>"

definition RetentionPolicy :: "serenedb \<Rightarrow> pvc_retention_policy" where
  "RetentionPolicy db = (let policy = pe_retention_policy (sp_persistence (db_spec db)) in
     \<lparr>pr_when_deleted = retentionType (rp_when_deleted policy),
      pr_when_scaled = retentionType (rp_when_scaled policy)\<rparr>)"

definition VolumeClaimTemplate :: "serenedb \<Rightarrow> persistent_volume_claim" where
  "VolumeClaimTemplate db =
     (let p = sp_persistence (db_spec db);
          size = (case pe_size p of Some s \<Rightarrow> s | None \<Rightarrow> Quantity ''20Gi'');
          modes = (if pe_access_modes p = [] then [''ReadWriteOnce''] else pe_access_modes p);
          claim = \<lparr>pc_name = dataVolume, pc_access_modes = modes,
            pc_storage_class_name = pe_storage_class_name p, pc_storage_request = size,
            pc_data_source = None\<rparr>
      in case sp_bootstrap (db_spec db) of None \<Rightarrow> claim
         | Some b \<Rightarrow> claim\<lparr>pc_data_source := Some \<lparr>tr_api_group = gvk_group VolumeSnapshotGVK,
             tr_kind = gvk_kind VolumeSnapshotGVK, tr_name = bs_volume_snapshot_name b\<rparr>\<rparr>)"

definition StatefulSet :: "serenedb \<Rightarrow> string \<Rightarrow> stateful_set" where
  "StatefulSet db configHash =
     (let sts = \<lparr>
        sts_meta = empty_meta\<lparr>om_name := Name db, om_namespace := Namespace db, om_labels := Labels db\<rparr>,
        sts_spec = \<lparr>sts_replicas = Some 1, sts_service_name = HeadlessServiceName db,
          sts_selector = SelectorLabels db, sts_update_strategy = ''RollingUpdate'',
          sts_template = PodTemplate db configHash,
          sts_pvc_retention_policy = None, sts_volume_claim_templates = []\<rparr>,
        sts_status = empty_sts_status\<rparr>
      in if pe_existing_claim (sp_persistence (db_spec db)) \<noteq> [] then sts
         else sts\<lparr>sts_spec := (sts_spec sts)\<lparr>
           sts_pvc_retention_policy := Some (RetentionPolicy db),
           sts_volume_claim_templates := [VolumeClaimTemplate db]\<rparr>\<rparr>)"

section \<open>The generated secret\<close>

definition passwordAlphabet :: string where
  "passwordAlphabet = ''abcdefghijklmnopqrstuvwxyzABCDEFGHIJKLMNOPQRSTUVWXYZ0123456789''"

definition passwordLength :: nat where "passwordLength = 24"

primrec password_bytes :: "'e runtime \<Rightarrow> nat \<Rightarrow> string \<Rightarrow> ('e, go_error + string) eff" where
  "password_bytes rt 0 out = ret (Inr out)"
| "password_bytes rt (Suc i) out =
     rand_int rt (length passwordAlphabet) \<bind> (\<lambda>r. case r of
       Inl err \<Rightarrow> ret (Inl err)
     | Inr n \<Rightarrow> password_bytes rt i (out @ [passwordAlphabet ! n]))"

definition randomPassword :: "'e runtime \<Rightarrow> ('e, go_error + string) eff" where
  "randomPassword rt = password_bytes rt passwordLength []"

definition GeneratedSecret :: "'e runtime \<Rightarrow> serenedb \<Rightarrow> ('e, go_error + secret) eff" where
  "GeneratedSecret rt db = randomPassword rt \<bind> (\<lambda>r. case r of
     Inl err \<Rightarrow> ret (Inl err)
   | Inr password \<Rightarrow> ret (Inr \<lparr>
       sec_meta = empty_meta\<lparr>om_name := Name db, om_namespace := Namespace db, om_labels := Labels db\<rparr>,
       sec_type = ''Opaque'', sec_data = [], sec_string_data = [(PasswordKey db, password)]\<rparr>))"

definition SecretOwnedByDatabase :: "serenedb \<Rightarrow> bool" where
  "SecretOwnedByDatabase db \<longleftrightarrow>
     rp_when_deleted (pe_retention_policy (sp_persistence (db_spec db))) = ''Delete''"

section \<open>Volume snapshots\<close>

definition DataClaimName :: "serenedb \<Rightarrow> string" where
  "DataClaimName db = (if pe_existing_claim (sp_persistence (db_spec db)) \<noteq> []
     then pe_existing_claim (sp_persistence (db_spec db))
     else dataVolume @ ''-'' @ Name db @ ''-0'')"

definition VolumeSnapshot :: "backup \<Rightarrow> string \<Rightarrow> unstructured" where
  "VolumeSnapshot b claimName =
     (let source = [(''persistentVolumeClaimName'', JString claimName)];
          spec = [(''source'', JObject source)];
          spec = (case ba_volume_snapshot_class_name (bk_spec b) of None \<Rightarrow> spec
            | Some c \<Rightarrow> spec @ [(''volumeSnapshotClassName'', JString c)])
      in \<lparr>un_gvk = VolumeSnapshotGVK,
          un_object = JObject [
            (''metadata'', JObject [
              (''name'', JString (om_name (bk_meta b))),
              (''namespace'', JString (om_namespace (bk_meta b))),
              (''labels'', JObject [(''app.kubernetes.io/managed-by'', JString ManagedBy),
                (''app.kubernetes.io/instance'', JString (cr_name (ba_cluster (bk_spec b))))])]),
            (''spec'', JObject spec)]\<rparr>)"

definition SnapshotOutcome :: "lib \<Rightarrow> unstructured \<Rightarrow> bool \<times> string" where
  "SnapshotOutcome l u = (nested_bool l (un_object u) [''status'', ''readyToUse''],
     nested_string l (un_object u) [''status'', ''error'', ''message''])"


section \<open>Mounts and volumes\<close>

lemma StatefulSet_template [simp]: "sts_template (sts_spec (StatefulSet db h)) = PodTemplate db h"
  by (simp add: StatefulSet_def Let_def)

lemma StatefulSet_claims: "sts_volume_claim_templates (sts_spec (StatefulSet db h)) =
    (if pe_existing_claim (sp_persistence (db_spec db)) = [] then [VolumeClaimTemplate db] else [])"
  by (simp add: StatefulSet_def Let_def)

lemma StatefulSet_identity [simp]:
  "om_name (sts_meta (StatefulSet db h)) = Name db"
  "om_namespace (sts_meta (StatefulSet db h)) = Namespace db"
  "sts_selector (sts_spec (StatefulSet db h)) = SelectorLabels db"
  by (simp_all add: StatefulSet_def Let_def)

lemma PodTemplate_parts [simp]:
  "po_volumes (pt_spec (PodTemplate db h)) = Volumes db"
  "po_containers (pt_spec (PodTemplate db h)) = [Container db]"
  by (simp_all add: PodTemplate_def)

lemma Container_parts [simp]:
  "co_volume_mounts (Container db) = VolumeMounts db"
  "co_ports (Container db) = ContainerPorts db"
  by (simp_all add: Container_def Let_def)

lemma pc_name_template [simp]: "pc_name (VolumeClaimTemplate db) = dataVolume"
  by (simp add: VolumeClaimTemplate_def Let_def split: option.splits)

lemma volume_names_distinct [simp]:
  "dataVolume \<noteq> configVolume" "dataVolume \<noteq> tlsVolume" "configVolume \<noteq> tlsVolume"
  "configVolume \<noteq> dataVolume" "tlsVolume \<noteq> dataVolume" "tlsVolume \<noteq> configVolume"
  by (simp_all add: volume_name_defs)

text \<open>The names a pod of a StatefulSet can mount: its volumes and its claim templates.\<close>

definition mountable :: "stateful_set \<Rightarrow> string list" where
  "mountable sts = map vo_name (po_volumes (pt_spec (sts_template (sts_spec sts))))
     @ map pc_name (sts_volume_claim_templates (sts_spec sts))"

text \<open>
  The claim behind a mount path in the pod of ordinal 0: a claim template yields the claim
  named \<open><template>-<statefulset>-0\<close>, as the StatefulSet controller documents.
\<close>

definition mounted_claim :: "stateful_set \<Rightarrow> string \<Rightarrow> string option" where
  "mounted_claim sts path =
     (let pod = pt_spec (sts_template (sts_spec sts)) in
      case find (\<lambda>m. vm_mount_path m = path) (concat (map co_volume_mounts (po_containers pod))) of
        None \<Rightarrow> None
      | Some m \<Rightarrow>
          (case find (\<lambda>v. vo_name v = vm_name m) (po_volumes pod) of
             Some v \<Rightarrow> (case vo_source v of PersistentVolumeClaimSource c \<Rightarrow> Some c | _ \<Rightarrow> None)
           | None \<Rightarrow>
               (case find (\<lambda>c. pc_name c = vm_name m) (sts_volume_claim_templates (sts_spec sts)) of
                  None \<Rightarrow> None
                | Some c \<Rightarrow> Some (pc_name c @ ''-'' @ om_name (sts_meta sts) @ ''-0''))))"

lemma data_claim_is_mounted:
  "mounted_claim (StatefulSet db h) DefaultDataMountPath = Some (DataClaimName db)"
  by (simp add: mounted_claim_def StatefulSet_claims VolumeMounts_def Volumes_def DataClaimName_def
      Let_def)

text \<open>C37. Every volume and claim template of the pod is mounted exactly once, at a path of its
  own, and every mount has exactly one volume or claim template of its name, for every
  combination of TLS and existing claim; and the claim a backup snapshots, \<open>DataClaimName\<close>, is
  the one the pod mounts as its data directory, whether it comes from the template or is an
  existing one.\<close>

theorem mounts_match_volumes:
  "distinct (mountable (StatefulSet db h)) \<and>
    po_containers (pt_spec (sts_template (sts_spec (StatefulSet db h)))) = [Container db] \<and>
    vm_name ` set (co_volume_mounts (Container db)) = set (mountable (StatefulSet db h)) \<and>
    distinct (map vm_name (co_volume_mounts (Container db))) \<and>
    distinct (map vm_mount_path (co_volume_mounts (Container db))) \<and>
    mounted_claim (StatefulSet db h) DefaultDataMountPath = Some (DataClaimName db)"
  using data_claim_is_mounted [of db h]
  by (auto simp: mountable_def StatefulSet_claims Volumes_def VolumeMounts_def Let_def
      DefaultDataMountPath_def configMountPath_def tlsMountPath_def)

section \<open>Ports\<close>

text \<open>The ports of a server: the listener's name and number, HTTP where it is enabled.\<close>

definition listeners :: "serenedb \<Rightarrow> (string \<times> int32) list" where
  "listeners db = (postgresPort, PostgresPort db)
     # (if hl_enabled (ls_http (sp_listeners (db_spec db))) then [(httpPort, HTTPPort db)] else [])"

text \<open>What a service port exposes: its name, its number, the container port it resolves to and
  the protocol.\<close>

definition exposed :: "service_port \<Rightarrow> string \<times> int32 \<times> int_or_string \<times> string" where
  "exposed p = (svp_name p, svp_port p, svp_target_port p, svp_protocol p)"

definition exposes :: "string \<times> int32 \<Rightarrow> string \<times> int32 \<times> int_or_string \<times> string" where
  "exposes = (\<lambda>(name, port). (name, port, FromString name, ProtocolTCP))"

lemma Container_listeners: "map (\<lambda>p. (cp_name p, cp_container_port p, cp_protocol p)) (co_ports (Container db)) =
    map (\<lambda>(name, port). (name, port, ProtocolTCP)) (listeners db)"
  by (simp add: ContainerPorts_def listeners_def Let_def)

lemma Service_listeners: "map exposed (svs_ports (svc_spec (Service db))) = map exposes (listeners db)"
  by (simp add: Service_def ServicePorts_def listeners_def exposed_def exposes_def Let_def)

lemma HeadlessService_listener:
  "map exposed (svs_ports (svc_spec (HeadlessService db))) = [exposes (postgresPort, PostgresPort db)]"
  by (simp add: HeadlessService_def ServicePorts_def exposed_def exposes_def Let_def)

lemma NetworkPolicy_listeners: "nps_ingress_ports (np_spec (NetworkPolicy db)) =
    [map (\<lambda>(name, port). \<lparr>npp_protocol = ProtocolTCP, npp_port = FromInt32 port\<rparr>) (listeners db)]"
  by (simp add: NetworkPolicy_def network_policy_ports_def ServicePorts_def listeners_def Let_def)

lemma distinct_listeners: "distinct (map fst (listeners db))"
  by (simp add: listeners_def port_name_defs)

text \<open>C36. The container opens the port \<open>postgres\<close> and, where HTTP is enabled, the port \<open>http\<close>, under
  the two distinct names and at the numbers the listeners are configured with; the client
  service has the same ports under the same names and numbers, each leading to the container
  port of its name; the headless service has the \<open>postgres\<close> one of them; the network policy
  admits exactly these numbers; and every probe asks the postgres port.\<close>

theorem ports_agree:
  "map (\<lambda>p. (cp_name p, cp_container_port p, cp_protocol p)) (co_ports (Container db)) =
      map (\<lambda>(name, port). (name, port, ProtocolTCP)) (listeners db) \<and>
    map exposed (svs_ports (svc_spec (Service db))) = map exposes (listeners db) \<and>
    map exposed (svs_ports (svc_spec (HeadlessService db))) = [exposes (postgresPort, PostgresPort db)] \<and>
    distinct (map fst (listeners db)) \<and>
    nps_ingress_ports (np_spec (NetworkPolicy db)) =
      [map (\<lambda>(name, port). \<lparr>npp_protocol = ProtocolTCP, npp_port = FromInt32 port\<rparr>) (listeners db)] \<and>
    map pb_command [co_startup_probe (Container db), co_readiness_probe (Container db),
        co_liveness_probe (Container db)] =
      replicate 3 [''pg_isready'', ''-h'', ''127.0.0.1'', ''-p'', fmt_d (PostgresPort db), ''-U'', ''postgres'']"
proof -
  have "map pb_command [co_startup_probe (Container db), co_readiness_probe (Container db),
        co_liveness_probe (Container db)] = replicate 3 (pgIsReady db)"
    by (simp add: Container_def Let_def numeral_3_eq_3)
  then show ?thesis
    using Container_listeners Service_listeners HeadlessService_listener NetworkPolicy_listeners
      distinct_listeners by (simp only: pgIsReady_def simp_thms)
qed

section \<open>Labels, selectors and annotations\<close>

lemma map_of_maps_Copy: "map_of (maps_Copy dst src) = map_of dst ++ map_of (rev src)"
  unfolding maps_Copy_def
  by (induction src arbitrary: dst) (auto simp: update_conv' map_add_def fun_eq_iff split: option.splits)

lemma map_of_rev_distinct: "distinct (map fst xs) \<Longrightarrow> map_of (rev xs) = map_of xs"
  by (simp add: map_of_inject_set rev_map [symmetric])

lemma map_of_maps_Copy_distinct:
  "distinct (map fst src) \<Longrightarrow> map_of (maps_Copy dst src) = map_of dst ++ map_of src"
  by (simp add: map_of_maps_Copy map_of_rev_distinct)

lemma maps_Copy_overwritten:
  "k \<in> fst ` set src \<Longrightarrow> maps_Copy ((k, v) # dst) src = maps_Copy ((k, w) # dst) src"
  unfolding maps_Copy_def
proof (induction src arbitrary: dst)
  case (Cons e src)
  obtain a b where e: "e = (a, b)" by (cases e)
  show ?case
  proof (cases "a = k")
    case False
    with Cons.prems e have "k \<in> fst ` set src" by auto
    with Cons.IH [of "AList.update a b dst"] False e show ?thesis by simp
  qed (simp add: e)
qed simp

text \<open>\<open>matchLabels\<close>: a label set is selected when it has every required entry.\<close>

definition selects :: "gomap \<Rightarrow> gomap \<Rightarrow> bool" where
  "selects selector labels = list_all (\<lambda>(k, v). map_of labels k = Some v) selector"

text \<open>C35. The StatefulSet's selector, and the selectors of both services and of the network
  policy, which are the same, match the labels of its pods exactly when the user's
  \<open>podLabels\<close> give none of the selector's keys another value: the copy of \<open>podLabels\<close> is
  not guarded.\<close>

theorem selector_matches_pod_iff:
  assumes "distinct (map fst (sp_pod_labels (db_spec db)))"
  shows "svs_selector (svc_spec (Service db)) = sts_selector (sts_spec (StatefulSet db h)) \<and>
    svs_selector (svc_spec (HeadlessService db)) = sts_selector (sts_spec (StatefulSet db h)) \<and>
    nps_pod_selector (np_spec (NetworkPolicy db)) = sts_selector (sts_spec (StatefulSet db h)) \<and>
    (selects (sts_selector (sts_spec (StatefulSet db h))) (pt_labels (sts_template (sts_spec (StatefulSet db h))))
      \<longleftrightarrow> list_all (\<lambda>(k, v). map_of (sp_pod_labels (db_spec db)) k \<in> {None, Some v}) (SelectorLabels db))"
proof -
  have "map_of (pt_labels (PodTemplate db h)) = map_of (SelectorLabels db) ++ map_of (sp_pod_labels (db_spec db))"
    using map_of_maps_Copy_distinct [OF assms] by (simp add: PodTemplate_def)
  then show ?thesis
    by (auto simp: Service_def HeadlessService_def NetworkPolicy_def Let_def selects_def SelectorLabels_def
        map_add_def split: option.splits)
qed

section \<open>What rolls the pod\<close>

text \<open>
  The StatefulSet controller replaces the pod when the template changes. Two templates are the
  same when they are equal field by field, with labels, annotations and node selector compared
  as the maps they are.
\<close>

definition same_template :: "pod_template \<Rightarrow> pod_template \<Rightarrow> bool" where
  "same_template t u \<longleftrightarrow> map_of (pt_labels t) = map_of (pt_labels u) \<and>
     map_of (pt_annotations t) = map_of (pt_annotations u) \<and>
     map_of (po_node_selector (pt_spec t)) = map_of (po_node_selector (pt_spec u)) \<and>
     (pt_spec t)\<lparr>po_node_selector := []\<rparr> = (pt_spec u)\<lparr>po_node_selector := []\<rparr>"

text \<open>The parts of an object its container and its volumes are built from: image, authentication,
  environment, listeners, resources, TLS material and claim.\<close>

definition container_inputs :: "serenedb \<Rightarrow> string \<times> string \<times> string \<times> string \<times> env_var list \<times>
    (string \<times> int32) list \<times> opaque \<times> bool" where
  "container_inputs db = (ServerImage db, pullPolicy db, SecretName db, PasswordKey db,
     sp_env (db_spec db), listeners db, sp_resources (db_spec db), tls_enabled (sp_tls (db_spec db)))"

definition volume_inputs :: "serenedb \<Rightarrow> string \<times> string option \<times> string" where
  "volume_inputs db = (Name db,
     (if tls_enabled (sp_tls (db_spec db)) then Some (tls_secret_name (sp_tls (db_spec db))) else None),
     pe_existing_claim (sp_persistence (db_spec db)))"

text \<open>And the parts that only say how it is scheduled and stopped.\<close>

definition scheduling_inputs :: "serenedb \<Rightarrow> int64 \<times> local_object_reference list \<times> string \<times>
    (string \<rightharpoonup> string) \<times> opaque list \<times> opaque option" where
  "scheduling_inputs db = (terminationGracePeriod db, sp_image_pull_secrets (db_spec db),
     sp_priority_class_name (db_spec db), map_of (sp_node_selector (db_spec db)),
     sp_tolerations (db_spec db), sp_affinity (db_spec db))"

lemma ContainerPorts_eq_iff: "ContainerPorts a = ContainerPorts b \<longleftrightarrow> listeners a = listeners b"
  by (auto simp: ContainerPorts_def listeners_def Let_def)

lemma VolumeMounts_eq_iff: "VolumeMounts a = VolumeMounts b \<longleftrightarrow>
    tls_enabled (sp_tls (db_spec a)) = tls_enabled (sp_tls (db_spec b))"
  by (simp add: VolumeMounts_def Let_def)

lemma Container_eq_iff: "Container a = Container b \<longleftrightarrow> container_inputs a = container_inputs b"
proof
  assume eq: "container_inputs a = container_inputs b"
  then have "PostgresPort a = PostgresPort b" by (simp add: container_inputs_def listeners_def)
  with eq ContainerPorts_eq_iff [of a b] VolumeMounts_eq_iff [of a b]
  show "Container a = Container b"
    by (simp add: Container_def container_inputs_def pgIsReady_def Let_def)
qed (auto simp: Container_def container_inputs_def ContainerPorts_eq_iff VolumeMounts_eq_iff Let_def)

lemma Volumes_eq_iff: "Volumes a = Volumes b \<longleftrightarrow> volume_inputs a = volume_inputs b"
  by (auto simp: Volumes_def volume_inputs_def Let_def)

lemma PodTemplate_same_iff: "same_template (PodTemplate a h) (PodTemplate b h') \<longleftrightarrow>
    map_of (pt_labels (PodTemplate a h)) = map_of (pt_labels (PodTemplate b h')) \<and>
    map_of (pt_annotations (PodTemplate a h)) = map_of (pt_annotations (PodTemplate b h')) \<and>
    container_inputs a = container_inputs b \<and> volume_inputs a = volume_inputs b \<and>
    scheduling_inputs a = scheduling_inputs b"
proof -
  have "same_template (PodTemplate a h) (PodTemplate b h') \<longleftrightarrow>
      map_of (pt_labels (PodTemplate a h)) = map_of (pt_labels (PodTemplate b h')) \<and>
      map_of (pt_annotations (PodTemplate a h)) = map_of (pt_annotations (PodTemplate b h')) \<and>
      Container a = Container b \<and> Volumes a = Volumes b \<and> scheduling_inputs a = scheduling_inputs b"
    unfolding same_template_def by (auto simp: PodTemplate_def scheduling_inputs_def)
  then show ?thesis by (simp only: Container_eq_iff Volumes_eq_iff)
qed

text \<open>The annotations: the user's, over the digest of the configuration.\<close>

definition sets_hash :: "serenedb \<Rightarrow> bool" where
  "sets_hash db \<longleftrightarrow> ConfigHashAnnotation \<in> fst ` set (sp_pod_annotations (db_spec db))"

lemma annotations_same_iff:
  assumes "distinct (map fst (sp_pod_annotations (db_spec a)))"
    and "distinct (map fst (sp_pod_annotations (db_spec b)))" and "sets_hash a = sets_hash b"
  shows "map_of (pt_annotations (PodTemplate a h)) = map_of (pt_annotations (PodTemplate b h')) \<longleftrightarrow>
    map_of (sp_pod_annotations (db_spec a)) = map_of (sp_pod_annotations (db_spec b)) \<and>
    (sets_hash a \<or> h = h')"
proof -
  have parts: "map_of (pt_annotations (PodTemplate d x)) =
      [ConfigHashAnnotation \<mapsto> x] ++ map_of (sp_pod_annotations (db_spec d))"
    if "distinct (map fst (sp_pod_annotations (db_spec d)))" for d x
    using map_of_maps_Copy_distinct [OF that] by (simp add: PodTemplate_def)
  have dom: "sets_hash d \<longleftrightarrow> map_of (sp_pod_annotations (db_spec d)) ConfigHashAnnotation \<noteq> None" for d
    by (simp add: sets_hash_def map_of_eq_None_iff)
  show ?thesis
  proof
    assume "map_of (pt_annotations (PodTemplate a h)) = map_of (pt_annotations (PodTemplate b h'))"
    then have eq: "([ConfigHashAnnotation \<mapsto> h] ++ map_of (sp_pod_annotations (db_spec a))) k =
        ([ConfigHashAnnotation \<mapsto> h'] ++ map_of (sp_pod_annotations (db_spec b))) k" for k
      by (simp add: parts assms(1,2))
    have "map_of (sp_pod_annotations (db_spec a)) k = map_of (sp_pod_annotations (db_spec b)) k" for k
      using eq [of k] assms(3) dom
      by (cases "k = ConfigHashAnnotation") (auto simp: map_add_def split: option.splits)
    moreover have "sets_hash a \<or> h = h'"
      using eq [of ConfigHashAnnotation] assms(3) dom by (auto simp: map_add_def)
    ultimately show "map_of (sp_pod_annotations (db_spec a)) = map_of (sp_pod_annotations (db_spec b)) \<and>
        (sets_hash a \<or> h = h')" by blast
  next
    assume "map_of (sp_pod_annotations (db_spec a)) = map_of (sp_pod_annotations (db_spec b)) \<and>
        (sets_hash a \<or> h = h')"
    then show "map_of (pt_annotations (PodTemplate a h)) = map_of (pt_annotations (PodTemplate b h'))"
      using dom [of b] assms(3)
      by (auto simp: parts assms(1,2) fun_eq_iff map_add_def split: option.splits)
  qed
qed

text \<open>The labels: the user's, over the selector's.\<close>

lemma labels_same_iff:
  assumes "distinct (map fst (sp_pod_labels (db_spec a)))" "distinct (map fst (sp_pod_labels (db_spec b)))"
  shows "map_of (pt_labels (PodTemplate a h)) = map_of (pt_labels (PodTemplate b h')) \<longleftrightarrow>
    map_of (SelectorLabels a) ++ map_of (sp_pod_labels (db_spec a)) =
      map_of (SelectorLabels b) ++ map_of (sp_pod_labels (db_spec b))"
  using map_of_maps_Copy_distinct [OF assms(1)] map_of_maps_Copy_distinct [OF assms(2)]
  by (simp add: PodTemplate_def)

text \<open>C34. What rolls the pod. Let \<open>a\<close> and \<open>b\<close> be two versions of an object, each with the digest of
  its own configuration. Their StatefulSets have the same pod template exactly when the image
  and its pull policy, the password Secret and its key, the environment, the ports, the
  resources, TLS and its Secret, the existing claim, the scheduling fields and the user's
  labels (over the selector's) and annotations agree, and so do the flag file and the
  host-based authentication text, which count unless \<open>podAnnotations\<close> sets the digest's
  annotation itself. So a changed configuration rolls the pod, and nothing outside this list
  does: not the service, the retention policy or the claim template. The password Secret is in
  the list, though the guide has a change of \<open>auth\<close> applied without a restart. For versions that
  both or neither set the digest's annotation, and texts without a NUL byte on which SHA-256 does
  not collide; \<open>podLabels\<close> and \<open>podAnnotations\<close> are maps.\<close>

theorem pod_rolls_iff:
  assumes "data_nul_free (cm_data (ConfigMap a))" "data_nul_free (cm_data (ConfigMap b))"
    and "no_collision l (digest_input (cm_data (ConfigMap a))) (digest_input (cm_data (ConfigMap b)))"
    and "distinct (map fst (sp_pod_labels (db_spec a)))" "distinct (map fst (sp_pod_labels (db_spec b)))"
    and "distinct (map fst (sp_pod_annotations (db_spec a)))"
    and "distinct (map fst (sp_pod_annotations (db_spec b)))" and "sets_hash a = sets_hash b"
  shows "same_template (sts_template (sts_spec (StatefulSet a (ConfigHash l (ConfigMap a)))))
      (sts_template (sts_spec (StatefulSet b (ConfigHash l (ConfigMap b))))) \<longleftrightarrow>
    (container_inputs a = container_inputs b \<and> volume_inputs a = volume_inputs b \<and>
      scheduling_inputs a = scheduling_inputs b \<and>
      map_of (SelectorLabels a) ++ map_of (sp_pod_labels (db_spec a)) =
        map_of (SelectorLabels b) ++ map_of (sp_pod_labels (db_spec b)) \<and>
      map_of (sp_pod_annotations (db_spec a)) = map_of (sp_pod_annotations (db_spec b)) \<and>
      (sets_hash a \<or> Flagfile a = Flagfile b \<and>
        cf_hba (sp_config (db_spec a)) = cf_hba (sp_config (db_spec b))))"
proof -
  have "ConfigHash l (ConfigMap a) = ConfigHash l (ConfigMap b) \<longleftrightarrow>
      Flagfile a = Flagfile b \<and> cf_hba (sp_config (db_spec a)) = cf_hba (sp_config (db_spec b))"
    by (simp only: ConfigHash_eq_iff [OF assms(3)] digest_input_complete [OF assms(1,2)])
  then show ?thesis
    unfolding StatefulSet_template PodTemplate_same_iff labels_same_iff [OF assms(4,5)]
      annotations_same_iff [OF assms(6-8)] by blast
qed

text \<open>A changed host-based authentication text, which only reaches the pod through the digest.\<close>

theorem pod_rolls_iff_witness:
  "\<not> same_template (sts_template (sts_spec (StatefulSet sample_db (ConfigHash wide_lib (ConfigMap sample_db)))))
      (sts_template (sts_spec (StatefulSet other_db (ConfigHash wide_lib (ConfigMap other_db)))))"
proof -
  have maps: "sp_pod_labels (db_spec sample_db) = []" "sp_pod_labels (db_spec other_db) = []"
    "sp_pod_annotations (db_spec sample_db) = []" "sp_pod_annotations (db_spec other_db) = []"
    by (simp_all add: sample_db_def other_db_def sample_spec_def)
  have hba: "cf_hba (sp_config (db_spec sample_db)) \<noteq> cf_hba (sp_config (db_spec other_db))"
    by (simp add: sample_db_def other_db_def sample_spec_def)
  have "no_collision wide_lib (digest_input (cm_data (ConfigMap sample_db)))
      (digest_input (cm_data (ConfigMap other_db)))"
    by (simp add: no_collision_def wide_lib_def)
  from pod_rolls_iff [OF sample_nul_free this] hba maps show ?thesis
    by (simp add: sets_hash_def)
qed

section \<open>The password\<close>

definition drawn :: "nat list \<Rightarrow> event list" where
  "drawn ns = map (\<lambda>n. Drew (length passwordAlphabet) (Inr n)) ns"

definition spelled :: "nat list \<Rightarrow> string" where
  "spelled ns = map (\<lambda>n. passwordAlphabet ! n) ns"

lemma emits_password_bytes:
  assumes rand: "rand_law rt"
  shows "emits (password_bytes rt i out) (\<lambda>r es. \<forall>p. r = Inr p \<longrightarrow>
    (\<exists>ns. length ns = i \<and> list_all (\<lambda>n. n < length passwordAlphabet) ns \<and> es = drawn ns \<and> p = out @ spelled ns))"
proof (induction i arbitrary: out)
  case 0
  then show ?case by (auto intro!: emits_intro simp: drawn_def spelled_def)
next
  case (Suc i)
  have "emits (password_bytes rt i (out @ [passwordAlphabet ! n])) (\<lambda>r es. \<forall>p. r = Inr p \<longrightarrow>
      (\<exists>ns. length ns = Suc i \<and> list_all (\<lambda>n. n < length passwordAlphabet) ns \<and>
        Drew (length passwordAlphabet) (Inr n) # es = drawn ns \<and> p = out @ spelled ns))"
    if "n < length passwordAlphabet" for n
  proof (rule emits_weaken [OF Suc.IH], intro allI impI)
    fix r es p
    assume "\<forall>p. r = Inr p \<longrightarrow> (\<exists>ns. length ns = i \<and> list_all (\<lambda>n. n < length passwordAlphabet) ns \<and>
        es = drawn ns \<and> p = (out @ [passwordAlphabet ! n]) @ spelled ns)" "r = Inr p"
    then obtain ns where "length ns = i" "list_all (\<lambda>n. n < length passwordAlphabet) ns" "es = drawn ns"
      "p = (out @ [passwordAlphabet ! n]) @ spelled ns" by blast
    with that show "\<exists>ns. length ns = Suc i \<and> list_all (\<lambda>n. n < length passwordAlphabet) ns \<and>
        Drew (length passwordAlphabet) (Inr n) # es = drawn ns \<and> p = out @ spelled ns"
      by (intro exI [where x = "n # ns"]) (simp add: drawn_def spelled_def)
  qed
  then show ?case
    by (auto intro!: emits_bind emits_rand_int [OF rand] emits_ret)
qed

lemma distinct_alphabet: "distinct passwordAlphabet"
  unfolding passwordAlphabet_def by code_simp

lemma spelled_inject:
  assumes "list_all (\<lambda>n. n < length passwordAlphabet) ms" "list_all (\<lambda>n. n < length passwordAlphabet) ns"
    and "spelled ms = spelled ns"
  shows "ms = ns"
  using assms
proof (induction ms arbitrary: ns)
  case Nil
  then show ?case by (simp add: spelled_def)
next
  case (Cons m ms)
  then obtain n ns' where ns: "ns = n # ns'" by (cases ns) (auto simp: spelled_def)
  with Cons.prems have "m = n"
    using nth_eq_iff_index_eq [OF distinct_alphabet, of m n] by (simp add: spelled_def)
  with Cons ns show ?case by (simp add: spelled_def)
qed


text \<open>C38. A generated secret holds one entry, under the password key of the spec, and its value
  spells 24 successful draws from the random source, one letter of the 62 for each, so that
  no two sequences of draws give the same password; an error of the random source gives no
  secret.\<close>

theorem generated_password:
  assumes "rand_law rt" and "result_of (GeneratedSecret rt db) e = Inr sec"
  shows "\<exists>ns. trace_of (GeneratedSecret rt db) e = drawn ns \<and> length ns = 24 \<and>
    sec_string_data sec = [(PasswordKey db, spelled ns)] \<and> length (spelled ns) = 24 \<and>
    set (spelled ns) \<subseteq> set passwordAlphabet \<and>
    (\<forall>ms. list_all (\<lambda>m. m < length passwordAlphabet) ms \<longrightarrow> spelled ms = spelled ns \<longrightarrow> ms = ns)"
proof -
  have bytes: "emits (password_bytes rt passwordLength []) (\<lambda>r es. \<forall>p. r = Inr p \<longrightarrow>
      (\<exists>ns. length ns = passwordLength \<and> list_all (\<lambda>n. n < length passwordAlphabet) ns \<and>
        es = drawn ns \<and> p = [] @ spelled ns))"
    by (rule emits_password_bytes [OF assms(1)])
  have "emits (GeneratedSecret rt db) (\<lambda>r es. \<forall>sec. r = Inr sec \<longrightarrow>
      (\<exists>ns. length ns = passwordLength \<and> list_all (\<lambda>n. n < length passwordAlphabet) ns \<and> es = drawn ns \<and>
        sec_string_data sec = [(PasswordKey db, spelled ns)]))"
    unfolding GeneratedSecret_def randomPassword_def
    by (rule emits_bind, rule emits_weaken [OF bytes]) (auto intro!: emits_intro)
  from emitsD [OF this, of e] assms(2) obtain ns where ns: "length ns = 24"
      "list_all (\<lambda>n. n < length passwordAlphabet) ns" "trace_of (GeneratedSecret rt db) e = drawn ns"
      "sec_string_data sec = [(PasswordKey db, spelled ns)]"
    by (auto simp: passwordLength_def)
  moreover have "set (spelled ns) \<subseteq> set passwordAlphabet"
    using ns(2) by (auto simp: spelled_def list_all_iff)
  moreover have "length (spelled ns) = 24" using ns(1) by (simp add: spelled_def)
  ultimately show ?thesis using spelled_inject [OF _ ns(2)] by blast
qed

definition counting_runtime :: "nat runtime" where
  "counting_runtime = \<lparr>
     rt_now = (\<lambda>n. (int n * 10 ^ 9, n)),
     rt_rand_int = (\<lambda>bound n. if bound = 0 then (Inl (Errorf ''empty range''), n) else (Inr (n mod bound), n + 1)),
     rt_range_choices = (\<lambda>n. ([], n))\<rparr>"

lemma counting_rand: "rand_law counting_runtime"
  by (simp add: rand_law_def counting_runtime_def)

lemma counting_password:
  "run_state (password_bytes counting_runtime i out) w =
    (Inr (out @ map (\<lambda>k. passwordAlphabet ! ((w_env w + k) mod length passwordAlphabet)) [0..<i]),
     \<lparr>w_env = w_env w + i, w_log = w_log w @
       map (\<lambda>k. Drew (length passwordAlphabet) (Inr ((w_env w + k) mod length passwordAlphabet))) [0..<i]\<rparr>)"
proof (induction i arbitrary: out w)
  case (Suc i)
  have "length passwordAlphabet \<noteq> 0" by (simp add: passwordAlphabet_def)
  moreover have "[0..<Suc i] = 0 # map Suc [0..<i]" by (simp add: map_Suc_upt upt_conv_Cons del: upt_Suc)
  moreover have "rt_rand_int counting_runtime bound n = (Inr (n mod bound), n + 1)" if "bound \<noteq> 0" for bound n
    using that by (simp add: counting_runtime_def)
  ultimately show ?case
    by (simp add: Suc.IH rand_int_def call_def o_def del: upt_Suc)
qed simp

theorem generated_password_witness:
  "\<exists>sec. rand_law counting_runtime \<and> result_of (GeneratedSecret counting_runtime sample_db) 0 = Inr sec \<and>
    (\<exists>ns. trace_of (GeneratedSecret counting_runtime sample_db) 0 = drawn ns \<and> length ns = 24 \<and>
      sec_string_data sec = [(PasswordKey sample_db, spelled ns)] \<and> length (spelled ns) = 24)"
proof -
  have "\<exists>sec. result_of (GeneratedSecret counting_runtime sample_db) 0 = Inr sec"
    by (simp add: result_of_def GeneratedSecret_def randomPassword_def counting_password)
  then obtain sec where sec: "result_of (GeneratedSecret counting_runtime sample_db) 0 = Inr sec" by blast
  show ?thesis
    using generated_password [OF counting_rand sec] sec counting_rand by (intro exI [where x = sec]) blast
qed

theorem selector_matches_pod_iff_witness:
  "distinct (map fst (sp_pod_labels (db_spec sample_db))) \<and>
    selects (sts_selector (sts_spec (StatefulSet sample_db [])))
      (pt_labels (sts_template (sts_spec (StatefulSet sample_db []))))"
proof -
  have labels: "sp_pod_labels (db_spec sample_db) = []" by (simp add: sample_db_def sample_spec_def)
  then have "distinct (map fst (sp_pod_labels (db_spec sample_db)))" by simp
  with selector_matches_pod_iff [OF this, of "[]"] labels show ?thesis
    by (simp add: list_all_iff case_prod_beta)
qed

end
