(* ===== verification/SqlExec.thy ===== *)
theory SqlExec
  imports Effects
begin

text \<open>
  internal/sqlexec: quoting of identifiers and literals, the pgx-backed session, and the
  recording \<open>Fake\<close> that stands in for a server. \<open>Session\<close> is an interface of the source;
  its contract is the locale \<open>session_log\<close>, which \<open>Fake\<close> provides and the SQL-issuing code
  of the controllers is a client of.
\<close>

section \<open>Quoting\<close>

definition Identifier :: "lib \<Rightarrow> string \<Rightarrow> string" where
  "Identifier l name = sanitize l name"

definition Literal :: "string \<Rightarrow> go_error + string" where
  "Literal value = (if CHR 0x00 \<in> set value then Inl (Errorf ''value contains a NUL byte'')
     else Inr (squote # replace_all value squote [squote, squote] @ [squote]))"

lemma Literal_error_iff: "(\<exists>e. Literal value = Inl e) \<longleftrightarrow> \<not> nul_free value"
  by (simp add: Literal_def nul_free_def)

text \<open>The quoted text of a literal, where there is one.\<close>

definition literal_text :: "string \<Rightarrow> string" where
  "literal_text value = squote # replace_all value squote [squote, squote] @ [squote]"

lemma Literal_eq:
  "Literal value = (if nul_free value then Inr (literal_text value)
     else Inl (Errorf ''value contains a NUL byte''))"
  by (simp add: Literal_def nul_free_def literal_text_def)

lemma Literal_Inr: "Literal value = Inr lit \<longleftrightarrow> nul_free value \<and> lit = literal_text value"
  by (auto simp: Literal_eq)

interpretation literal: quoting literal_text squote nul_free
proof unfold_locales
  show "\<exists>t. literal_text s = squote # t" for s by (simp add: literal_text_def)
  show "lex_quoted squote (literal_text s @ rest) = Some (s, rest)" if "ends_quote squote rest" for s rest
    using lex_quoted_doubled [OF that, of s] by (simp add: literal_text_def)
qed

section \<open>The pgx session\<close>

text \<open>
  The pgx driver is a parameter: a parsed connection string, a connection, and the row
  iterator, whose \<open>Values\<close> may fail row by row and whose \<open>Err\<close> is read at the end.
\<close>

datatype pg_value = PgText string | PgInt int | PgBool bool | PgNull | PgOther string

text \<open>\<open>fmt.Sprint\<close> of a decoded value; \<open>PgOther\<close> carries its rendering.\<close>

fun sprint :: "pg_value \<Rightarrow> string" where
  "sprint (PgText s) = s"
| "sprint (PgInt i) = show_int i"
| "sprint (PgBool b) = (if b then ''true'' else ''false'')"
| "sprint PgNull = ''<nil>''"
| "sprint (PgOther s) = s"

record pgx_config =
  px_settings :: string
  px_password :: string
  px_simple_protocol :: bool

record pgx_rows =
  pw_values :: "(go_error + pg_value list) list"
  pw_err :: "go_error option"

record 'e pgx_conn =
  cn_exec :: "string \<Rightarrow> 'e \<Rightarrow> go_error option \<times> 'e"
  cn_query :: "string \<Rightarrow> 'e \<Rightarrow> (go_error + pgx_rows) \<times> 'e"
  cn_close :: "'e \<Rightarrow> go_error option \<times> 'e"

record 'e pgx =
  px_parse_config :: "string \<Rightarrow> go_error + pgx_config"
  px_connect_config :: "pgx_config \<Rightarrow> 'e \<Rightarrow> (go_error + 'e pgx_conn) \<times> 'e"

fun collect_rows :: "(go_error + pg_value list) list \<Rightarrow> rows \<Rightarrow> go_error + rows" where
  "collect_rows [] out = Inr out"
| "collect_rows (Inl err # _) out = Inl err"
| "collect_rows (Inr vals # rest) out = collect_rows rest (out @ [map sprint vals])"

definition pgx_query :: "'e pgx_conn \<Rightarrow> string \<Rightarrow> 'e \<Rightarrow> (go_error + rows) \<times> 'e" where
  "pgx_query conn q e = (case cn_query conn q e of
     (Inl err, e') \<Rightarrow> (Inl err, e')
   | (Inr rs, e') \<Rightarrow> (case collect_rows (pw_values rs) [] of
       Inl err \<Rightarrow> (Inl err, e')
     | Inr out \<Rightarrow> (case pw_err rs of Some err \<Rightarrow> (Inl err, e') | None \<Rightarrow> (Inr out, e'))))"

definition pgxSession :: "'e pgx_conn \<Rightarrow> 'e session" where
  "pgxSession conn = \<lparr>s_exec = cn_exec conn, s_query = pgx_query conn, s_close = cn_close conn\<rparr>"

definition dsn :: "target \<Rightarrow> string \<Rightarrow> string" where
  "dsn t sslmode = ''host='' @ tg_host t @ '' port='' @ fmt_d (tg_port t) @ '' user='' @ tg_user t
     @ '' dbname=postgres sslmode='' @ sslmode @ '' connect_timeout=10''"

definition Connect :: "'e pgx \<Rightarrow> 'e connector" where
  "Connect px t e =
     (let sslmode = (if tg_tls t then ''require'' else ''disable'') in
      case px_parse_config px (dsn t sslmode) of
        Inl err \<Rightarrow> (Inl err, e)
      | Inr cfg \<Rightarrow>
          (case px_connect_config px (cfg\<lparr>px_password := tg_password t, px_simple_protocol := True\<rparr>) e of
             (Inl err, e') \<Rightarrow> (Inl err, e')
           | (Inr conn, e') \<Rightarrow> (Inr (pgxSession conn), e')))"

lemma collect_rows_Inr:
  "collect_rows vs out = Inr rows \<longleftrightarrow>
    (\<exists>vals. vs = map Inr vals \<and> rows = out @ map (map sprint) vals)"
proof (induction vs out arbitrary: rows rule: collect_rows.induct)
  case (3 vals rest out)
  then show ?case by (auto simp: Cons_eq_map_conv)
qed auto

text \<open>A query of the pgx session yields the rendered rows exactly when no row failed.\<close>

lemma pgx_query_Inr:
  "fst (pgx_query conn q e) = Inr rows \<longleftrightarrow>
    (\<exists>rs vals. fst (cn_query conn q e) = Inr rs \<and> pw_values rs = map Inr vals
       \<and> pw_err rs = None \<and> rows = map (map sprint) vals)"
proof -
  obtain r e' where r: "cn_query conn q e = (r, e')" by (cases "cn_query conn q e")
  show ?thesis
  proof (cases r)
    case (Inl err)
    with r show ?thesis by (simp add: pgx_query_def)
  next
    case (Inr rs)
    have vals: "collect_rows (pw_values rs) [] = Inr out \<longleftrightarrow>
        (\<exists>vals. pw_values rs = map Inr vals \<and> out = map (map sprint) vals)" for out
      by (simp add: collect_rows_Inr)
    have "fst (pgx_query conn q e) = Inr rows \<longleftrightarrow>
        collect_rows (pw_values rs) [] = Inr rows \<and> pw_err rs = None"
      using r Inr by (auto simp: pgx_query_def split: sum.splits option.splits)
    then show ?thesis using r Inr by (auto simp: vals)
  qed
qed

section \<open>The recording fake\<close>

record fake =
  fk_statements :: "string list"
  fk_rows :: "(string \<times> rows) list"
  fk_connect_err :: "go_error option"
  fk_exec_err :: "go_error option"
  fk_connects :: int

definition NewFake :: fake where
  "NewFake = \<lparr>fk_statements = [], fk_rows = [], fk_connect_err = None, fk_exec_err = None,
     fk_connects = 0\<rparr>"

definition fake_exec :: "string \<Rightarrow> fake \<Rightarrow> go_error option \<times> fake" where
  "fake_exec statement f = (case fk_exec_err f of Some err \<Rightarrow> (Some err, f)
     | None \<Rightarrow> (None, f\<lparr>fk_statements := fk_statements f @ [statement]\<rparr>))"

definition fake_query :: "string \<Rightarrow> fake \<Rightarrow> (go_error + rows) \<times> fake" where
  "fake_query q f =
     (let f' = f\<lparr>fk_statements := fk_statements f @ [q]\<rparr>
      in (Inr (case map_of (fk_rows f') q of None \<Rightarrow> [] | Some rows \<Rightarrow> rows), f'))"

definition fake_close :: "fake \<Rightarrow> go_error option \<times> fake" where
  "fake_close f = (None, f)"

definition fakeSession :: "fake session" where
  "fakeSession = \<lparr>s_exec = fake_exec, s_query = fake_query, s_close = fake_close\<rparr>"

definition fake_connector :: "fake connector" where
  "fake_connector t f =
     (let f' = f\<lparr>fk_connects := fk_connects f + 1\<rparr> in
      case fk_connect_err f' of Some err \<Rightarrow> (Inl err, f') | None \<Rightarrow> (Inr fakeSession, f'))"

definition Answer :: "string \<Rightarrow> rows \<Rightarrow> fake \<Rightarrow> fake" where
  "Answer q rows f = f\<lparr>fk_rows := AList.update q rows (fk_rows f)\<rparr>"

fun executed_in :: "string \<Rightarrow> string list \<Rightarrow> bool" where
  "executed_in statement [] = False"
| "executed_in statement (s # ss) = (if s = statement then True else executed_in statement ss)"

definition fake_Executed :: "string \<Rightarrow> fake \<Rightarrow> bool" where
  "fake_Executed statement f = executed_in statement (fk_statements f)"

definition Recorded :: "fake \<Rightarrow> string list" where
  "Recorded f = [] @ fk_statements f"

lemma executed_in_iff: "executed_in statement ss \<longleftrightarrow> statement \<in> set ss"
  by (induction ss) auto

section \<open>The session contract\<close>

text \<open>
  What a caller may rely on about the statements a session has taken: a successful
  \<open>Exec\<close> and every \<open>Query\<close> add theirs at the end, a failed \<open>Exec\<close> and \<open>Close\<close> add none.
\<close>

fun sql_taken :: "event list \<Rightarrow> string list" where
  "sql_taken [] = []"
| "sql_taken (Executed s None # es) = s # sql_taken es"
| "sql_taken (Queried q r # es) = q # sql_taken es"
| "sql_taken (_ # es) = sql_taken es"

lemma sql_taken_append [simp]: "sql_taken (es @ fs) = sql_taken es @ sql_taken fs"
  by (induction es rule: sql_taken.induct) auto

locale session_log =
  fixes sess :: "'e session"
    and sent :: "'e \<Rightarrow> string list"
  assumes exec_ok: "s_exec sess stmt e = (None, e') \<Longrightarrow> sent e' = sent e @ [stmt]"
    and exec_err: "s_exec sess stmt e = (Some err, e') \<Longrightarrow> sent e' = sent e"
    and query_any: "s_query sess q e = (r, e') \<Longrightarrow> sent e' = sent e @ [q]"
    and close_any: "s_close sess e = (cerr, e') \<Longrightarrow> sent e' = sent e"
begin

text \<open>\<open>tracks m\<close>: what the session has taken grows by what the log of \<open>m\<close> says it took.\<close>

definition tracks :: "('e, 'a) eff \<Rightarrow> bool" where
  "tracks m \<longleftrightarrow> (\<forall>w. \<exists>es. w_log (snd (run_state m w)) = w_log w @ es
     \<and> sent (w_env (snd (run_state m w))) = sent (w_env w) @ sql_taken es)"

lemma tracks_ret: "tracks (ret x)"
  by (simp add: tracks_def)

lemma tracks_exec: "tracks (exec sess stmt)"
proof -
  have "sent e' = sent e @ sql_taken [Executed stmt r]" if "s_exec sess stmt e = (r, e')" for e e' r
    using that exec_ok exec_err by (cases r) auto
  then show ?thesis by (auto simp: tracks_def exec_def call_def split: prod.splits)
qed

lemma tracks_query: "tracks (query sess q)"
  using query_any by (auto simp: tracks_def query_def call_def split: prod.splits)

lemma tracks_close: "tracks (close sess)"
  using close_any by (auto simp: tracks_def close_def call_def split: prod.splits)

lemma tracks_bind:
  assumes "tracks m" "\<And>a. tracks (f a)"
  shows "tracks (m \<bind> f)"
  unfolding tracks_def
proof
  fix w
  obtain a w1 where m: "run_state m w = (a, w1)" by (cases "run_state m w")
  obtain b w2 where f: "run_state (f a) w1 = (b, w2)" by (cases "run_state (f a) w1")
  obtain es where "w_log w1 = w_log w @ es" "sent (w_env w1) = sent (w_env w) @ sql_taken es"
    using assms(1) m unfolding tracks_def by (metis snd_conv)
  moreover obtain fs where "w_log w2 = w_log w1 @ fs" "sent (w_env w2) = sent (w_env w1) @ sql_taken fs"
    using assms(2) f unfolding tracks_def by (metis snd_conv)
  ultimately show "\<exists>es. w_log (snd (run_state (m \<bind> f) w)) = w_log w @ es
      \<and> sent (w_env (snd (run_state (m \<bind> f) w))) = sent (w_env w) @ sql_taken es"
    using m f by (intro exI [where x = "es @ fs"]) simp
qed

lemma tracks_run: "tracks m \<Longrightarrow> sent (env_of m e) = sent e @ sql_taken (trace_of m e)"
  unfolding tracks_def env_of_def trace_of_def
  by (drule spec [where x = "\<lparr>w_env = e, w_log = []\<rparr>"]) auto

end

interpretation fake: session_log fakeSession Recorded
  by unfold_locales
    (auto simp: fakeSession_def fake_exec_def fake_query_def fake_close_def Recorded_def Let_def
      split: option.splits)

end
