(* ===== verification/Statements.thy ===== *)
theory Statements
  imports SqlExec
begin

text \<open>
  internal/statements/statements.go: the SQL text of every statement the operator runs. The
  specification side is \<open>SqlLex\<close>: what a reader of the text finds in it.
\<close>

section \<open>The statements\<close>

definition DatabaseExists :: "string \<Rightarrow> go_error + string" where
  "DatabaseExists name = (case Literal name of Inl err \<Rightarrow> Inl err
     | Inr lit \<Rightarrow> Inr (''SELECT 1 FROM pg_database WHERE datname = '' @ lit))"

definition CreateDatabase :: "lib \<Rightarrow> string \<Rightarrow> string" where
  "CreateDatabase l name = ''CREATE DATABASE IF NOT EXISTS '' @ Identifier l name"

definition DropDatabase :: "lib \<Rightarrow> string \<Rightarrow> string" where
  "DropDatabase l name = ''DROP DATABASE '' @ Identifier l name"

definition RoleExists :: "string \<Rightarrow> go_error + string" where
  "RoleExists name = (case Literal name of Inl err \<Rightarrow> Inl err
     | Inr lit \<Rightarrow> Inr (''SELECT 1 FROM pg_roles WHERE rolname = '' @ lit))"

record role_attributes =
  ra_login :: bool
  ra_superuser :: bool
  ra_create_db :: bool
  ra_create_role :: bool
  ra_inherit :: bool
  ra_connection_limit :: "int32 option"
  ra_valid_until :: string
  ra_password :: "string option"

definition flag :: "bool \<Rightarrow> string \<Rightarrow> string" where
  "flag on word = (if on then word else ''NO'' @ word)"

definition render :: "role_attributes \<Rightarrow> go_error + string" where
  "render a =
     (let parts = [
        flag (ra_login a) ''LOGIN'',
        flag (ra_superuser a) ''SUPERUSER'',
        flag (ra_create_db a) ''CREATEDB'',
        flag (ra_create_role a) ''CREATEROLE'',
        flag (ra_inherit a) ''INHERIT''];
      parts = (case ra_connection_limit a of None \<Rightarrow> parts
        | Some n \<Rightarrow> parts @ [''CONNECTION LIMIT '' @ fmt_d n])
      in case (if ra_valid_until a \<noteq> [] then
                 (case Literal (ra_valid_until a) of Inl err \<Rightarrow> Inl err
                  | Inr lit \<Rightarrow> Inr (parts @ [''VALID UNTIL '' @ lit]))
               else Inr parts) of
           Inl err \<Rightarrow> Inl err
         | Inr parts \<Rightarrow>
             (case ra_password a of None \<Rightarrow> Inr (join '' '' parts)
              | Some p \<Rightarrow> (case Literal p of Inl err \<Rightarrow> Inl err
                  | Inr lit \<Rightarrow> Inr (join '' '' (parts @ [''PASSWORD '' @ lit])))))"

definition CreateRole :: "lib \<Rightarrow> string \<Rightarrow> role_attributes \<Rightarrow> go_error + string" where
  "CreateRole l name attrs = (case render attrs of Inl err \<Rightarrow> Inl err
     | Inr rendered \<Rightarrow> Inr (''CREATE ROLE '' @ Identifier l name @ '' '' @ rendered))"

definition AlterRole :: "lib \<Rightarrow> string \<Rightarrow> role_attributes \<Rightarrow> go_error + string" where
  "AlterRole l name attrs = (case render attrs of Inl err \<Rightarrow> Inl err
     | Inr rendered \<Rightarrow> Inr (''ALTER ROLE '' @ Identifier l name @ '' '' @ rendered))"

definition DropRole :: "lib \<Rightarrow> string \<Rightarrow> string" where
  "DropRole l name = ''DROP ROLE '' @ Identifier l name"

definition RoleMemberships :: "string \<Rightarrow> go_error + string" where
  "RoleMemberships name = (case Literal name of Inl err \<Rightarrow> Inl err
     | Inr lit \<Rightarrow> Inr (''SELECT r.rolname FROM pg_auth_members am JOIN pg_roles r ON r.oid = am.roleid '' @
         ''JOIN pg_roles m ON m.oid = am.member WHERE m.rolname = '' @ lit @ '' ORDER BY 1''))"

definition GrantMembership :: "lib \<Rightarrow> string \<Rightarrow> string \<Rightarrow> string" where
  "GrantMembership l grp member = ''GRANT '' @ Identifier l grp @ '' TO '' @ Identifier l member"

definition RevokeMembership :: "lib \<Rightarrow> string \<Rightarrow> string \<Rightarrow> string" where
  "RevokeMembership l grp member = ''REVOKE '' @ Identifier l grp @ '' FROM '' @ Identifier l member"

definition SecretExists :: "string \<Rightarrow> go_error + string" where
  "SecretExists name = (case Literal name of Inl err \<Rightarrow> Inl err
     | Inr lit \<Rightarrow> Inr (''SELECT 1 FROM sdb_secrets() WHERE name = '' @ lit))"

text \<open>\<open>optionName\<close>: the regular expression \<open>^[A-Za-z_][A-Za-z0-9_]*$\<close>.\<close>

fun optionName :: "string \<Rightarrow> bool" where
  "optionName [] = False"
| "optionName (c # cs) \<longleftrightarrow> word_char c \<and> \<not> is_digit c \<and> (\<forall>d \<in> set cs. word_char d)"

text \<open>The loop over the option map: the first visited invalid name is the error.\<close>

fun option_keys :: "gomap \<Rightarrow> string list \<Rightarrow> go_error + string list" where
  "option_keys [] keys = Inr keys"
| "option_keys ((k, v) # rest) keys =
     (if \<not> optionName k then Inl (Errorf (''option '' @ fmt_q k @ '' is not a valid option name''))
      else option_keys rest (keys @ [k]))"

text \<open>\<open>options[k]\<close>: the entry, or the empty string for an absent key.\<close>

definition option_value :: "gomap \<Rightarrow> string \<Rightarrow> string" where
  "option_value options k = (case map_of options k of None \<Rightarrow> [] | Some v \<Rightarrow> v)"

fun option_parts :: "gomap \<Rightarrow> string list \<Rightarrow> string list \<Rightarrow> go_error + string list" where
  "option_parts options [] parts = Inr parts"
| "option_parts options (k # ks) parts =
     (case Literal (option_value options k) of Inl err \<Rightarrow> Inl err
      | Inr lit \<Rightarrow> option_parts options ks (parts @ [to_upper k @ '' '' @ lit]))"

definition CreateSecret :: "lib \<Rightarrow> string \<Rightarrow> string \<Rightarrow> string \<Rightarrow> gomap \<Rightarrow> go_error + string" where
  "CreateSecret l name secretType scope options =
     (case option_keys options [] of Inl err \<Rightarrow> Inl err
      | Inr keys \<Rightarrow>
          (let keys = sort keys; parts = [''TYPE '' @ secretType] in
           case (if scope \<noteq> [] then
                   (case Literal scope of Inl err \<Rightarrow> Inl err | Inr lit \<Rightarrow> Inr (parts @ [''SCOPE '' @ lit]))
                 else Inr parts) of
             Inl err \<Rightarrow> Inl err
           | Inr parts \<Rightarrow>
               (case option_parts options keys parts of Inl err \<Rightarrow> Inl err
                | Inr parts \<Rightarrow> Inr (''CREATE OR REPLACE PERSISTENT SECRET '' @ Identifier l name @
                    '' ('' @ join '', '' parts @ '')''))))"

definition DropSecret :: "lib \<Rightarrow> string \<Rightarrow> string" where
  "DropSecret l name = ''DROP SECRET '' @ Identifier l name"

section \<open>Tokens of a statement\<close>

lemma word_char_code: "word_char c \<longleftrightarrow> (let n = (of_char c :: nat) in
    97 \<le> n \<and> n \<le> 122 \<or> 65 \<le> n \<and> n \<le> 90 \<or> 48 \<le> n \<and> n \<le> 57 \<or> n = 95)"
proof -
  have "c = CHR ''_'' \<longleftrightarrow> (of_char c :: nat) = of_char (CHR ''_'')"
    by (simp only: of_char_eq_iff)
  then show ?thesis by (auto simp: word_char_def is_digit_code less_eq_char_def Let_def)
qed

lemmas token_simps =
  sql_tokens_word sql_tokens_space sql_tokens_symbol plain_symbol_def word_char_code Let_def

lemma tokens_Literal:
  "Literal v = Inr lit \<Longrightarrow> ends_quote squote rest \<Longrightarrow>
    sql_tokens (lit @ rest) = map_option (Cons (Str v)) (sql_tokens rest)"
  by (simp add: Literal_Inr literal.tokens_str)

lemma tokens_literal_text:
  "nul_free v \<Longrightarrow> ends_quote squote rest \<Longrightarrow>
    sql_tokens (literal_text v @ rest) = map_option (Cons (Str v)) (sql_tokens rest)"
  by (rule literal.tokens_str) simp_all

lemmas tokens_literal_end = tokens_literal_text [where rest = "[]", simplified]

lemma tokens_Identifier:
  assumes "sanitize_law l" "nul_free v" "ends_quote dquote rest"
  shows "sql_tokens (Identifier l v @ rest) = map_option (Cons (Ident v)) (sql_tokens rest)"
  unfolding Identifier_def
  by (rule quoting.tokens_ident [OF sanitize_quoting [OF assms(1)]]) (use assms in simp_all)

lemma tokens_Identifier_end:
  "sanitize_law l \<Longrightarrow> nul_free v \<Longrightarrow> sql_tokens (Identifier l v) = Some [Ident v]"
  using tokens_Identifier [of l v "[]"] by simp

lemmas tokens_quoted = tokens_literal_text tokens_literal_end tokens_Identifier tokens_Identifier_end

subsection \<open>Parts of a statement\<close>

text \<open>
  \<open>splits p ts\<close>: the text \<open>p\<close> reads as the tokens \<open>ts\<close> before any text that starts with a
  space, a comma or a closing parenthesis, or at the end.
\<close>

definition ends_part :: "string \<Rightarrow> bool" where
  "ends_part rest \<longleftrightarrow> (case rest of [] \<Rightarrow> True | c # _ \<Rightarrow> c = CHR '' '' \<or> c = CHR '','' \<or> c = CHR '')'')"

definition splits :: "string \<Rightarrow> token list \<Rightarrow> bool" where
  "splits p ts \<longleftrightarrow> (\<forall>rest. ends_part rest \<longrightarrow>
     sql_tokens (p @ rest) = map_option ((@) ts) (sql_tokens rest))"

lemma ends_part_simps [simp]:
  "ends_part []"
  "ends_part (c # cs) \<longleftrightarrow> c = CHR '' '' \<or> c = CHR '','' \<or> c = CHR '')''"
  by (simp_all add: ends_part_def)

lemma ends_part_word: "ends_part rest \<Longrightarrow> ends_word rest"
  by (cases rest) (auto simp: word_char_code)

lemma ends_part_quote: "ends_part rest \<Longrightarrow> ends_quote squote rest \<and> ends_quote dquote rest"
  by (cases rest) auto

lemma map_option_Cons_append: "map_option ((@) (t # ts)) x = map_option (Cons t) (map_option ((@) ts) x)"
  by (cases x) auto

lemma map_option_append_Nil [simp]: "map_option ((@) []) x = x"
  by (cases x) auto

lemma map_option_append_append:
  "map_option ((@) (ss @ ts)) x = map_option ((@) ss) (map_option ((@) ts) x)"
  by (cases x) auto

lemma splitsD: "splits p ts \<Longrightarrow> ends_part rest \<Longrightarrow> sql_tokens (p @ rest) = map_option ((@) ts) (sql_tokens rest)"
  by (simp add: splits_def)

lemma splits_end: "splits p ts \<Longrightarrow> sql_tokens p = Some ts"
  using splitsD [of p ts "[]"] by simp

lemma splits_word:
  assumes "w \<noteq> []" "\<forall>c \<in> set w. word_char c"
  shows "splits w [Kw w]"
  unfolding splits_def
  using sql_tokens_word_append [OF assms ends_part_word]
  by (simp add: map_option_Cons_append [of _ "[]"])

lemma splits_keyword:
  assumes "splits p ts" "w \<noteq> []" "\<forall>c \<in> set w. word_char c"
  shows "splits (w @ CHR '' '' # p) (Kw w # ts)"
  unfolding splits_def
proof (intro allI impI)
  fix rest assume "ends_part rest"
  have "sql_tokens (w @ CHR '' '' # p @ rest) = map_option (Cons (Kw w)) (sql_tokens (CHR '' '' # p @ rest))"
    by (rule sql_tokens_word_append [OF assms(2,3)]) (simp add: word_char_code)
  then show "sql_tokens ((w @ CHR '' '' # p) @ rest) = map_option ((@) (Kw w # ts)) (sql_tokens rest)"
    by (simp add: sql_tokens_space splitsD [OF assms(1) \<open>ends_part rest\<close>] map_option_Cons_append)
qed

lemma splits_literal: "nul_free v \<Longrightarrow> splits (literal_text v) [Str v]"
  by (simp add: splits_def tokens_literal_text ends_part_quote map_option_Cons_append [of _ "[]"])

lemma splits_Identifier: "sanitize_law l \<Longrightarrow> nul_free v \<Longrightarrow> splits (Identifier l v) [Ident v]"
  by (simp add: splits_def tokens_Identifier ends_part_quote map_option_Cons_append [of _ "[]"])

lemma splits_join_space:
  "list_all2 splits ps tss \<Longrightarrow> splits (join '' '' ps) (concat tss)"
proof (induction ps arbitrary: tss)
  case Nil
  then show ?case by (simp add: splits_def)
next
  case (Cons p ps)
  then obtain ts tss' where tss: "tss = ts # tss'" "splits p ts" "list_all2 splits ps tss'"
    by (cases tss) auto
  show ?case
  proof (cases ps)
    case Nil
    then show ?thesis using tss by simp
  next
    case (Cons p' ps')
    have IH: "splits (join '' '' ps) (concat tss')" using Cons.IH tss(3) by blast
    have joined: "join '' '' (p # ps) = p @ CHR '' '' # join '' '' ps" using Cons by simp
    show ?thesis
      unfolding splits_def
    proof (intro allI impI)
      fix rest assume r: "ends_part rest"
      have "sql_tokens (p @ CHR '' '' # join '' '' ps @ rest) =
          map_option ((@) ts) (sql_tokens (CHR '' '' # join '' '' ps @ rest))"
        by (rule splitsD [OF tss(2)]) simp
      then show "sql_tokens (join '' '' (p # ps) @ rest) = map_option ((@) (concat tss)) (sql_tokens rest)"
        by (simp add: joined tss(1) sql_tokens_space splitsD [OF IH r] map_option_append_append)
    qed
  qed
qed

text \<open>Clauses separated by commas.\<close>

fun comma_tokens :: "token list list \<Rightarrow> token list" where
  "comma_tokens [] = []"
| "comma_tokens [ts] = ts"
| "comma_tokens (ts # us # tss) = ts @ Sym CHR '','' # comma_tokens (us # tss)"

lemma splits_join_comma:
  "list_all2 splits ps tss \<Longrightarrow> splits (join '', '' ps) (comma_tokens tss)"
proof (induction ps arbitrary: tss)
  case Nil
  then show ?case by (simp add: splits_def)
next
  case (Cons p ps)
  then obtain ts tss' where tss: "tss = ts # tss'" "splits p ts" "list_all2 splits ps tss'"
    by (cases tss) auto
  show ?case
  proof (cases ps)
    case Nil
    then show ?thesis using tss by simp
  next
    case (Cons p' ps')
    then obtain us uss where us: "tss' = us # uss" using tss(3) by (cases tss') auto
    have IH: "splits (join '', '' ps) (comma_tokens tss')" using Cons.IH tss(3) by blast
    have joined: "join '', '' (p # ps) = p @ CHR '','' # CHR '' '' # join '', '' ps" using Cons by simp
    have comma: "comma_tokens tss = ts @ Sym CHR '','' # comma_tokens tss'" using us by (simp add: tss(1))
    show ?thesis
      unfolding splits_def
    proof (intro allI impI)
      fix rest assume r: "ends_part rest"
      have "sql_tokens (p @ CHR '','' # CHR '' '' # join '', '' ps @ rest) =
          map_option ((@) ts) (sql_tokens (CHR '','' # CHR '' '' # join '', '' ps @ rest))"
        by (rule splitsD [OF tss(2)]) simp
      also have "sql_tokens (CHR '','' # CHR '' '' # join '', '' ps @ rest) =
          map_option (Cons (Sym CHR '','')) (map_option ((@) (comma_tokens tss')) (sql_tokens rest))"
        by (simp add: token_simps splitsD [OF IH r])
      finally show "sql_tokens (join '', '' (p # ps) @ rest) =
          map_option ((@) (comma_tokens tss)) (sql_tokens rest)"
        by (simp add: joined comma map_option_append_append map_option_Cons_append)
    qed
  qed
qed

section \<open>Role attributes\<close>

definition flag_word :: "bool \<Rightarrow> string \<Rightarrow> token" where
  "flag_word on word = Kw (if on then word else ''NO'' @ word)"

definition number_tokens :: "int \<Rightarrow> token list" where
  "number_tokens i = (if i < 0 then [Sym CHR ''-'', Kw (show_nat (nat (- i)))] else [Kw (show_nat (nat i))])"

text \<open>The clauses a reader finds in the rendered attributes.\<close>

definition attribute_clauses :: "role_attributes \<Rightarrow> token list list" where
  "attribute_clauses a =
     [[flag_word (ra_login a) ''LOGIN''], [flag_word (ra_superuser a) ''SUPERUSER''],
      [flag_word (ra_create_db a) ''CREATEDB''], [flag_word (ra_create_role a) ''CREATEROLE''],
      [flag_word (ra_inherit a) ''INHERIT'']]
     @ (case ra_connection_limit a of None \<Rightarrow> []
        | Some n \<Rightarrow> [[Kw ''CONNECTION'', Kw ''LIMIT''] @ number_tokens (sint n)])
     @ (if ra_valid_until a = [] then [] else [[Kw ''VALID'', Kw ''UNTIL'', Str (ra_valid_until a)]])
     @ (case ra_password a of None \<Rightarrow> [] | Some p \<Rightarrow> [[Kw ''PASSWORD'', Str p]])"

definition attribute_tokens :: "role_attributes \<Rightarrow> token list" where
  "attribute_tokens a = concat (attribute_clauses a)"

text \<open>The rendering as a join of parts, and when it fails.\<close>

definition attribute_parts :: "role_attributes \<Rightarrow> string list" where
  "attribute_parts a =
     [flag (ra_login a) ''LOGIN'', flag (ra_superuser a) ''SUPERUSER'',
      flag (ra_create_db a) ''CREATEDB'', flag (ra_create_role a) ''CREATEROLE'',
      flag (ra_inherit a) ''INHERIT'']
     @ (case ra_connection_limit a of None \<Rightarrow> [] | Some n \<Rightarrow> [''CONNECTION LIMIT '' @ fmt_d n])
     @ (if ra_valid_until a = [] then [] else [''VALID UNTIL '' @ literal_text (ra_valid_until a)])
     @ (case ra_password a of None \<Rightarrow> [] | Some p \<Rightarrow> [''PASSWORD '' @ literal_text p])"

definition attributes_ok :: "role_attributes \<Rightarrow> bool" where
  "attributes_ok a \<longleftrightarrow> nul_free (ra_valid_until a) \<and> pred_option nul_free (ra_password a)"

lemma nul_free_Nil [simp]: "nul_free []"
  by (simp add: nul_free_def)

lemma render_eq:
  "render a = (if attributes_ok a then Inr (join '' '' (attribute_parts a))
     else Inl (Errorf ''value contains a NUL byte''))"
  by (cases "ra_connection_limit a"; cases "ra_password a"; cases "ra_valid_until a = []")
    (simp_all add: render_def attributes_ok_def attribute_parts_def Literal_eq Let_def)

lemma render_Inr: "render a = Inr s \<longleftrightarrow> attributes_ok a \<and> s = join '' '' (attribute_parts a)"
  by (auto simp: render_eq)

lemma splits_flag:
  "w \<noteq> [] \<Longrightarrow> \<forall>c \<in> set w. word_char c \<Longrightarrow> splits (flag on w) [flag_word on w]"
  unfolding flag_def flag_word_def
  by (cases on) (simp_all add: splits_word, rule splits_word, simp_all add: word_char_code)

lemma digit_word_char: "is_digit c \<Longrightarrow> word_char c"
  by (simp add: word_char_def)

lemma splits_show_nat: "splits (show_nat n) [Kw (show_nat n)]"
  by (rule splits_word) (auto intro: digit_word_char dest: bspec [OF show_nat_digits])

lemma show_nat_head: "\<exists>c cs. show_nat n = c # cs \<and> is_digit c"
  by (cases "show_nat n") (use show_nat_digits [of n] in auto)

lemma splits_fmt_d: "splits (fmt_d n) (number_tokens (sint n))"
proof (cases "sint n < 0")
  case True
  define s where "s = show_nat (nat (- sint n))"
  have "s = show_nat (nat (- sint n))" by (rule s_def)
  then obtain c cs where s: "s = c # cs" "is_digit c" using show_nat_head by metis
  have minus: "sql_tokens (CHR ''-'' # s @ rest) = map_option (Cons (Sym CHR ''-'')) (sql_tokens (s @ rest))" for rest
    using s by (auto simp: sql_tokens_def word_char_code is_digit_code)
  have "splits s [Kw s]" unfolding s_def by (rule splits_show_nat)
  then have "splits (CHR ''-'' # s) [Sym CHR ''-'', Kw s]"
    using minus by (simp add: splits_def map_option_Cons_append)
  then show ?thesis using True by (simp add: fmt_d_def show_int_def number_tokens_def s_def)
next
  case False
  then show ?thesis using splits_show_nat by (simp add: fmt_d_def show_int_def number_tokens_def)
qed

lemma splits_keyword2:
  assumes "splits p ts" "w \<noteq> []" "\<forall>c \<in> set w. word_char c" "v \<noteq> []" "\<forall>c \<in> set v. word_char c"
  shows "splits (w @ CHR '' '' # v @ CHR '' '' # p) (Kw w # Kw v # ts)"
  by (rule splits_keyword [OF splits_keyword [OF assms(1,4,5)] assms(2,3)])

lemma splits_limit: "splits (''CONNECTION LIMIT '' @ fmt_d n) ([Kw ''CONNECTION'', Kw ''LIMIT''] @ number_tokens (sint n))"
  using splits_keyword2 [OF splits_fmt_d [of n], of "''CONNECTION''" "''LIMIT''"]
  by (simp add: word_char_code)

lemma splits_until: "nul_free v \<Longrightarrow> splits (''VALID UNTIL '' @ literal_text v) [Kw ''VALID'', Kw ''UNTIL'', Str v]"
  using splits_keyword2 [OF splits_literal [of v], of "''VALID''" "''UNTIL''"]
  by (simp add: word_char_code)

lemma splits_password: "nul_free p \<Longrightarrow> splits (''PASSWORD '' @ literal_text p) [Kw ''PASSWORD'', Str p]"
  using splits_keyword [OF splits_literal [of p], of "''PASSWORD''"]
  by (simp add: word_char_code)

lemma splits_attributes:
  assumes "attributes_ok a"
  shows "list_all2 splits (attribute_parts a) (attribute_clauses a)"
  unfolding attribute_parts_def attribute_clauses_def
proof (intro list_all2_appendI)
  show "list_all2 splits
     [flag (ra_login a) ''LOGIN'', flag (ra_superuser a) ''SUPERUSER'',
      flag (ra_create_db a) ''CREATEDB'', flag (ra_create_role a) ''CREATEROLE'',
      flag (ra_inherit a) ''INHERIT'']
     [[flag_word (ra_login a) ''LOGIN''], [flag_word (ra_superuser a) ''SUPERUSER''],
      [flag_word (ra_create_db a) ''CREATEDB''], [flag_word (ra_create_role a) ''CREATEROLE''],
      [flag_word (ra_inherit a) ''INHERIT'']]"
    by (simp add: splits_flag word_char_code)
qed (use assms in \<open>auto simp: attributes_ok_def splits_password [simplified] splits_until [simplified]
      splits_limit [simplified] split: option.splits\<close>)

lemma tokens_render: "render a = Inr s \<Longrightarrow> splits s (attribute_tokens a)"
  unfolding attribute_tokens_def render_Inr
  by (auto intro: splits_join_space splits_attributes)

lemma splits_role_statement:
  assumes "sanitize_law l" "nul_free name" "render attrs = Inr s"
    and w: "w \<noteq> []" "\<forall>c \<in> set w. word_char c" "v \<noteq> []" "\<forall>c \<in> set v. word_char c"
  shows "splits (w @ CHR '' '' # v @ CHR '' '' # Identifier l name @ CHR '' '' # s)
    (Kw w # Kw v # Ident name # attribute_tokens attrs)"
proof -
  have "splits (Identifier l name @ CHR '' '' # s) (Ident name # attribute_tokens attrs)"
    unfolding splits_def
    using assms(1,2) splitsD [OF tokens_render [OF assms(3)]]
    by (simp add: tokens_Identifier sql_tokens_space map_option_Cons_append)
  then show ?thesis by (rule splits_keyword2 [OF _ w])
qed

lemma show_nat_inject: "show_nat m = show_nat n \<longleftrightarrow> m = n"
  by (metis nat_of_digits_show)

lemma number_tokens_inject:
  assumes "number_tokens i @ us = number_tokens j @ vs"
  shows "i = j \<and> us = vs"
  using assms by (auto simp: number_tokens_def show_nat_inject eq_nat_nat_iff split: if_splits)

lemma number_tokens_word: "number_tokens i \<noteq> [] "
  by (simp add: number_tokens_def)

lemma flag_word_inject: "flag_word a w = flag_word b w \<longleftrightarrow> a = b"
  by (auto simp: flag_word_def dest: arg_cong [where f = length] split: if_splits)

lemma attribute_tokens_inject:
  assumes "attribute_tokens a = attribute_tokens b"
  shows "a = b"
proof -
  define tail where "tail r = (if ra_valid_until r = [] then [] else [Kw ''VALID'', Kw ''UNTIL'', Str (ra_valid_until r)])
     @ (case ra_password r of None \<Rightarrow> [] | Some p \<Rightarrow> [Kw ''PASSWORD'', Str p])" for r :: role_attributes
  define lim where "lim r = (case ra_connection_limit r of None \<Rightarrow> []
     | Some n \<Rightarrow> [Kw ''CONNECTION'', Kw ''LIMIT''] @ number_tokens (sint n))" for r :: role_attributes
  have toks: "attribute_tokens r = flag_word (ra_login r) ''LOGIN'' # flag_word (ra_superuser r) ''SUPERUSER''
      # flag_word (ra_create_db r) ''CREATEDB'' # flag_word (ra_create_role r) ''CREATEROLE''
      # flag_word (ra_inherit r) ''INHERIT'' # lim r @ tail r" for r
    by (simp add: attribute_tokens_def attribute_clauses_def lim_def tail_def split: option.splits)
  have flags: "ra_login a = ra_login b" "ra_superuser a = ra_superuser b" "ra_create_db a = ra_create_db b"
      "ra_create_role a = ra_create_role b" "ra_inherit a = ra_inherit b" and rest: "lim a @ tail a = lim b @ tail b"
    using assms by (simp_all add: toks flag_word_inject)
  have head: "tail r = [] \<or> (\<exists>w ts. tail r = Kw w # ts \<and> w \<noteq> ''CONNECTION'')" for r
    by (auto simp: tail_def split: option.splits)
  have "ra_connection_limit a = ra_connection_limit b \<and> tail a = tail b"
  proof (cases "ra_connection_limit a"; cases "ra_connection_limit b")
    fix m n assume mn: "ra_connection_limit a = Some m" "ra_connection_limit b = Some n"
    then have "number_tokens (sint m) @ tail a = number_tokens (sint n) @ tail b"
      using rest by (simp add: lim_def)
    from number_tokens_inject [OF this] show ?thesis using mn by (simp add: word_eq_iff_signed)
  qed (use rest head [of a] head [of b] in \<open>auto simp: lim_def\<close>)
  moreover have "ra_valid_until a = ra_valid_until b \<and> ra_password a = ra_password b" if "tail a = tail b"
    using that by (auto simp: tail_def split: option.splits if_splits)
  ultimately show ?thesis using flags by (simp add: role_attributes.equality)
qed

section \<open>Server secrets\<close>

lemma option_keys_eq:
  "option_keys options keys = (if \<forall>k \<in> set (map fst options). optionName k
     then Inr (keys @ map fst options)
     else Inl (Errorf (''option '' @ fmt_q (hd (filter (\<lambda>k. \<not> optionName k) (map fst options)))
       @ '' is not a valid option name'')))"
  by (induction options keys rule: option_keys.induct) auto

lemma option_parts_eq:
  "option_parts options ks parts = (if \<forall>k \<in> set ks. nul_free (option_value options k)
     then Inr (parts @ map (\<lambda>k. to_upper k @ '' '' @ literal_text (option_value options k)) ks)
     else Inl (Errorf ''value contains a NUL byte''))"
  by (induction options ks parts rule: option_parts.induct) (auto simp: Literal_eq)

definition options_ok :: "gomap \<Rightarrow> bool" where
  "options_ok options \<longleftrightarrow> (\<forall>k \<in> fst ` set options. optionName k \<and> nul_free (option_value options k))"

definition secret_parts :: "string \<Rightarrow> string \<Rightarrow> gomap \<Rightarrow> string list" where
  "secret_parts secretType scope options = (''TYPE '' @ secretType)
     # (if scope = [] then [] else [''SCOPE '' @ literal_text scope])
     @ map (\<lambda>k. to_upper k @ '' '' @ literal_text (option_value options k)) (sort (map fst options))"

text \<open>The clauses a reader finds: type, scope if any, the options in sorted key order.\<close>

definition secret_clauses :: "string \<Rightarrow> string \<Rightarrow> gomap \<Rightarrow> token list list" where
  "secret_clauses secretType scope options = [Kw ''TYPE'', Kw secretType]
     # (if scope = [] then [] else [[Kw ''SCOPE'', Str scope]])
     @ map (\<lambda>k. [Kw (to_upper k), Str (option_value options k)]) (sort (map fst options))"

lemma CreateSecret_Inr:
  "CreateSecret l name secretType scope options = Inr stmt \<longleftrightarrow>
     options_ok options \<and> nul_free scope
     \<and> stmt = ''CREATE OR REPLACE PERSISTENT SECRET '' @ Identifier l name
         @ '' ('' @ join '', '' (secret_parts secretType scope options) @ '')''"
  by (cases "scope = []")
    (auto simp: CreateSecret_def option_keys_eq option_parts_eq options_ok_def secret_parts_def
      Literal_eq Let_def split: if_splits sum.splits)

lemma word_char_upper: "word_char c \<Longrightarrow> word_char (upper_char c)"
  by (auto simp: word_char_code upper_char_def Let_def less_eq_char_def)

lemma optionName_chars: "optionName k \<Longrightarrow> k \<noteq> [] \<and> (\<forall>c \<in> set k. word_char c)"
  by (cases k) auto

lemma splits_option:
  "optionName k \<Longrightarrow> nul_free v \<Longrightarrow> splits (to_upper k @ '' '' @ literal_text v) [Kw (to_upper k), Str v]"
  using splits_keyword [OF splits_literal [of v], of "to_upper k"] optionName_chars [of k]
  by (auto simp: to_upper_def word_char_upper)

lemma splits_type:
  "t \<noteq> [] \<Longrightarrow> \<forall>c \<in> set t. word_char c \<Longrightarrow> splits (''TYPE '' @ t) [Kw ''TYPE'', Kw t]"
  using splits_keyword [OF splits_word [of t], of "''TYPE''"] by (simp add: word_char_code)

lemma splits_scope: "nul_free v \<Longrightarrow> splits (''SCOPE '' @ literal_text v) [Kw ''SCOPE'', Str v]"
  using splits_keyword [OF splits_literal [of v], of "''SCOPE''"] by (simp add: word_char_code)

lemma splits_secret_parts:
  assumes "options_ok options" "nul_free scope" "t \<noteq> []" "\<forall>c \<in> set t. word_char c"
  shows "list_all2 splits (secret_parts t scope options) (secret_clauses t scope options)"
proof -
  have "list_all2 splits
      (map (\<lambda>k. to_upper k @ '' '' @ literal_text (option_value options k)) (sort (map fst options)))
      (map (\<lambda>k. [Kw (to_upper k), Str (option_value options k)]) (sort (map fst options)))"
    using assms(1) by (auto simp: list.rel_map options_ok_def intro!: list.rel_refl_strong
        splits_option [simplified])
  then show ?thesis
    using splits_type [OF assms(3,4)] splits_scope [OF assms(2)]
    by (simp add: secret_parts_def secret_clauses_def)
qed

lemma sql_tokens_word_space:
  "w \<noteq> [] \<Longrightarrow> \<forall>c \<in> set w. word_char c \<Longrightarrow>
    sql_tokens (w @ CHR '' '' # rest) = map_option (Cons (Kw w)) (sql_tokens rest)"
  by (simp add: sql_tokens_word_append sql_tokens_space word_char_code)

section \<open>What the statements say\<close>

lemma tokens_role_statement:
  assumes "sanitize_law l" "nul_free name"
  shows "(CreateRole l name attrs = Inr stmt \<longrightarrow>
      sql_tokens stmt = Some (Kw ''CREATE'' # Kw ''ROLE'' # Ident name # attribute_tokens attrs))
    \<and> (AlterRole l name attrs = Inr stmt \<longrightarrow>
      sql_tokens stmt = Some (Kw ''ALTER'' # Kw ''ROLE'' # Ident name # attribute_tokens attrs))"
proof (intro conjI impI)
  assume "CreateRole l name attrs = Inr stmt"
  then obtain s where s: "render attrs = Inr s" "stmt = ''CREATE ROLE '' @ Identifier l name @ '' '' @ s"
    by (auto simp: CreateRole_def split: sum.splits)
  show "sql_tokens stmt = Some (Kw ''CREATE'' # Kw ''ROLE'' # Ident name # attribute_tokens attrs)"
    using splits_end [OF splits_role_statement [OF assms s(1), of "''CREATE''" "''ROLE''"]] s(2)
    by (simp add: word_char_code)
next
  assume "AlterRole l name attrs = Inr stmt"
  then obtain s where s: "render attrs = Inr s" "stmt = ''ALTER ROLE '' @ Identifier l name @ '' '' @ s"
    by (auto simp: AlterRole_def split: sum.splits)
  show "sql_tokens stmt = Some (Kw ''ALTER'' # Kw ''ROLE'' # Ident name # attribute_tokens attrs)"
    using splits_end [OF splits_role_statement [OF assms s(1), of "''ALTER''" "''ROLE''"]] s(2)
    by (simp add: word_char_code)
qed

lemma role_statement_refused:
  "(\<exists>stmt. CreateRole l name attrs = Inr stmt) \<longleftrightarrow> attributes_ok attrs"
  "(\<exists>stmt. AlterRole l name attrs = Inr stmt) \<longleftrightarrow> attributes_ok attrs"
  by (simp_all add: CreateRole_def AlterRole_def render_eq)

text \<open>C17. For a role name without a NUL byte, a rendered \<open>CREATE ROLE\<close> or \<open>ALTER ROLE\<close> statement
  reads as exactly one command: the two keywords, the role's own name as one identifier, and
  the clauses of the attributes with every value as one string token, so no value can end its
  quotes and add text of its own; and it is refused exactly when the expiry or the password
  holds a NUL byte. The five flags are there in their positive or negative form; an absent
  connection limit, an empty expiry and an absent password give no clause at all, which is
  not what the guide says of the first two.\<close>

theorem role_statement_tokens:
  assumes "sanitize_law l" "nul_free name"
  shows "(CreateRole l name attrs = Inr stmt \<longrightarrow>
      sql_tokens stmt = Some (Kw ''CREATE'' # Kw ''ROLE'' # Ident name # attribute_tokens attrs))
    \<and> (AlterRole l name attrs = Inr stmt \<longrightarrow>
      sql_tokens stmt = Some (Kw ''ALTER'' # Kw ''ROLE'' # Ident name # attribute_tokens attrs))
    \<and> ((\<exists>stmt. CreateRole l name attrs = Inr stmt) \<longleftrightarrow> attributes_ok attrs)
    \<and> ((\<exists>stmt. AlterRole l name attrs = Inr stmt) \<longleftrightarrow> attributes_ok attrs)"
  using tokens_role_statement [OF assms, of attrs stmt] role_statement_refused [of l name attrs] by blast

text \<open>C29. The rendered attribute list determines the attributes: two roles with the same
  text have the same flags, limit, expiry and password, so no attribute is dropped.\<close>

theorem render_inject: "render a = Inr s \<Longrightarrow> render b = Inr s \<Longrightarrow> a = b"
  by (metis attribute_tokens_inject option.inject splits_end tokens_render)

lemma tokens_CreateSecret:
  assumes "sanitize_law l" "nul_free name" "t \<noteq> []" "\<forall>c \<in> set t. word_char c"
    and stmt: "CreateSecret l name t scope options = Inr stmt"
  shows "sql_tokens stmt = Some (map Kw [''CREATE'', ''OR'', ''REPLACE'', ''PERSISTENT'', ''SECRET'']
    @ Ident name # Sym CHR ''('' # comma_tokens (secret_clauses t scope options) @ [Sym CHR '')''])"
proof -
  from stmt have ok: "options_ok options" "nul_free scope" and eq: "stmt =
      ''CREATE OR REPLACE PERSISTENT SECRET '' @ Identifier l name
        @ '' ('' @ join '', '' (secret_parts t scope options) @ '')''"
    by (simp_all add: CreateSecret_Inr)
  have "splits (join '', '' (secret_parts t scope options)) (comma_tokens (secret_clauses t scope options))"
    by (rule splits_join_comma [OF splits_secret_parts [OF ok assms(3,4)]])
  from splitsD [OF this, of "'')''"]
  have "sql_tokens (join '', '' (secret_parts t scope options) @ '')'') =
      Some (comma_tokens (secret_clauses t scope options) @ [Sym CHR '')''])"
    by (simp add: token_simps)
  then have "sql_tokens ('' ('' @ join '', '' (secret_parts t scope options) @ '')'') =
      Some (Sym CHR ''('' # comma_tokens (secret_clauses t scope options) @ [Sym CHR '')''])"
    by (simp add: token_simps)
  then have "sql_tokens (Identifier l name @ '' ('' @ join '', '' (secret_parts t scope options) @ '')'') =
      Some (Ident name # Sym CHR ''('' # comma_tokens (secret_clauses t scope options) @ [Sym CHR '')''])"
    by (simp add: tokens_Identifier assms(1,2))
  then show ?thesis by (simp add: eq token_simps)
qed

text \<open>C28. A \<open>CREATE SECRET\<close> statement reads as one command with the secret's name as one
  identifier and one clause per option, in sorted key order, each value one string token.\<close>

theorem CreateSecret_tokens:
  assumes "sanitize_law l" "nul_free name" "t \<noteq> []" "\<forall>c \<in> set t. word_char c"
    and stmt: "CreateSecret l name t scope options = Inr stmt"
  shows "sql_tokens stmt = Some (map Kw [''CREATE'', ''OR'', ''REPLACE'', ''PERSISTENT'', ''SECRET'']
    @ Ident name # Sym CHR ''('' # comma_tokens (secret_clauses t scope options) @ [Sym CHR '')''])"
  by (rule tokens_CreateSecret [OF assms])

text \<open>C30. The statement does not depend on the order in which the option map is visited, and
  it is refused exactly when an option name is not a plain identifier or a value or the scope
  holds a NUL byte.\<close>

theorem CreateSecret_deterministic:
  assumes "distinct (map fst options)" "mset options' = mset options"
  shows "(CreateSecret l name t scope options = Inr stmt \<longleftrightarrow> CreateSecret l name t scope options' = Inr stmt)
    \<and> ((\<exists>e. CreateSecret l name t scope options = Inl e) \<longleftrightarrow>
      (\<exists>(k, v) \<in> set options. \<not> optionName k \<or> \<not> nul_free v) \<or> \<not> nul_free scope)"
proof (rule conjI)
  have d: "distinct (map fst options')"
    using assms by (metis distinct_map mset_eq_imp_distinct_iff mset_map)
  have set: "set options' = set options" using assms(2) by (metis set_mset_mset)
  have "map_of options' = map_of options" using map_of_inject_set [OF d assms(1)] set by simp
  then have val: "option_value options' = option_value options" by (simp add: option_value_def fun_eq_iff)
  have keys: "sort (map fst options') = sort (map fst options)"
    using assms(2) by (metis mset_map sorted_list_of_multiset_mset)
  show "CreateSecret l name t scope options = Inr stmt \<longleftrightarrow> CreateSecret l name t scope options' = Inr stmt"
    by (simp add: CreateSecret_Inr options_ok_def secret_parts_def val keys set)
  have "option_value options k = v" if "(k, v) \<in> set options" for k v
    using that assms(1) by (simp add: option_value_def)
  then have "options_ok options \<longleftrightarrow> (\<forall>(k, v) \<in> set options. optionName k \<and> nul_free v)"
    by (force simp: options_ok_def)
  moreover have "(\<exists>e. r = Inl e) \<longleftrightarrow> \<not> (\<exists>s. r = Inr s)" for r :: "go_error + string"
    by (cases r) simp_all
  ultimately show "(\<exists>e. CreateSecret l name t scope options = Inl e) \<longleftrightarrow>
      (\<exists>(k, v) \<in> set options. \<not> optionName k \<or> \<not> nul_free v) \<or> \<not> nul_free scope"
    by (simp add: CreateSecret_Inr case_prod_beta) blast
qed

lemma tokens_SecretExists:
  "SecretExists name = Inr q \<Longrightarrow> sql_tokens q = Some (map Kw [''SELECT'', ''1'', ''FROM'', ''sdb_secrets''] @
    Sym CHR ''('' # Sym CHR '')'' # map Kw [''WHERE'', ''name''] @ [Sym CHR ''='', Str name])"
  by (auto simp: SecretExists_def Literal_eq token_simps tokens_quoted split: if_splits)

lemma tokens_RoleMemberships:
  "RoleMemberships name = Inr q \<Longrightarrow> sql_tokens q = Some (
    [Kw ''SELECT'', Kw ''r'', Sym CHR ''.'', Kw ''rolname'', Kw ''FROM'', Kw ''pg_auth_members'', Kw ''am'',
     Kw ''JOIN'', Kw ''pg_roles'', Kw ''r'', Kw ''ON'', Kw ''r'', Sym CHR ''.'', Kw ''oid'', Sym CHR ''='',
     Kw ''am'', Sym CHR ''.'', Kw ''roleid'',
     Kw ''JOIN'', Kw ''pg_roles'', Kw ''m'', Kw ''ON'', Kw ''m'', Sym CHR ''.'', Kw ''oid'', Sym CHR ''='',
     Kw ''am'', Sym CHR ''.'', Kw ''member'',
     Kw ''WHERE'', Kw ''m'', Sym CHR ''.'', Kw ''rolname'', Sym CHR ''='', Str name,
     Kw ''ORDER'', Kw ''BY'', Kw ''1''])"
  by (auto simp: RoleMemberships_def Literal_eq token_simps tokens_quoted split: if_splits)

text \<open>C31. The statements that only carry names read as fixed keywords and the names, each one
  identifier or string token, for names without a NUL byte: the database, role, secret and
  membership statements, and the queries for databases, roles, secrets and memberships.\<close>

theorem name_statement_tokens:
  assumes "sanitize_law l" "nul_free name" "nul_free grp"
  shows "sql_tokens (CreateDatabase l name) =
      Some (map Kw [''CREATE'', ''DATABASE'', ''IF'', ''NOT'', ''EXISTS''] @ [Ident name])
    \<and> sql_tokens (DropDatabase l name) = Some [Kw ''DROP'', Kw ''DATABASE'', Ident name]
    \<and> sql_tokens (DropRole l name) = Some [Kw ''DROP'', Kw ''ROLE'', Ident name]
    \<and> sql_tokens (DropSecret l name) = Some [Kw ''DROP'', Kw ''SECRET'', Ident name]
    \<and> sql_tokens (GrantMembership l grp name) = Some [Kw ''GRANT'', Ident grp, Kw ''TO'', Ident name]
    \<and> sql_tokens (RevokeMembership l grp name) = Some [Kw ''REVOKE'', Ident grp, Kw ''FROM'', Ident name]
    \<and> map_sum id sql_tokens (DatabaseExists name) = Inr (Some (map Kw
        [''SELECT'', ''1'', ''FROM'', ''pg_database'', ''WHERE'', ''datname''] @ [Sym CHR ''='', Str name]))
    \<and> map_sum id sql_tokens (RoleExists name) = Inr (Some (map Kw
        [''SELECT'', ''1'', ''FROM'', ''pg_roles'', ''WHERE'', ''rolname''] @ [Sym CHR ''='', Str name]))
    \<and> map_sum id sql_tokens (SecretExists name) = Inr (Some (map Kw
        [''SELECT'', ''1'', ''FROM'', ''sdb_secrets''] @ Sym CHR ''('' # Sym CHR '')'' #
        map Kw [''WHERE'', ''name''] @ [Sym CHR ''='', Str name]))
    \<and> map_sum id sql_tokens (RoleMemberships name) = Inr (Some (
        [Kw ''SELECT'', Kw ''r'', Sym CHR ''.'', Kw ''rolname'', Kw ''FROM'', Kw ''pg_auth_members'', Kw ''am'',
         Kw ''JOIN'', Kw ''pg_roles'', Kw ''r'', Kw ''ON'', Kw ''r'', Sym CHR ''.'', Kw ''oid'', Sym CHR ''='',
         Kw ''am'', Sym CHR ''.'', Kw ''roleid'',
         Kw ''JOIN'', Kw ''pg_roles'', Kw ''m'', Kw ''ON'', Kw ''m'', Sym CHR ''.'', Kw ''oid'', Sym CHR ''='',
         Kw ''am'', Sym CHR ''.'', Kw ''member'',
         Kw ''WHERE'', Kw ''m'', Sym CHR ''.'', Kw ''rolname'', Sym CHR ''='', Str name,
         Kw ''ORDER'', Kw ''BY'', Kw ''1'']))"
proof -
  obtain q q' where qs: "SecretExists name = Inr q" "RoleMemberships name = Inr q'"
    using assms(2) by (simp add: SecretExists_def RoleMemberships_def Literal_eq)
  have "sql_tokens (CreateDatabase l name) =
      Some (map Kw [''CREATE'', ''DATABASE'', ''IF'', ''NOT'', ''EXISTS''] @ [Ident name])
    \<and> sql_tokens (DropDatabase l name) = Some [Kw ''DROP'', Kw ''DATABASE'', Ident name]
    \<and> sql_tokens (DropRole l name) = Some [Kw ''DROP'', Kw ''ROLE'', Ident name]
    \<and> sql_tokens (DropSecret l name) = Some [Kw ''DROP'', Kw ''SECRET'', Ident name]
    \<and> sql_tokens (GrantMembership l grp name) = Some [Kw ''GRANT'', Ident grp, Kw ''TO'', Ident name]
    \<and> sql_tokens (RevokeMembership l grp name) = Some [Kw ''REVOKE'', Ident grp, Kw ''FROM'', Ident name]
    \<and> map_sum id sql_tokens (DatabaseExists name) = Inr (Some (map Kw
        [''SELECT'', ''1'', ''FROM'', ''pg_database'', ''WHERE'', ''datname''] @ [Sym CHR ''='', Str name]))
    \<and> map_sum id sql_tokens (RoleExists name) = Inr (Some (map Kw
        [''SELECT'', ''1'', ''FROM'', ''pg_roles'', ''WHERE'', ''rolname''] @ [Sym CHR ''='', Str name]))"
    using assms
    by (simp add: CreateDatabase_def DropDatabase_def DropRole_def DropSecret_def GrantMembership_def
        RevokeMembership_def DatabaseExists_def RoleExists_def Literal_eq token_simps tokens_quoted)
  with tokens_SecretExists [OF qs(1)] tokens_RoleMemberships [OF qs(2)] show ?thesis
    by (simp add: qs)
qed

theorem name_statement_tokens_witness:
  "sanitize_law plain_lib \<and> nul_free ''x; DROP'' \<and>
    sql_tokens (DropRole plain_lib ''x; DROP'') = Some [Kw ''DROP'', Kw ''ROLE'', Ident ''x; DROP'']"
  using name_statement_tokens [OF plain_lib_sanitize, of "''x; DROP''" "[]"] plain_lib_sanitize
  by (simp add: nul_free_def)

definition sample_attributes :: role_attributes where
  "sample_attributes = \<lparr>ra_login = True, ra_superuser = False, ra_create_db = False,
     ra_create_role = False, ra_inherit = True, ra_connection_limit = Some 5,
     ra_valid_until = ''2030-01-01'', ra_password = Some [CHR ''p'', CHR 0x27, CHR ''w'']\<rparr>"

lemma sample_render: "\<exists>s. render sample_attributes = Inr s"
  by (simp add: render_eq attributes_ok_def sample_attributes_def nul_free_def)

theorem role_statement_tokens_witness:
  "\<exists>stmt. sanitize_law plain_lib \<and> nul_free ''app'' \<and>
    CreateRole plain_lib ''app'' sample_attributes = Inr stmt \<and>
    sql_tokens stmt = Some (Kw ''CREATE'' # Kw ''ROLE'' # Ident ''app'' # attribute_tokens sample_attributes)"
proof -
  obtain s where "render sample_attributes = Inr s" using sample_render by blast
  then have stmt: "CreateRole plain_lib ''app'' sample_attributes =
      Inr (''CREATE ROLE '' @ Identifier plain_lib ''app'' @ '' '' @ s)"
    by (simp add: CreateRole_def)
  have "nul_free ''app''" by (simp add: nul_free_def)
  from role_statement_tokens [OF plain_lib_sanitize this, of sample_attributes] stmt plain_lib_sanitize this
  show ?thesis by blast
qed

theorem render_inject_witness:
  "\<exists>s. render sample_attributes = Inr s \<and> render (sample_attributes\<lparr>ra_login := True\<rparr>) = Inr s \<and>
    sample_attributes = sample_attributes\<lparr>ra_login := True\<rparr>"
proof -
  obtain s where s: "render sample_attributes = Inr s" using sample_render by blast
  moreover have "render (sample_attributes\<lparr>ra_login := True\<rparr>) = Inr s"
    using s by (simp add: sample_attributes_def)
  ultimately show ?thesis using render_inject by blast
qed

definition sample_options :: gomap where
  "sample_options = [(''SECRET'', ''sec''), (''key_id'', ''id''), (''REGION'', ''eu'')]"

lemma sample_secret: "\<exists>stmt. CreateSecret plain_lib ''s3main'' ''s3'' ''s3://b/'' sample_options = Inr stmt"
  unfolding CreateSecret_Inr
  by (auto simp: sample_options_def options_ok_def option_value_def nul_free_def word_char_code is_digit_code)

theorem CreateSecret_tokens_witness:
  "\<exists>stmt. CreateSecret plain_lib ''s3main'' ''s3'' ''s3://b/'' sample_options = Inr stmt \<and>
    sql_tokens stmt = Some (map Kw [''CREATE'', ''OR'', ''REPLACE'', ''PERSISTENT'', ''SECRET'']
      @ Ident ''s3main'' # Sym CHR ''('' # comma_tokens (secret_clauses ''s3'' ''s3://b/'' sample_options)
      @ [Sym CHR '')''])"
proof -
  obtain stmt where stmt: "CreateSecret plain_lib ''s3main'' ''s3'' ''s3://b/'' sample_options = Inr stmt"
    using sample_secret by blast
  with CreateSecret_tokens [OF plain_lib_sanitize _ _ _ stmt] show ?thesis
    by (auto simp: nul_free_def word_char_code)
qed

theorem CreateSecret_deterministic_witness:
  "distinct (map fst sample_options) \<and> mset (rev sample_options) = mset sample_options \<and>
    (\<exists>stmt. CreateSecret plain_lib ''s3main'' ''s3'' ''s3://b/'' sample_options = Inr stmt \<and>
      CreateSecret plain_lib ''s3main'' ''s3'' ''s3://b/'' (rev sample_options) = Inr stmt)"
proof -
  have d: "distinct (map fst sample_options)" by (simp add: sample_options_def)
  have m: "mset (rev sample_options) = mset sample_options" by simp
  obtain stmt where "CreateSecret plain_lib ''s3main'' ''s3'' ''s3://b/'' sample_options = Inr stmt"
    using sample_secret by blast
  with CreateSecret_deterministic [OF d m] d m show ?thesis by blast
qed

text \<open>Option names that differ only in case are two entries of the map and become the same
  option twice in one statement, the inline one and the one of the Kubernetes Secret among
  them, so that "the Secret wins" does not hold for them.\<close>

lemma CreateSecret_case_collision:
  "CreateSecret plain_lib ''lake'' ''s3'' [] [(''region'', ''a''), (''REGION'', ''b'')] =
    Inr (''CREATE OR REPLACE PERSISTENT SECRET '' @ Identifier plain_lib ''lake'' @
      '' (TYPE s3, REGION '' @ literal_text ''b'' @ '', REGION '' @ literal_text ''a'' @ '')'')"
proof -
  have "to_upper ''region'' = ''REGION''" "to_upper ''REGION'' = ''REGION''" by code_simp+
  then show ?thesis
    unfolding CreateSecret_Inr
    by (simp add: options_ok_def option_value_def nul_free_def word_char_code is_digit_code
        secret_parts_def less_char_def)
qed

end
