(* ===== verification/Dependent.thy ===== *)
theory Dependent
  imports Workload Statements
begin

text \<open>
  internal/controller/dependent.go: what the reconcilers of Database, DatabaseRole and
  ServerSecret share. Opening a session, finalizers, the Ready condition. The interfaces to
  the three reconcilers are two locales: \<open>drop_operation\<close>, the server-side drop a finalizer
  runs, and \<open>dependent_controller\<close>, an object kind with its apply step; each of the three
  theories that follow provides an interpretation of both.
\<close>

section \<open>Constants and the parameters of a reconciler\<close>

definition reasonClusterNotFound :: string where "reasonClusterNotFound = ''ClusterNotFound''"
definition reasonClusterNotReady :: string where "reasonClusterNotReady = ''ClusterNotReady''"
definition reasonConnectionFailed :: string where "reasonConnectionFailed = ''ConnectionFailed''"
definition reasonSQLError :: string where "reasonSQLError = ''SQLError''"
definition reasonApplied :: string where "reasonApplied = ''Applied''"
definition reasonPasswordSecretMissing :: string where
  "reasonPasswordSecretMissing = ''PasswordSecretMissing''"
definition reasonValuesSecretMissing :: string where
  "reasonValuesSecretMissing = ''ValuesSecretMissing''"
definition reasonInvalidSpec :: string where "reasonInvalidSpec = ''InvalidSpec''"
definition reasonSecretMissing :: string where "reasonSecretMissing = ''SecretMissing''"
definition reasonSecretKeyMissing :: string where "reasonSecretKeyMissing = ''SecretKeyMissing''"

record 'e dependents =
  dep_client :: "'e client"
  dep_connector :: "'e connector"

text \<open>
  The triple \<open>(value, *blocked, error)\<close> of which every return sets one: a value, a reason to
  retry later, or an error.
\<close>

datatype 'a attempt = Got 'a | BlockedOn blocked | Failed go_error

lemma wp_attempt [wp_intro]:
  "(\<And>x. r = Got x \<Longrightarrow> wp step (m x) Q s) \<Longrightarrow> (\<And>b. r = BlockedOn b \<Longrightarrow> wp step (n b) Q s) \<Longrightarrow>
    (\<And>e. r = Failed e \<Longrightarrow> wp step (k e) Q s) \<Longrightarrow>
    wp step (case r of Got x \<Rightarrow> m x | BlockedOn b \<Rightarrow> n b | Failed e \<Rightarrow> k e) Q s"
  by (cases r) auto

lemma emits_attempt [emits_intro]:
  "(\<And>x. r = Got x \<Longrightarrow> emits (m x) Q) \<Longrightarrow> (\<And>b. r = BlockedOn b \<Longrightarrow> emits (n b) Q) \<Longrightarrow>
    (\<And>e. r = Failed e \<Longrightarrow> emits (k e) Q) \<Longrightarrow>
    emits (case r of Got x \<Rightarrow> m x | BlockedOn b \<Rightarrow> n b | Failed e \<Rightarrow> k e) Q"
  by (cases r) auto

text \<open>\<open>defer d()\<close>: the deferred call runs after the body, whatever the body's result.\<close>

definition deferring :: "('e, 'u) eff \<Rightarrow> ('e, 'a) eff \<Rightarrow> ('e, 'a) eff" where
  "deferring d body = body \<bind> (\<lambda>r. d \<bind> (\<lambda>_. ret r))"

section \<open>Opening a session\<close>

definition superuserPassword :: "'e dependents \<Rightarrow> serenedb \<Rightarrow> ('e, string attempt) eff" where
  "superuserPassword d db = get_secret (dep_client d) (Namespace db) (SecretName db) \<bind> (\<lambda>r. case r of
     Inl err \<Rightarrow>
       if is_not_found err then ret (BlockedOn \<lparr>reason = reasonSecretMissing,
         message = ''superuser secret '' @ fmt_q (SecretName db) @ '' not found''\<rparr>)
       else ret (Failed (Wrap ''get superuser secret'' err))
   | Inr secret \<Rightarrow> (case map_of (sec_data secret) (PasswordKey db) of
       None \<Rightarrow> ret (BlockedOn \<lparr>reason = reasonSecretKeyMissing,
         message = ''superuser secret '' @ fmt_q (om_name (sec_meta secret)) @ '' has no key '' @
           fmt_q (PasswordKey db)\<rparr>)
     | Some password \<Rightarrow> ret (Got password)))"

definition session_target :: "serenedb \<Rightarrow> string \<Rightarrow> target" where
  "session_target db password = \<lparr>tg_host = Host db, tg_port = PostgresPort db, tg_user = ''postgres'',
     tg_password = password, tg_tls = tls_enabled (sp_tls (db_spec db))\<rparr>"

definition openSession :: "lib \<Rightarrow> 'e dependents \<Rightarrow> string \<Rightarrow> string \<Rightarrow> ('e, 'e session attempt) eff" where
  "openSession l d namespace clusterName = get_serenedb (dep_client d) namespace clusterName \<bind> (\<lambda>r. case r of
     Inl err \<Rightarrow>
       if is_not_found err then ret (BlockedOn \<lparr>reason = reasonClusterNotFound,
         message = ''serenedb '' @ fmt_q clusterName @ '' not found''\<rparr>)
       else ret (Failed (Wrap ''get serenedb'' err))
   | Inr db \<Rightarrow>
       if \<not> is_status_condition_true l (st_conditions (db_status db)) ConditionReady then
         ret (BlockedOn \<lparr>reason = reasonClusterNotReady,
           message = ''serenedb '' @ fmt_q clusterName @ '' is not ready''\<rparr>)
       else superuserPassword d db \<bind> (\<lambda>p. case p of
           Got password \<Rightarrow> connect (dep_connector d) (session_target db password) \<bind> (\<lambda>c. case c of
               Inl err \<Rightarrow> ret (BlockedOn \<lparr>reason = reasonConnectionFailed, message = error_text err\<rparr>)
             | Inr session \<Rightarrow> ret (Got session))
         | BlockedOn b \<Rightarrow> ret (BlockedOn b)
         | Failed err \<Rightarrow> ret (Failed err)))"

section \<open>Finalizers\<close>

definition clusterGone :: "'e dependents \<Rightarrow> string \<Rightarrow> string \<Rightarrow> ('e, go_error + bool) eff" where
  "clusterGone d namespace clusterName = get_serenedb (dep_client d) namespace clusterName \<bind> (\<lambda>r. case r of
     Inl err \<Rightarrow> if is_not_found err then ret (Inr True) else ret (Inl (Wrap ''get serenedb'' err))
   | Inr db \<Rightarrow> ret (Inr (\<not> IsZero (om_deletion_timestamp (db_meta db)))))"

text \<open>\<open>client.Object\<close> as the functions of this file use it: the metadata and \<open>Update\<close>.\<close>

record ('e, 'o) object_ops =
  ob_wrap :: "'o \<Rightarrow> api_object"
  ob_meta :: "'o \<Rightarrow> object_meta"
  ob_with_meta :: "'o \<Rightarrow> object_meta \<Rightarrow> 'o"
  ob_update :: "'o \<Rightarrow> 'e \<Rightarrow> go_error option \<times> 'e"

definition update_object :: "('e, 'o) object_ops \<Rightarrow> 'o \<Rightarrow> ('e, go_error option) eff" where
  "update_object ops obj = call (ob_update ops obj) (UpdatedObject (ob_wrap ops obj))"

definition finalize :: "lib \<Rightarrow> 'e dependents \<Rightarrow> ('e, 'o) object_ops \<Rightarrow> 'o \<Rightarrow> string \<Rightarrow>
    ('e session \<Rightarrow> ('e, go_error option) eff) option \<Rightarrow> ('e, reconcile_result) eff" where
  "finalize l d ops obj clusterName drop_op =
     (let remove =
        (let obj = ob_with_meta ops obj (remove_finalizer l (ob_meta ops obj) DependentFinalizer) in
         update_object ops obj \<bind> (\<lambda>r. case r of
             Some err \<Rightarrow> ret (no_requeue, ignore_not_found (Some (Wrap ''remove finalizer'' err)))
           | None \<Rightarrow> ret (no_requeue, None)))
      in if \<not> contains_finalizer l (ob_meta ops obj) DependentFinalizer then ret (no_requeue, None)
         else clusterGone d (om_namespace (ob_meta ops obj)) clusterName \<bind> (\<lambda>g. case g of
             Inl err \<Rightarrow> ret (no_requeue, Some err)
           | Inr gone \<Rightarrow>
               (case drop_op of
                  Some run_drop \<Rightarrow>
                    if \<not> gone then
                      openSession l d (om_namespace (ob_meta ops obj)) clusterName \<bind> (\<lambda>s. case s of
                          Failed err \<Rightarrow> ret (no_requeue, Some err)
                        | BlockedOn b \<Rightarrow> ret (\<lparr>requeue_after = missingDependencyRequeue\<rparr>, None)
                        | Got session \<Rightarrow> deferring (close session)
                            (run_drop session \<bind> (\<lambda>r. case r of
                                Some err \<Rightarrow> ret (no_requeue, Some (Wrap ''drop on server'' err))
                              | None \<Rightarrow> remove)))
                    else remove
                | None \<Rightarrow> remove)))"

text \<open>
  The first result tells whether an update was issued. The caller returns when it is true or
  there is an error, so the changed object is not part of the result.
\<close>

definition ensureFinalizer :: "lib \<Rightarrow> ('e, 'o) object_ops \<Rightarrow> 'o \<Rightarrow> ('e, bool \<times> go_error option) eff" where
  "ensureFinalizer l ops obj =
     (if contains_finalizer l (ob_meta ops obj) DependentFinalizer then ret (False, None)
      else let obj = ob_with_meta ops obj (add_finalizer l (ob_meta ops obj) DependentFinalizer) in
        update_object ops obj \<bind> (\<lambda>r. case r of
            Some err \<Rightarrow> ret (False, Some (Wrap ''add finalizer'' err))
          | None \<Rightarrow> ret (True, None)))"

section \<open>Queries and the outcome\<close>

definition exists :: "'e session \<Rightarrow> string \<Rightarrow> ('e, go_error + bool) eff" where
  "exists session q = query session q \<bind> (\<lambda>r. case r of
     Inl err \<Rightarrow> ret (Inl err) | Inr rows \<Rightarrow> ret (Inr (length rows > 0)))"

definition setReady :: "lib \<Rightarrow> condition list \<Rightarrow> int64 \<Rightarrow> string \<Rightarrow> string \<Rightarrow> string \<Rightarrow> condition list" where
  "setReady l conditions generation status rsn msg = set_status_condition l conditions
     \<lparr>c_type = ConditionReady, c_status = status, c_reason = rsn, c_message = msg,
      c_observed_generation = generation\<rparr>"

definition outcome :: "lib \<Rightarrow> condition list \<Rightarrow> int64 \<Rightarrow> blocked option \<Rightarrow> go_error option \<Rightarrow>
    condition list \<times> ctrl_result" where
  "outcome l conditions generation blockedOn err = (case err of
     Some e \<Rightarrow> (setReady l conditions generation ConditionFalse reasonSQLError (error_text e),
       \<lparr>requeue_after = missingDependencyRequeue\<rparr>)
   | None \<Rightarrow> (case blockedOn of
       Some b \<Rightarrow> (setReady l conditions generation ConditionFalse (reason b) (message b),
         \<lparr>requeue_after = missingDependencyRequeue\<rparr>)
     | None \<Rightarrow> (setReady l conditions generation ConditionTrue reasonApplied ''applied on the server'',
         \<lparr>requeue_after = resyncInterval\<rparr>)))"

definition nameOrDefault :: "string \<Rightarrow> string \<Rightarrow> string" where
  "nameOrDefault name fallback = (if name \<noteq> [] then name else fallback)"


section \<open>Rules of the shared code, as monitors\<close>

text \<open>Sessions: SQL only while one is open, one at a time, every opened one closed.\<close>

definition session_step :: "bool \<Rightarrow> event \<Rightarrow> bool option" where
  "session_step opened e = (case e of
     Connected _ None \<Rightarrow> if opened then None else Some True
   | Executed _ _ \<Rightarrow> if opened then Some True else None
   | Queried _ _ \<Rightarrow> if opened then Some True else None
   | Closed \<Rightarrow> if opened then Some False else None
   | _ \<Rightarrow> Some opened)"

text \<open>
  Connecting: only to a SereneDB read as Ready, with the address of its spec and the password
  last read from its superuser Secret.
\<close>

definition gate_step :: "lib \<Rightarrow> serenedb option \<times> string option \<Rightarrow> event \<Rightarrow>
    (serenedb option \<times> string option) option" where
  "gate_step l s e = (case e of
     GotSereneDB _ _ r \<Rightarrow> Some (case r of Inl _ \<Rightarrow> (None, None) | Inr db \<Rightarrow> (Some db, None))
   | GotSecret ns n r \<Rightarrow> Some (case fst s of None \<Rightarrow> s | Some db \<Rightarrow>
       if ns = Namespace db \<and> n = SecretName db then
         (Some db, case r of Inl _ \<Rightarrow> None | Inr secret \<Rightarrow> map_of (sec_data secret) (PasswordKey db))
       else s)
   | Connected t _ \<Rightarrow> (case s of
       (Some db, Some password) \<Rightarrow>
         if is_status_condition_true l (st_conditions (db_status db)) ConditionReady
           \<and> t = session_target db password then Some s else None
     | _ \<Rightarrow> None)
   | _ \<Rightarrow> Some s)"

text \<open>The server is touched only for an object fetched with the finalizer already on it.\<close>

definition guard_step :: "lib \<Rightarrow> bool \<Rightarrow> event \<Rightarrow> bool option" where
  "guard_step l guarded e = (case e of
     GotObject _ _ r \<Rightarrow> Some (case r of Inl _ \<Rightarrow> False
       | Inr obj \<Rightarrow> contains_finalizer l (object_meta_of obj) DependentFinalizer)
   | Connected _ _ \<Rightarrow> if guarded then Some guarded else None
   | Executed _ _ \<Rightarrow> if guarded then Some guarded else None
   | Queried _ _ \<Rightarrow> if guarded then Some guarded else None
   | _ \<Rightarrow> Some guarded)"

text \<open>
  What deleting an object has to remove on the server: the query that tells whether it is
  there and the statement that drops it; nothing under the \<open>Retain\<close> policy.
\<close>

fun server_side :: "lib \<Rightarrow> api_object \<Rightarrow> ((go_error + string) \<times> string) option" where
  "server_side l (DatabaseObject da) = (if dbs_reclaim_policy (da_spec da) = ReclaimDelete then
     (let name = nameOrDefault (dbs_name (da_spec da)) (om_name (da_meta da))
      in Some (DatabaseExists name, DropDatabase l name)) else None)"
| "server_side l (RoleObject dr) = (if ro_reclaim_policy (dr_spec dr) = ReclaimDelete then
     (let name = nameOrDefault (ro_name (dr_spec dr)) (om_name (dr_meta dr))
      in Some (RoleExists name, DropRole l name)) else None)"
| "server_side l (ServerSecretObject se) =
     (let name = nameOrDefault (ss_name (se_spec se)) (om_name (se_meta se))
      in Some (SecretExists name, DropSecret l name))"
| "server_side l _ = None"

text \<open>The SereneDB an object names: one of its own namespace.\<close>

fun own_cluster :: "api_object \<Rightarrow> (string \<times> string) option" where
  "own_cluster (DatabaseObject da) = Some (om_namespace (da_meta da), cr_name (dbs_cluster (da_spec da)))"
| "own_cluster (RoleObject dr) = Some (om_namespace (dr_meta dr), cr_name (ro_cluster (dr_spec dr)))"
| "own_cluster (ServerSecretObject se) = Some (om_namespace (se_meta se), cr_name (ss_cluster (se_spec se)))"
| "own_cluster _ = None"

text \<open>
  The finalizer is removed only with evidence: the object's own SereneDB is gone or going, the
  server has answered that there is nothing to drop, or it has taken the drop.
\<close>

datatype evidence = NoEvidence | ClusterGone | Dropped

definition release_step :: "lib \<Rightarrow> api_object option \<times> evidence \<Rightarrow> event \<Rightarrow>
    (api_object option \<times> evidence) option" where
  "release_step l s e = (case e of
     GotObject _ _ r \<Rightarrow> Some (case r of Inl _ \<Rightarrow> None | Inr obj \<Rightarrow> Some obj, NoEvidence)
   | GotSereneDB ns n r \<Rightarrow> Some (fst s,
       if Option.bind (fst s) own_cluster \<noteq> Some (ns, n) then NoEvidence
       else case r of
         Inl err \<Rightarrow> if is_not_found err then ClusterGone else NoEvidence
       | Inr db \<Rightarrow> if IsZero (om_deletion_timestamp (db_meta db)) then NoEvidence else ClusterGone)
   | Queried q r \<Rightarrow> Some (fst s, case Option.bind (fst s) (server_side l) of
       Some (exists_q, _) \<Rightarrow> if exists_q = Inr q \<and> r = Inr [] then Dropped else snd s | None \<Rightarrow> snd s)
   | Executed stmt r \<Rightarrow> Some (fst s, case Option.bind (fst s) (server_side l) of
       Some (_, drop_stmt) \<Rightarrow> if stmt = drop_stmt \<and> r = None then Dropped else snd s | None \<Rightarrow> snd s)
   | UpdatedObject obj _ \<Rightarrow>
       if contains_finalizer l (object_meta_of obj) DependentFinalizer
         \<or> Option.bind (fst s) (server_side l) = None \<or> snd s \<noteq> NoEvidence then Some s else None
   | _ \<Rightarrow> Some s)"

lemmas monitor_defs = session_step_def gate_step_def guard_step_def release_step_def

section \<open>The shared code keeps the rules\<close>

lemma wp_deferring:
  assumes "wp step body (\<lambda>r s'. wp step d (\<lambda>_ s''. Q r s'') s') s"
  shows "wp step (deferring d body) Q s"
  unfolding deferring_def
  by (rule wp_then [OF assms], rule wp_bind, erule wp_weaken) (rule wp_ret)

lemma openSession_sessions:
  "wp session_step (openSession l d ns n) (\<lambda>r opened. opened \<longleftrightarrow> (\<exists>s. r = Got s)) False"
  unfolding openSession_def superuserPassword_def call_defs
  by (intro wp_intro | auto intro!: wp_intro simp: session_step_def err_of_def split: sum.splits)+

lemma openSession_gated: "wp (gate_step l) (openSession l d ns n) (\<lambda>_ _. True) s"
  unfolding openSession_def superuserPassword_def call_defs
  by (intro wp_intro | auto intro!: wp_intro simp: gate_step_def split: sum.splits)+


text \<open>The events of an apply step: reads, sessions and SQL, no write of a Kubernetes object.\<close>

fun sql_event :: "event \<Rightarrow> bool" where
  "sql_event (Executed _ _) = True"
| "sql_event (Queried _ _) = True"
| "sql_event _ = False"

fun apply_event :: "event \<Rightarrow> bool" where
  "apply_event (GotSereneDB _ _ _) = True"
| "apply_event (GotSecret _ _ _) = True"
| "apply_event (Connected _ _) = True"
| "apply_event (Executed _ _) = True"
| "apply_event (Queried _ _) = True"
| "apply_event Closed = True"
| "apply_event Ranged = True"
| "apply_event _ = False"

fun finalize_event :: "event \<Rightarrow> bool" where
  "finalize_event (UpdatedObject _ _) = True"
| "finalize_event e = apply_event e"

lemma sql_apply_event: "sql_event e \<Longrightarrow> apply_event e"
  by (cases e) auto

lemma openSession_events: "emits (openSession l d ns n) (\<lambda>_ es. list_all apply_event es)"
  unfolding openSession_def superuserPassword_def call_defs
  by (intro emits_intro | auto intro!: emits_intro)+

lemma wp_keeps:
  assumes "emits m (\<lambda>_ es. list_all p es)" and "\<And>e. p e \<Longrightarrow> step s e = Some s"
  shows "wp step m (\<lambda>_ s'. s' = s) s"
proof -
  have "list_all p es \<Longrightarrow> watch step s es = Some s" for es
    by (induction es) (auto simp: assms(2))
  then show ?thesis unfolding wp_def by (intro emits_weaken [OF assms(1)]) auto
qed

lemma wp_invariant:
  assumes "emits m (\<lambda>_ es. list_all p es)"
    and "\<And>e s. p e \<Longrightarrow> I s \<Longrightarrow> \<exists>s'. step s e = Some s' \<and> I s'" and "I s"
  shows "wp step m (\<lambda>_ s'. I s') s"
proof -
  have "list_all p es \<Longrightarrow> I s \<Longrightarrow> \<exists>s'. watch step s es = Some s' \<and> I s'" for es s
  proof (induction es arbitrary: s)
    case (Cons e es)
    then obtain s1 where "step s e = Some s1" "I s1" using assms(2) by fastforce
    with Cons show ?case by auto
  qed auto
  with assms(3) show ?thesis unfolding wp_def by (intro emits_weaken [OF assms(1)]) auto
qed

lemma wp_passes:
  assumes "emits m (\<lambda>_ es. list_all p es)" and "\<And>e s. p e \<Longrightarrow> \<exists>s'. step s e = Some s' \<and> fst s' = fst s"
  shows "wp step m (\<lambda>_ s'. fst s' = fst s) s"
  using assms(2) by (intro wp_invariant [OF assms(1)]) auto

lemma guard_keeps: "apply_event e \<Longrightarrow> guard_step l True e = Some True"
  by (cases e) (auto simp: guard_step_def)

lemma session_keeps: "sql_event e \<Longrightarrow> session_step True e = Some True"
  by (cases e) (auto simp: session_step_def)

lemma gate_keeps: "sql_event e \<Longrightarrow> gate_step l s e = Some s"
  by (cases e) (auto simp: gate_step_def)

lemma release_passes: "apply_event e \<Longrightarrow> \<exists>s'. release_step l s e = Some s' \<and> fst s' = fst s"
  by (cases e) (auto simp: release_step_def)

lemma release_reads: "list_all sql_event es \<Longrightarrow> \<exists>s'. watch (release_step l) s es = Some s'"
proof (induction es arbitrary: s)
  case (Cons e es)
  then have "apply_event e" by (simp add: sql_apply_event)
  then obtain s1 where "release_step l s e = Some s1" using release_passes by blast
  with Cons show ?case by simp
qed simp

section \<open>The drop a finalizer runs\<close>

fun drop_confirmed :: "go_error + string \<Rightarrow> string \<Rightarrow> event list \<Rightarrow> bool" where
  "drop_confirmed exists_q drop_stmt [Queried q r] \<longleftrightarrow> exists_q = Inr q \<and> r = Inr []"
| "drop_confirmed exists_q drop_stmt [Queried q r, Executed stmt x] \<longleftrightarrow>
     exists_q = Inr q \<and> (case r of Inl _ \<Rightarrow> False | Inr rows \<Rightarrow> rows \<noteq> []) \<and> stmt = drop_stmt \<and> x = None"
| "drop_confirmed exists_q drop_stmt _ \<longleftrightarrow> False"

text \<open>
  The contract of a drop: it sends SQL only, and when it reports success the server has
  either answered that the object is absent or taken the drop statement.
\<close>

lemma clusterGone_passes: "wp (release_step l) (clusterGone d ns n) (\<lambda>_ s'. fst s' = fst s) s"
  unfolding clusterGone_def call_defs
  by (auto intro!: wp_intro simp: release_step_def split: sum.splits)

lemma openSession_passes: "wp (release_step l) (openSession l d ns n) (\<lambda>_ s'. fst s' = fst s) s"
  by (rule wp_passes [OF openSession_events release_passes])

locale drop_operation =
  fixes drop_op :: "'e session \<Rightarrow> ('e, go_error option) eff"
    and exists_q :: "go_error + string" and drop_stmt :: string
  assumes drop_confirms: "emits (drop_op s)
    (\<lambda>r es. list_all sql_event es \<and> (r = None \<longrightarrow> drop_confirmed exists_q drop_stmt es))"
begin

lemma drop_sql: "emits (drop_op s) (\<lambda>_ es. list_all sql_event es)"
  using drop_confirms by (rule emits_weaken) blast

lemma drop_releases:
  assumes "server_side l obj = Some (exists_q, drop_stmt)"
  shows "wp (release_step l) (drop_op s) (\<lambda>r s'. r = None \<longrightarrow> s' = (Some obj, Dropped)) (Some obj, ev)"
  unfolding wp_def
proof (rule emits_weaken [OF drop_confirms])
  fix r es
  assume es: "list_all sql_event es \<and> (r = None \<longrightarrow> drop_confirmed exists_q drop_stmt es)"
  have "drop_confirmed exists_q drop_stmt es \<Longrightarrow>
      watch (release_step l) (Some obj, ev) es = Some (Some obj, Dropped)"
    using assms by (cases "(exists_q, drop_stmt, es)" rule: drop_confirmed.cases) (simp_all add: release_step_def)
  moreover have "list_all sql_event es \<Longrightarrow> \<exists>s'. watch (release_step l) s1 es = Some s'" for s1
    by (rule release_reads)
  ultimately show "\<exists>s'. watch (release_step l) (Some obj, ev) es = Some s' \<and>
      (r = None \<longrightarrow> s' = (Some obj, Dropped))"
    using es assms by (cases r) auto
qed

lemma finalize_events:
  "emits (finalize l d ops obj c (Some drop_op)) (\<lambda>_ es. list_all finalize_event es)"
proof -
  have imp: "list_all p es \<Longrightarrow> (\<And>e. p e \<Longrightarrow> finalize_event e) \<Longrightarrow> list_all finalize_event es" for p es
    by (erule list.pred_mono_strong) blast
  have fin: "sql_event e \<Longrightarrow> finalize_event e" "apply_event e \<Longrightarrow> finalize_event e" for e
    by (cases e; simp)+
  show ?thesis
    unfolding finalize_def clusterGone_def update_object_def deferring_def get_serenedb_def close_def Let_def
    by (auto intro!: emits_intro emits_weaken [OF openSession_events] emits_weaken [OF drop_sql]
        simp: imp [OF _ fin(1)] imp [OF _ fin(2)])
qed

lemma finalize_sessions:
  "wp session_step (finalize l d ops obj c (Some drop_op)) (\<lambda>_ opened. \<not> opened) False"
proof -
  have "wp session_step (drop_op s) (\<lambda>_ opened. opened = True) True" for s
    by (rule wp_keeps [OF drop_sql]) (rule session_keeps)
  note drop = wp_weaken [OF this]
  show ?thesis
    unfolding finalize_def clusterGone_def update_object_def call_defs Let_def
    by (intro wp_intro wp_weaken [OF openSession_sessions] wp_deferring drop
        | auto intro!: wp_intro wp_weaken [OF openSession_sessions] wp_deferring drop
          simp: session_step_def split: sum.splits)+
qed

lemma finalize_gated: "wp (gate_step l) (finalize l d ops obj c (Some drop_op)) (\<lambda>_ _. True) s"
proof -
  have "wp (gate_step l) (drop_op t) (\<lambda>_ s'. s' = s) s" for t s
    by (rule wp_keeps [OF drop_sql]) (rule gate_keeps)
  note drop = wp_weaken [OF this]
  show ?thesis
    unfolding finalize_def clusterGone_def update_object_def call_defs Let_def
    by (intro wp_intro wp_weaken [OF openSession_gated] wp_deferring drop
        | auto intro!: wp_intro wp_weaken [OF openSession_gated] wp_deferring drop
          simp: gate_step_def split: sum.splits)+
qed

lemma finalize_guarded:
  "wp (guard_step l) (finalize l d ops obj c (Some drop_op)) (\<lambda>_ _. True)
    (contains_finalizer l (ob_meta ops obj) DependentFinalizer)"
proof -
  have sql: "emits (drop_op t) (\<lambda>_ es. list_all apply_event es)" for t
    by (rule emits_weaken [OF drop_sql]) (simp add: list.pred_mono_strong sql_apply_event)
  have "wp (guard_step l) (drop_op t) (\<lambda>_ s'. s' = True) True" for t
    by (rule wp_keeps [OF sql]) (rule guard_keeps)
  note drop = wp_weaken [OF this]
  have "wp (guard_step l) (openSession l d ns n) (\<lambda>_ s'. s' = True) True" for ns n
    by (rule wp_keeps [OF openSession_events]) (rule guard_keeps)
  note opened = wp_weaken [OF this]
  show ?thesis
    unfolding finalize_def clusterGone_def update_object_def call_defs Let_def
    by (intro wp_intro opened wp_deferring drop
        | auto intro!: wp_intro opened wp_deferring drop simp: guard_step_def split: sum.splits)+
qed

lemma finalize_released:
  assumes obj: "server_side l (ob_wrap ops obj) = Some (exists_q, drop_stmt)"
    and own: "own_cluster (ob_wrap ops obj) = Some (om_namespace (ob_meta ops obj), c)"
  shows "wp (release_step l) (finalize l d ops obj c (Some drop_op)) (\<lambda>_ _. True)
    (Some (ob_wrap ops obj), NoEvidence)"
proof -
  have gone: "wp (release_step l) (clusterGone d ns n)
      (\<lambda>g s'. g = Inr True \<longrightarrow> snd s' = ClusterGone) s"
    if "Option.bind (fst s) own_cluster = Some (ns, n)" for ns n s
    unfolding clusterGone_def call_defs
    by (auto intro!: wp_intro simp: release_step_def that split: sum.splits)
  have "wp (release_step l) (clusterGone d (om_namespace (ob_meta ops obj)) c)
      (\<lambda>g s'. g = Inr True \<longrightarrow> snd s' = ClusterGone) (Some (ob_wrap ops obj), NoEvidence)"
    by (rule gone) (simp add: own)
  note gone = wp_weaken [OF wp_conj [OF this clusterGone_passes]]
  note opened = wp_weaken [OF openSession_passes]
  note drop = wp_weaken [OF drop_releases [OF obj]]
  have update: "wp (release_step l) (update_object ops o') (\<lambda>_ s'. s' = s) s"
    if "snd s \<noteq> NoEvidence" for o' s
    unfolding update_object_def by (rule wp_call) (simp add: release_step_def that)
  have close: "wp (release_step l) (close session) (\<lambda>_ _. True) s" for session s
    unfolding close_def by (rule wp_call) (simp add: release_step_def)
  show ?thesis
    unfolding finalize_def Let_def
    by (auto intro!: wp_intro gone opened drop wp_deferring close wp_weaken [OF update])
qed

end


section \<open>The shape of the three reconcilers\<close>

text \<open>
  The three \<open>Reconcile\<close> functions are written out, each in its theory, as the source has them;
  each is then shown equal to the following one at its own parameters, so that what holds for
  the shape is proved once.
\<close>

record ('e, 'o) dependent_kind =
  dk_ops :: "('e, 'o) object_ops"
  dk_get :: "string \<Rightarrow> string \<Rightarrow> 'e \<Rightarrow> (go_error + 'o) \<times> 'e"
  dk_cluster :: "'o \<Rightarrow> string"
  dk_drop :: "'o \<Rightarrow> ('e session \<Rightarrow> ('e, go_error option) eff) option"
  dk_apply :: "'o \<Rightarrow> ('e, ('o \<times> blocked option \<times> go_error option) go) eff"
  dk_report :: "'o \<Rightarrow> blocked option \<Rightarrow> go_error option \<Rightarrow> 'o \<times> ctrl_result"
  dk_patch :: "'o \<Rightarrow> 'o \<Rightarrow> 'e \<Rightarrow> go_error option \<times> 'e"

definition dependent_reconcile :: "lib \<Rightarrow> 'e dependents \<Rightarrow> ('e, 'o) dependent_kind \<Rightarrow> string \<Rightarrow> string \<Rightarrow>
    ('e, reconcile_result go) eff" where
  "dependent_reconcile l d k ns n = get_object (dk_get k) (ob_wrap (dk_ops k)) ns n \<bind> (\<lambda>r. case r of
     Inl err \<Rightarrow> ret (Done (no_requeue, ignore_not_found (Some err)))
   | Inr obj \<Rightarrow>
       if \<not> IsZero (om_deletion_timestamp (ob_meta (dk_ops k) obj)) then
         finalize l d (dk_ops k) obj (dk_cluster k obj) (dk_drop k obj) \<bind> (\<lambda>r. ret (Done r))
       else ensureFinalizer l (dk_ops k) obj \<bind> (\<lambda>(added, err).
         if added \<or> err \<noteq> None then ret (Done (no_requeue, err))
         else dk_apply k obj \<bind> (\<lambda>a. case a of
             Panic t \<Rightarrow> ret (Panic t)
           | Done (obj', blockedOn, applyErr) \<Rightarrow>
               (case dk_report k obj' blockedOn applyErr of (changed, result) \<Rightarrow>
                  patch_status (dk_patch k) (ob_wrap (dk_ops k)) obj changed \<bind> (\<lambda>p. case p of
                      Some e \<Rightarrow> ret (Done (no_requeue, Some (Wrap ''update status'' e)))
                    | None \<Rightarrow> ret (Done (result, None)))))))"

lemma finalize_None_rules:
  "wp session_step (finalize l d ops obj c None) (\<lambda>_ opened. \<not> opened) False"
  "wp (gate_step l) (finalize l d ops obj c None) (\<lambda>_ _. True) s"
  "wp (guard_step l) (finalize l d ops obj c None) (\<lambda>_ _. True) guarded"
  unfolding finalize_def clusterGone_def update_object_def call_defs Let_def
  by (auto intro!: wp_intro simp: session_step_def gate_step_def guard_step_def split: sum.splits)

lemma finalize_None_events:
  "emits (finalize l d ops obj c None) (\<lambda>_ es. list_all finalize_event es)"
  unfolding finalize_def clusterGone_def update_object_def call_defs Let_def
  by (auto intro!: emits_intro)

lemma finalize_None_released:
  assumes "server_side l obj' = None"
  shows "wp (release_step l) (finalize l d ops obj c None) (\<lambda>_ _. True) (Some obj', ev)"
  unfolding finalize_def clusterGone_def update_object_def call_defs Let_def
  by (auto intro!: wp_intro simp: release_step_def assms split: sum.splits)

lemma ensureFinalizer_rules:
  "wp session_step (ensureFinalizer l ops obj) (\<lambda>_ s'. s' = opened) opened"
  "wp (gate_step l) (ensureFinalizer l ops obj) (\<lambda>_ s'. s' = s) s"
  "wp (guard_step l) (ensureFinalizer l ops obj) (\<lambda>r s'. s' = guarded \<and>
     (r = (False, None) \<longrightarrow> contains_finalizer l (ob_meta ops obj) DependentFinalizer)) guarded"
  unfolding ensureFinalizer_def update_object_def Let_def
  by (auto intro!: wp_intro simp: session_step_def gate_step_def guard_step_def)

lemma ensureFinalizer_released:
  assumes "finalizer_law l" and "\<And>o' m. object_meta_of (ob_wrap ops (ob_with_meta ops o' m)) = m"
  shows "wp (release_step l) (ensureFinalizer l ops obj) (\<lambda>_ s'. s' = s) s"
proof -
  have "contains_finalizer l (add_finalizer l m f) f" for m f
    using assms(1) by (simp add: finalizer_law_def)
  then show ?thesis
    unfolding ensureFinalizer_def update_object_def Let_def
    by (auto intro!: wp_intro simp: release_step_def assms(2))
qed

text \<open>
  The contract of an object kind: metadata are read and written as one field; the drop is the
  one its object asks for; the apply step opens and closes sessions by the rules and writes
  nothing but the object's own status.
\<close>

locale dependent_controller =
  fixes l :: "lib" and d :: "'e dependents" and k :: "('e, 'o) dependent_kind"
  assumes wrap_meta: "object_meta_of (ob_wrap (dk_ops k) obj) = ob_meta (dk_ops k) obj"
    and with_meta: "ob_meta (dk_ops k) (ob_with_meta (dk_ops k) obj m) = m"
    and own: "own_cluster (ob_wrap (dk_ops k) obj) = Some (om_namespace (ob_meta (dk_ops k) obj), dk_cluster k obj)"
    and unwanted: "dk_drop k obj = None \<Longrightarrow> server_side l (ob_wrap (dk_ops k) obj) = None"
    and wanted: "dk_drop k obj = Some drop_op \<Longrightarrow>
      \<exists>q stmt. server_side l (ob_wrap (dk_ops k) obj) = Some (q, stmt) \<and> drop_operation drop_op q stmt"
    and apply_sessions: "wp session_step (dk_apply k obj) (\<lambda>_ opened. \<not> opened) False"
    and apply_gated: "wp (gate_step l) (dk_apply k obj) (\<lambda>_ _. True) s"
    and apply_events: "emits (dk_apply k obj) (\<lambda>_ es. list_all apply_event es)"
begin

lemma finalize_parts:
  "wp session_step (finalize l d (dk_ops k) obj c (dk_drop k obj)) (\<lambda>_ opened. \<not> opened) False"
  "wp (gate_step l) (finalize l d (dk_ops k) obj c (dk_drop k obj)) (\<lambda>_ _. True) s"
  "wp (guard_step l) (finalize l d (dk_ops k) obj c (dk_drop k obj)) (\<lambda>_ _. True)
    (contains_finalizer l (ob_meta (dk_ops k) obj) DependentFinalizer)"
  "wp (release_step l) (finalize l d (dk_ops k) obj (dk_cluster k obj) (dk_drop k obj)) (\<lambda>_ _. True)
    (Some (ob_wrap (dk_ops k) obj), NoEvidence)"
proof -
  let ?none = "dk_drop k obj = None"
  have "wp session_step (finalize l d (dk_ops k) obj c (dk_drop k obj)) (\<lambda>_ opened. \<not> opened) False \<and>
    wp (gate_step l) (finalize l d (dk_ops k) obj c (dk_drop k obj)) (\<lambda>_ _. True) s \<and>
    wp (guard_step l) (finalize l d (dk_ops k) obj c (dk_drop k obj)) (\<lambda>_ _. True)
      (contains_finalizer l (ob_meta (dk_ops k) obj) DependentFinalizer) \<and>
    wp (release_step l) (finalize l d (dk_ops k) obj (dk_cluster k obj) (dk_drop k obj)) (\<lambda>_ _. True)
      (Some (ob_wrap (dk_ops k) obj), NoEvidence)"
  proof (cases "dk_drop k obj")
    case None
    then show ?thesis
      by (simp add: finalize_None_rules finalize_None_released [OF unwanted [OF None]])
  next
    case (Some drop_op)
    from wanted [OF Some] obtain q stmt where q: "server_side l (ob_wrap (dk_ops k) obj) = Some (q, stmt)"
      and drop: "drop_operation drop_op q stmt" by blast
    show ?thesis
      by (simp add: Some drop_operation.finalize_sessions [OF drop] drop_operation.finalize_gated [OF drop]
          drop_operation.finalize_guarded [OF drop] drop_operation.finalize_released [OF drop q own])
  qed
  then show
    "wp session_step (finalize l d (dk_ops k) obj c (dk_drop k obj)) (\<lambda>_ opened. \<not> opened) False"
    "wp (gate_step l) (finalize l d (dk_ops k) obj c (dk_drop k obj)) (\<lambda>_ _. True) s"
    "wp (guard_step l) (finalize l d (dk_ops k) obj c (dk_drop k obj)) (\<lambda>_ _. True)
      (contains_finalizer l (ob_meta (dk_ops k) obj) DependentFinalizer)"
    "wp (release_step l) (finalize l d (dk_ops k) obj (dk_cluster k obj) (dk_drop k obj)) (\<lambda>_ _. True)
      (Some (ob_wrap (dk_ops k) obj), NoEvidence)"
    by blast+
qed

lemma finalize_writes:
  "emits (finalize l d (dk_ops k) obj c (dk_drop k obj)) (\<lambda>_ es. list_all finalize_event es)"
proof (cases "dk_drop k obj")
  case None
  then show ?thesis by (simp add: finalize_None_events)
next
  case (Some drop_op)
  from wanted [OF Some] obtain q stmt where drop: "drop_operation drop_op q stmt" by blast
  show ?thesis by (simp add: Some drop_operation.finalize_events [OF drop])
qed

text \<open>What follows the apply step writes one status and touches no monitor.\<close>

lemma reconcile_sessions:
  "wp session_step (dependent_reconcile l d k ns n) (\<lambda>_ opened. \<not> opened) False"
  unfolding dependent_reconcile_def get_object_def patch_status_def
  by (auto intro!: wp_intro wp_weaken [OF finalize_parts(1)] wp_weaken [OF ensureFinalizer_rules(1)]
      wp_weaken [OF apply_sessions] simp: session_step_def)

lemma reconcile_gated: "wp (gate_step l) (dependent_reconcile l d k ns n) (\<lambda>_ _. True) s"
  unfolding dependent_reconcile_def get_object_def patch_status_def
  by (auto intro!: wp_intro wp_weaken [OF finalize_parts(2)] wp_weaken [OF ensureFinalizer_rules(2)]
      wp_weaken [OF apply_gated] simp: gate_step_def)

lemma reconcile_guarded: "wp (guard_step l) (dependent_reconcile l d k ns n) (\<lambda>_ _. True) guarded"
proof -
  have applied: "wp (guard_step l) (dk_apply k obj) (\<lambda>_ s'. s' = True) True" for obj
    by (rule wp_keeps [OF apply_events]) (rule guard_keeps)
  show ?thesis
    unfolding dependent_reconcile_def get_object_def patch_status_def
    by (auto intro!: wp_intro wp_weaken [OF finalize_parts(3)] wp_weaken [OF ensureFinalizer_rules(3)]
        wp_weaken [OF applied] simp: guard_step_def wrap_meta)
qed

lemma reconcile_released:
  assumes "finalizer_law l"
  shows "wp (release_step l) (dependent_reconcile l d k ns n) (\<lambda>_ _. True) s"
proof -
  have applied: "wp (release_step l) (dk_apply k obj) (\<lambda>_ s'. fst s' = fst s) s" for obj s
    by (rule wp_passes [OF apply_events release_passes])
  have ensure: "wp (release_step l) (ensureFinalizer l (dk_ops k) obj) (\<lambda>_ s'. s' = s) s" for obj s
    by (rule ensureFinalizer_released [OF assms]) (simp add: wrap_meta with_meta)
  show ?thesis
    unfolding dependent_reconcile_def get_object_def patch_status_def
    by (auto intro!: wp_intro wp_weaken [OF finalize_parts(4)] wp_weaken [OF ensure]
        wp_weaken [OF applied] simp: release_step_def)
qed

end

section \<open>The shapes the three kinds share\<close>

lemma drop_shape:
  "emits (case q of Inl err \<Rightarrow> ret (Some err)
     | Inr t \<Rightarrow> exists s t \<bind> (\<lambda>r. case r of Inl err \<Rightarrow> ret (Some err)
         | Inr present \<Rightarrow> if \<not> present then ret None else exec s stmt))
    (\<lambda>r es. list_all sql_event es \<and> (r = None \<longrightarrow> drop_confirmed q stmt es))"
  unfolding exists_def by (auto intro!: emits_intro)

text \<open>A session opened by an apply step and used by a body that sends SQL only.\<close>

lemma session_body:
  assumes "\<And>s. emits (body s) (\<lambda>_ es. list_all (\<lambda>e. sql_event e \<or> e = Ranged) es)"
  shows "wp session_step (openSession l d ns n) (\<lambda>s. wp session_step (case s of
        Got session \<Rightarrow> deferring (close session) (body session)
      | BlockedOn b \<Rightarrow> ret (onblocked b) | Failed err \<Rightarrow> ret (onerr err)) (\<lambda>_ opened. \<not> opened)) False"
    and "wp (gate_step l) (openSession l d ns n) (\<lambda>s. wp (gate_step l) (case s of
        Got session \<Rightarrow> deferring (close session) (body session)
      | BlockedOn b \<Rightarrow> ret (onblocked b) | Failed err \<Rightarrow> ret (onerr err)) (\<lambda>_ _. True)) s0"
    and "emits (openSession l d ns n) (\<lambda>s es. emits (case s of
        Got session \<Rightarrow> deferring (close session) (body session)
      | BlockedOn b \<Rightarrow> ret (onblocked b) | Failed err \<Rightarrow> ret (onerr err))
        (\<lambda>_ fs. list_all apply_event es \<and> list_all apply_event fs))"
proof -
  have "wp session_step (body s) (\<lambda>_ opened. opened = True) True" for s
    by (rule wp_keeps [OF assms], elim disjE) (simp_all add: session_keeps, simp add: session_step_def)
  note b1 = wp_weaken [OF this]
  have "wp (gate_step l) (body t) (\<lambda>_ s'. s' = s) s" for t s
    by (rule wp_keeps [OF assms], elim disjE) (simp_all add: gate_keeps, simp add: gate_step_def)
  note b2 = wp_weaken [OF this]
  have imp: "sql_event e \<or> e = Ranged \<Longrightarrow> apply_event e" for e
    by (auto simp: sql_apply_event)
  note b3 = emits_weaken [OF assms]
  show "wp session_step (openSession l d ns n) (\<lambda>s. wp session_step (case s of
        Got session \<Rightarrow> deferring (close session) (body session)
      | BlockedOn b \<Rightarrow> ret (onblocked b) | Failed err \<Rightarrow> ret (onerr err)) (\<lambda>_ opened. \<not> opened)) False"
    unfolding close_def
    by (rule wp_weaken [OF openSession_sessions]) (auto intro!: wp_intro wp_deferring b1 simp: session_step_def)
  show "wp (gate_step l) (openSession l d ns n) (\<lambda>s. wp (gate_step l) (case s of
        Got session \<Rightarrow> deferring (close session) (body session)
      | BlockedOn b \<Rightarrow> ret (onblocked b) | Failed err \<Rightarrow> ret (onerr err)) (\<lambda>_ _. True)) s0"
    unfolding close_def
    by (rule wp_weaken [OF openSession_gated]) (auto intro!: wp_intro wp_deferring b2 simp: gate_step_def)
  show "emits (openSession l d ns n) (\<lambda>s es. emits (case s of
        Got session \<Rightarrow> deferring (close session) (body session)
      | BlockedOn b \<Rightarrow> ret (onblocked b) | Failed err \<Rightarrow> ret (onerr err))
        (\<lambda>_ fs. list_all apply_event es \<and> list_all apply_event fs))"
    unfolding close_def deferring_def
    by (rule emits_weaken [OF openSession_events])
      (auto intro!: emits_intro b3 elim!: list.pred_mono_strong intro: imp)
qed

end
