(* ===== verification/Readiness.thy ===== *)
theory Readiness
  imports Dependent
begin

text \<open>
  What the status of a Database, DatabaseRole or ServerSecret may claim. The rule is a monitor,
  the contract a kind has to meet for it is the locale \<open>dependent_reporter\<close>, and each of the
  three controllers interprets it on its own definitions.
\<close>

section \<open>Ready is earned\<close>

text \<open>
  What a status may claim: \<open>Ready\<close> only when a session was opened and no read, connection,
  query or statement of the run has failed. The monitor also keeps the last claim made.
\<close>

record ready_watch =
  ry_clean :: bool
  ry_opened :: bool
  ry_claim :: "bool option"

definition ready_start :: ready_watch where
  "ready_start = \<lparr>ry_clean = False, ry_opened = False, ry_claim = None\<rparr>"

fun dependent_status_of :: "api_object \<Rightarrow> (condition list \<times> int64) option" where
  "dependent_status_of (DatabaseObject da) =
     Some (ds_conditions (da_status da), ds_observed_generation (da_status da))"
| "dependent_status_of (RoleObject dr) =
     Some (ds_conditions (dr_status dr), ds_observed_generation (dr_status dr))"
| "dependent_status_of (ServerSecretObject se) =
     Some (ds_conditions (se_status se), ds_observed_generation (se_status se))"
| "dependent_status_of _ = None"

definition ready_step :: "lib \<Rightarrow> ready_watch \<Rightarrow> event \<Rightarrow> ready_watch option" where
  "ready_step l w e = (case e of
     GotObject _ _ _ \<Rightarrow> Some \<lparr>ry_clean = True, ry_opened = False, ry_claim = None\<rparr>
   | GotSereneDB _ _ r \<Rightarrow> Some (w\<lparr>ry_clean := ry_clean w \<and> err_of r = None\<rparr>)
   | GotSecret _ _ r \<Rightarrow> Some (w\<lparr>ry_clean := ry_clean w \<and> err_of r = None\<rparr>)
   | Connected _ r \<Rightarrow> Some (w\<lparr>ry_clean := ry_clean w \<and> r = None, ry_opened := ry_opened w \<or> r = None\<rparr>)
   | Executed _ r \<Rightarrow> Some (w\<lparr>ry_clean := ry_clean w \<and> r = None\<rparr>)
   | Queried _ r \<Rightarrow> Some (w\<lparr>ry_clean := ry_clean w \<and> err_of r = None\<rparr>)
   | PatchedStatus old new _ \<Rightarrow> (case dependent_status_of new of None \<Rightarrow> None
     | Some (conditions, observed) \<Rightarrow>
         (let claim = is_status_condition_true l conditions ConditionReady in
          if (claim \<and> \<not> (ry_clean w \<and> ry_opened w)) \<or> observed \<noteq> om_generation (object_meta_of old) then None
          else Some (w\<lparr>ry_claim := Some claim\<rparr>)))
   | _ \<Rightarrow> Some w)"

text \<open>The requeue each end of a run asks for.\<close>

definition ready_answer :: "reconcile_result go \<Rightarrow> ready_watch \<Rightarrow> bool" where
  "ready_answer r w = (case r of
     Panic _ \<Rightarrow> ry_claim w = None
   | Done (result, Some err) \<Rightarrow> result = no_requeue
   | Done (result, None) \<Rightarrow> (case ry_claim w of
       None \<Rightarrow> requeue_after result \<in> {0, missingDependencyRequeue}
     | Some claim \<Rightarrow> requeue_after result = (if claim then resyncInterval else missingDependencyRequeue)))"

abbreviation earned :: "ready_watch \<Rightarrow> bool" where
  "earned w \<equiv> ry_clean w \<and> ry_opened w"

lemma ready_watch_same [simp]:
  "ry_clean w \<Longrightarrow> w\<lparr>ry_clean := True\<rparr> = w" "ry_opened w \<Longrightarrow> w\<lparr>ry_opened := True\<rparr> = w"
  by simp_all

lemma finalize_event_claim: "finalize_event e \<Longrightarrow> \<exists>w'. ready_step l w e = Some w' \<and> ry_claim w' = ry_claim w"
  by (cases e) (auto simp: ready_step_def)

lemma events_claim:
  assumes "emits m (\<lambda>_ es. list_all finalize_event es)"
  shows "wp (ready_step l) m (\<lambda>_ w'. ry_claim w' = ry_claim w) w"
proof -
  have "\<exists>w'. ready_step l w0 e = Some w' \<and> ry_claim w' = ry_claim w" 
    if "finalize_event e" "ry_claim w0 = ry_claim w" for e w0
    using finalize_event_claim [OF that(1), of l w0] that(2) by auto
  then show ?thesis by (intro wp_invariant [OF assms]) auto
qed

lemma openSession_earns:
  "ry_clean w \<Longrightarrow> wp (ready_step l) (openSession l d ns n) (\<lambda>r w'. ry_claim w' = ry_claim w \<and>
    (case r of Got _ \<Rightarrow> earned w' | _ \<Rightarrow> True)) w"
  unfolding openSession_def superuserPassword_def call_defs
  by (intro wp_intro | auto intro!: wp_intro simp: ready_step_def err_of_def split: sum.splits)+

lemma outcome_claims:
  assumes "condition_law l" and "outcome l cs gen b err = (cs', res)"
  shows "is_status_condition_true l cs' ConditionReady \<longleftrightarrow> b = None \<and> err = None"
    and "requeue_after res = (if b = None \<and> err = None then resyncInterval else missingDependencyRequeue)"
  using assms by (auto simp: outcome_def setReady_def condition_true_iff find_condition_set ConditionTrue_def
      ConditionFalse_def split: option.splits)



lemma openSession_runs: "emits (openSession l d ns n) (\<lambda>_ _. True)"
  by (rule emits_weaken [OF openSession_events]) simp

definition finalize_answer :: "reconcile_result \<Rightarrow> bool" where
  "finalize_answer r = (case r of (result, None) \<Rightarrow> requeue_after result \<in> {0, missingDependencyRequeue}
     | (result, Some _) \<Rightarrow> result = no_requeue)"

lemma finalize_answers:
  assumes "\<And>f s. drop_op = Some f \<Longrightarrow> emits (f s) (\<lambda>_ _. True)"
  shows "emits (finalize l d ops obj c drop_op) (\<lambda>r _. finalize_answer r)"
  unfolding finalize_def clusterGone_def update_object_def deferring_def get_serenedb_def close_def Let_def
    no_requeue_def finalize_answer_def
  by (auto intro!: emits_intro emits_weaken [OF openSession_runs] emits_weaken [OF assms]
    simp: ignore_not_found_def split: option.splits)

text \<open>A session that is opened for a body: only the body can have reached a result without reason.\<close>

lemma session_earns:
  assumes "ry_clean w"
    and "\<And>session w'. earned w' \<Longrightarrow> ry_claim w' = ry_claim w \<Longrightarrow> wp (ready_step l) (body session) Q w'"
    and "\<And>b w'. ry_claim w' = ry_claim w \<Longrightarrow> Q (onblocked b) w'"
    and "\<And>err w'. ry_claim w' = ry_claim w \<Longrightarrow> Q (onerr err) w'"
  shows "wp (ready_step l) (openSession l d ns n) (\<lambda>s. wp (ready_step l) (case s of
        Got session \<Rightarrow> deferring (close session) (body session)
      | BlockedOn b \<Rightarrow> ret (onblocked b) | Failed err \<Rightarrow> ret (onerr err)) Q) w"
proof (rule wp_weaken [OF openSession_earns [OF assms(1)]], goal_cases)
  case (1 r w')
  have closes: "wp (ready_step l) (close session) (\<lambda>_. Q x) w''" if "Q x w''" for session x w''
    unfolding close_def using that by (intro wp_call) (simp add: ready_step_def)
  show ?case
  proof (cases r)
    case (Got session)
    with 1 assms(2) [of w' session] show ?thesis by (auto intro!: wp_deferring wp_weaken [OF _ closes])
  qed (use 1 assms(3,4) in \<open>auto intro!: wp_ret\<close>)
qed

text \<open>
  The contract of the reporting half: what a kind writes into its status is the outcome of its
  apply step, and an apply step that reports neither a reason nor an error has earned it.
\<close>

locale dependent_reporter = dependent_controller +
  assumes apply_earns: "ry_clean w \<Longrightarrow> wp (ready_step l) (dk_apply k obj) (\<lambda>r w'. ry_claim w' = ry_claim w \<and>
      (case r of Panic _ \<Rightarrow> True | Done (obj', blockedOn, err) \<Rightarrow>
         ob_meta (dk_ops k) obj' = ob_meta (dk_ops k) obj \<and> (blockedOn = None \<and> err = None \<longrightarrow> earned w'))) w"
    and reports_outcome: "dk_report k obj blockedOn err = (changed, result) \<Longrightarrow>
      \<exists>cs cs'. dependent_status_of (ob_wrap (dk_ops k) changed) = Some (cs', om_generation (ob_meta (dk_ops k) obj)) \<and>
        outcome l cs (om_generation (ob_meta (dk_ops k) obj)) blockedOn err = (cs', result)"
begin

text \<open>A status says Ready exactly for an outcome without reason and error, and asks to be run again accordingly.\<close>

lemma report_claims:
  assumes "condition_law l" and "dk_report k obj blockedOn err = (changed, result)"
  shows "\<exists>cs. dependent_status_of (ob_wrap (dk_ops k) changed) = Some (cs, om_generation (ob_meta (dk_ops k) obj)) \<and>
    (is_status_condition_true l cs ConditionReady \<longleftrightarrow> blockedOn = None \<and> err = None) \<and>
    requeue_after result = (if blockedOn = None \<and> err = None then resyncInterval else missingDependencyRequeue)"
  using reports_outcome [OF assms(2)] outcome_claims [OF assms(1)] by blast

lemma reconcile_earns:
  assumes "condition_law l"
  shows "wp (ready_step l) (dependent_reconcile l d k ns n) ready_answer ready_start"
proof -
  have runs: "emits (f s) (\<lambda>_ _. True)" if f: "dk_drop k obj = Some f" for obj f s
  proof -
    obtain q stmt where "drop_operation f q stmt" using wanted [OF f] by blast
    from drop_operation.drop_sql [OF this] show ?thesis by (rule emits_weaken) simp
  qed
  let ?s = "\<lparr>ry_clean = True, ry_opened = False, ry_claim = None\<rparr>"
  have fin: "wp (ready_step l) (finalize l d (dk_ops k) obj c (dk_drop k obj))
      (\<lambda>r w'. finalize_answer r \<and> ry_claim w' = None) ?s" for obj c
    by (rule emits_wp_conj [OF finalize_answers wp_weaken [OF events_claim [OF finalize_writes]]])
      (simp_all add: runs)
  have ens: "wp (ready_step l) (ensureFinalizer l (dk_ops k) obj) (\<lambda>_ w'. w' = w) w" for obj w
    unfolding ensureFinalizer_def update_object_def Let_def by (auto intro!: wp_intro simp: ready_step_def)
  let ?report = "\<lambda>obj obj' blockedOn err. case dk_report k obj' blockedOn err of (changed, result) \<Rightarrow>
      patch_status (dk_patch k) (ob_wrap (dk_ops k)) obj changed \<bind> (\<lambda>p. case p of
          Some e \<Rightarrow> ret (Done (no_requeue, Some (Wrap ''update status'' e)))
        | None \<Rightarrow> ret (Done (result, None)))"
  let ?apply = "\<lambda>obj. dk_apply k obj \<bind> (\<lambda>a. case a of Panic t \<Rightarrow> ret (Panic t)
      | Done (obj', blockedOn, err) \<Rightarrow> ?report obj obj' blockedOn err)"
  have report: "wp (ready_step l) (?report obj obj' blockedOn err) ready_answer w"
    if "blockedOn = None \<and> err = None \<longrightarrow> earned w" "ob_meta (dk_ops k) obj' = ob_meta (dk_ops k) obj"
    for obj obj' blockedOn err w
  proof -
    obtain changed result where r: "dk_report k obj' blockedOn err = (changed, result)" by fastforce
    from report_claims [OF assms r] that show ?thesis
      unfolding r patch_status_def
      by (auto intro!: wp_intro simp: ready_step_def wrap_meta ready_answer_def split: option.splits)
  qed
  have applied: "wp (ready_step l) (?apply obj) ready_answer ?s" for obj
  proof (rule wp_then [OF apply_earns], goal_cases)
    case (2 r w)
    then show ?case by (cases r) (auto intro!: wp_ret report simp: ready_answer_def)
  qed simp
  have early: "ready_answer (Done (no_requeue, err)) w" if "ry_claim w = None" for err w
    using that by (auto simp: ready_answer_def no_requeue_def split: option.splits)
  have ended: "ready_answer (Done r) w" if "finalize_answer r \<and> ry_claim w = None" for r w
    using that by (auto simp: ready_answer_def finalize_answer_def split: option.splits)
  show ?thesis
    unfolding dependent_reconcile_def get_object_def
  proof (rule wp_bind, rule wp_call, simp add: ready_step_def, rule wp_sum, goal_cases)
    case 1
    show ?case by (rule wp_ret) (simp add: early)
  next
    case (2 a obj)
    show ?case
    proof (rule wp_if)
      show "wp (ready_step l) (finalize l d (dk_ops k) obj (dk_cluster k obj) (dk_drop k obj)
          \<bind> (\<lambda>r. ret (Done r))) ready_answer ?s"
        by (rule wp_then [OF fin]) (blast intro: wp_ret ended)
      show "wp (ready_step l) (ensureFinalizer l (dk_ops k) obj \<bind> (\<lambda>(added, err).
          if added \<or> err \<noteq> None then ret (Done (no_requeue, err)) else ?apply obj)) ready_answer ?s"
        by (rule wp_then [OF ens]) (auto intro!: wp_ret early applied split: prod.split)
    qed
  qed
qed

end
end
