(* ===== verification/DatabaseController.thy ===== *)
theory DatabaseController
  imports Readiness
begin

text \<open>
  internal/controller/database_controller.go: the Database reconciler, and its drop and apply
  step as interpretations of the two interfaces of \<open>Dependent\<close>.
\<close>

section \<open>The code\<close>

definition database_ops :: "'e client \<Rightarrow> ('e, database) object_ops" where
  "database_ops c = \<lparr>ob_wrap = DatabaseObject, ob_meta = da_meta,
     ob_with_meta = (\<lambda>da m. da\<lparr>da_meta := m\<rparr>), ob_update = k_update_database c\<rparr>"

definition dropDatabase :: "lib \<Rightarrow> string \<Rightarrow> 'e session \<Rightarrow> ('e, go_error option) eff" where
  "dropDatabase l name session = (case DatabaseExists name of
     Inl err \<Rightarrow> ret (Some err)
   | Inr q \<Rightarrow> exists session q \<bind> (\<lambda>r. case r of
         Inl err \<Rightarrow> ret (Some err)
       | Inr present \<Rightarrow> if \<not> present then ret None else exec session (DropDatabase l name)))"

definition Database_apply :: "lib \<Rightarrow> 'e dependents \<Rightarrow> database \<Rightarrow> string \<Rightarrow>
    ('e, blocked option \<times> go_error option) eff" where
  "Database_apply l d db name =
     openSession l d (om_namespace (da_meta db)) (cr_name (dbs_cluster (da_spec db))) \<bind> (\<lambda>s. case s of
         BlockedOn b \<Rightarrow> ret (Some b, None)
       | Failed err \<Rightarrow> ret (None, Some err)
       | Got session \<Rightarrow> deferring (close session) (case DatabaseExists name of
             Inl err \<Rightarrow> ret (Some \<lparr>reason = reasonInvalidSpec, message = error_text err\<rparr>, None)
           | Inr q \<Rightarrow> exists session q \<bind> (\<lambda>r. case r of
                 Inl err \<Rightarrow> ret (None, Some err)
               | Inr present \<Rightarrow> if present then ret (None, None)
                   else exec session (CreateDatabase l name) \<bind> (\<lambda>r. ret (None, r)))))"

definition Database_Reconcile :: "lib \<Rightarrow> 'e dependents \<Rightarrow> string \<Rightarrow> string \<Rightarrow> ('e, reconcile_result go) eff" where
  "Database_Reconcile l d ns n =
     get_object (k_get_database (dep_client d)) DatabaseObject ns n \<bind> (\<lambda>r. case r of
       Inl err \<Rightarrow> ret (Done (no_requeue, ignore_not_found (Some err)))
     | Inr db \<Rightarrow>
         (let name = nameOrDefault (dbs_name (da_spec db)) (om_name (da_meta db)) in
          if \<not> IsZero (om_deletion_timestamp (da_meta db)) then
            (let drop_op = (if dbs_reclaim_policy (da_spec db) = ReclaimDelete
               then Some (dropDatabase l name) else None)
             in finalize l d (database_ops (dep_client d)) db (cr_name (dbs_cluster (da_spec db))) drop_op
                  \<bind> (\<lambda>r. ret (Done r)))
          else ensureFinalizer l (database_ops (dep_client d)) db \<bind> (\<lambda>(added, err).
            if added \<or> err \<noteq> None then ret (Done (no_requeue, err))
            else Database_apply l d db name \<bind> (\<lambda>(blockedOn, applyErr).
              (case outcome l (ds_conditions (da_status db)) (om_generation (da_meta db)) blockedOn applyErr of
                 (conditions, result) \<Rightarrow>
                   (let changed = db\<lparr>da_status := (da_status db)\<lparr>ds_conditions := conditions,
                      ds_observed_generation := om_generation (da_meta db)\<rparr>\<rparr> in
                    patch_status (k_patch_database_status (dep_client d)) DatabaseObject db changed \<bind> (\<lambda>p.
                      case p of Some e \<Rightarrow> ret (Done (no_requeue, Some (Wrap ''update status'' e)))
                      | None \<Rightarrow> ret (Done (result, None)))))))))"

section \<open>The interfaces it provides\<close>

interpretation database_drop: drop_operation "dropDatabase l name" "DatabaseExists name" "DropDatabase l name"
  by unfold_locales (simp add: dropDatabase_def drop_shape)

definition database_kind :: "lib \<Rightarrow> 'e dependents \<Rightarrow> ('e, database) dependent_kind" where
  "database_kind l d = \<lparr>
     dk_ops = database_ops (dep_client d),
     dk_get = k_get_database (dep_client d),
     dk_cluster = (\<lambda>db. cr_name (dbs_cluster (da_spec db))),
     dk_drop = (\<lambda>db. if dbs_reclaim_policy (da_spec db) = ReclaimDelete
       then Some (dropDatabase l (nameOrDefault (dbs_name (da_spec db)) (om_name (da_meta db)))) else None),
     dk_apply = (\<lambda>db. Database_apply l d db (nameOrDefault (dbs_name (da_spec db)) (om_name (da_meta db)))
       \<bind> (\<lambda>(blockedOn, err). ret (Done (db, blockedOn, err)))),
     dk_report = (\<lambda>db blockedOn err.
       case outcome l (ds_conditions (da_status db)) (om_generation (da_meta db)) blockedOn err of
         (conditions, result) \<Rightarrow> (db\<lparr>da_status := (da_status db)\<lparr>ds_conditions := conditions,
            ds_observed_generation := om_generation (da_meta db)\<rparr>\<rparr>, result)),
     dk_patch = k_patch_database_status (dep_client d)\<rparr>"

lemma Database_Reconcile_shape:
  "Database_Reconcile l d ns n = dependent_reconcile l d (database_kind l d) ns n"
  by (simp add: Database_Reconcile_def dependent_reconcile_def database_kind_def database_ops_def Let_def
      case_prod_unfold cong: sum.case_cong if_cong)

lemma dk_Database_apply: "dk_apply (database_kind l d) db = Database_apply l d db
     (nameOrDefault (dbs_name (da_spec db)) (om_name (da_meta db))) \<bind> (\<lambda>(blockedOn, err). ret (Done (db, blockedOn, err)))"
  by (simp add: database_kind_def)

definition database_session_body :: "lib \<Rightarrow> string \<Rightarrow> 'e session \<Rightarrow>
    ('e, blocked option \<times> go_error option) eff" where
  "database_session_body l name session = (case DatabaseExists name of
             Inl err \<Rightarrow> ret (Some \<lparr>reason = reasonInvalidSpec, message = error_text err\<rparr>, None)
           | Inr q \<Rightarrow> exists session q \<bind> (\<lambda>r. case r of
                 Inl err \<Rightarrow> ret (None, Some err)
               | Inr present \<Rightarrow> if present then ret (None, None)
                   else exec session (CreateDatabase l name) \<bind> (\<lambda>r. ret (None, r))))"

lemma Database_apply_eq: "Database_apply l d db name =
     openSession l d (om_namespace (da_meta db)) (cr_name (dbs_cluster (da_spec db))) \<bind> (\<lambda>s. case s of
         BlockedOn b \<Rightarrow> ret (Some b, None)
       | Failed err \<Rightarrow> ret (None, Some err)
       | Got session \<Rightarrow> deferring (close session) (database_session_body l name session))"
  by (simp add: Database_apply_def database_session_body_def cong: attempt.case_cong)

lemma database_session_body_events:
  "emits (database_session_body l name session) (\<lambda>_ es. list_all (\<lambda>e. sql_event e \<or> e = Ranged) es)"
  unfolding database_session_body_def exists_def by (auto intro!: emits_intro)

lemma Database_apply_rules:
  "wp session_step (Database_apply l d db name) (\<lambda>_ opened. \<not> opened) False"
  "wp (gate_step l) (Database_apply l d db name) (\<lambda>_ _. True) s"
  "emits (Database_apply l d db name) (\<lambda>_ es. list_all apply_event es)"
  unfolding Database_apply_eq
  by (auto intro!: wp_bind emits_bind intro: session_body [OF database_session_body_events])

interpretation database: dependent_controller l d "database_kind l d"
proof unfold_locales
  fix obj drop_op m s
  show "object_meta_of (ob_wrap (dk_ops (database_kind l d)) obj) = ob_meta (dk_ops (database_kind l d)) obj"
    "ob_meta (dk_ops (database_kind l d)) (ob_with_meta (dk_ops (database_kind l d)) obj m) = m"
    by (simp_all add: database_kind_def database_ops_def)
  show "own_cluster (ob_wrap (dk_ops (database_kind l d)) obj) =
      Some (om_namespace (ob_meta (dk_ops (database_kind l d)) obj), dk_cluster (database_kind l d) obj)"
    by (simp add: database_kind_def database_ops_def)
  show "dk_drop (database_kind l d) obj = None \<Longrightarrow>
      server_side l (ob_wrap (dk_ops (database_kind l d)) obj) = None"
    by (simp add: database_kind_def database_ops_def Let_def split: if_splits)
  show "dk_drop (database_kind l d) obj = Some drop_op \<Longrightarrow>
      \<exists>q stmt. server_side l (ob_wrap (dk_ops (database_kind l d)) obj) = Some (q, stmt) \<and>
        drop_operation drop_op q stmt"
    by (auto simp: database_kind_def database_ops_def Let_def database_drop.drop_operation_axioms split: if_splits)
  show "wp session_step (dk_apply (database_kind l d) obj) (\<lambda>_ opened. \<not> opened) False"
    "wp (gate_step l) (dk_apply (database_kind l d) obj) (\<lambda>_ _. True) s"
    "emits (dk_apply (database_kind l d) obj) (\<lambda>_ es. list_all apply_event es)"
    unfolding dk_Database_apply
    by (auto intro!: wp_intro emits_intro wp_weaken [OF Database_apply_rules(1)]
        wp_weaken [OF Database_apply_rules(2)] emits_weaken [OF Database_apply_rules(3)])
qed

lemma Database_apply_earns:
  assumes "ry_clean w"
  shows "wp (ready_step l) (Database_apply l d db name) (\<lambda>(blockedOn, err) w'. ry_claim w' = ry_claim w \<and>
    (blockedOn = None \<and> err = None \<longrightarrow> earned w')) w"
  unfolding Database_apply_eq database_session_body_def exists_def exec_def query_def
  by (rule wp_bind, rule session_earns [OF assms]) (auto intro!: wp_intro simp: ready_step_def)

interpretation database_reports: dependent_reporter l d "database_kind l d"
proof unfold_locales
  fix w obj obj' changed blockedOn err result
  show "ry_clean w \<Longrightarrow> wp (ready_step l) (dk_apply (database_kind l d) obj) (\<lambda>r w'. ry_claim w' = ry_claim w \<and>
      (case r of Panic _ \<Rightarrow> True | Done (obj', blockedOn, err) \<Rightarrow>
         ob_meta (dk_ops (database_kind l d)) obj' = ob_meta (dk_ops (database_kind l d)) obj \<and>
         (blockedOn = None \<and> err = None \<longrightarrow> earned w'))) w"
    unfolding dk_Database_apply by (auto intro!: wp_intro wp_weaken [OF Database_apply_earns])
  show "dk_report (database_kind l d) obj blockedOn err = (changed, result) \<Longrightarrow>
      \<exists>cs cs'. dependent_status_of (ob_wrap (dk_ops (database_kind l d)) changed) =
          Some (cs', om_generation (ob_meta (dk_ops (database_kind l d)) obj)) \<and>
        outcome l cs (om_generation (ob_meta (dk_ops (database_kind l d)) obj)) blockedOn err = (cs', result)"
    by (auto simp: database_kind_def database_ops_def split: prod.splits)
qed

end
