(* ===== verification/RoleController.thy ===== *)
theory RoleController
  imports Readiness
begin

text \<open>
  internal/controller/databaserole_controller.go: the DatabaseRole reconciler. A role is
  created or altered to its attributes, its password is sent when the role is new or its
  Secret has another version, and its memberships converge on the listed ones. The reply of
  the membership query is indexed without a check, so the apply step can panic.
\<close>

section \<open>The code\<close>

definition role_ops :: "'e client \<Rightarrow> ('e, database_role) object_ops" where
  "role_ops c = \<lparr>ob_wrap = RoleObject, ob_meta = dr_meta,
     ob_with_meta = (\<lambda>dr m. dr\<lparr>dr_meta := m\<rparr>), ob_update = k_update_role c\<rparr>"

definition dropRole :: "lib \<Rightarrow> string \<Rightarrow> 'e session \<Rightarrow> ('e, go_error option) eff" where
  "dropRole l name session = (case RoleExists name of
     Inl err \<Rightarrow> ret (Some err)
   | Inr q \<Rightarrow> exists session q \<bind> (\<lambda>r. case r of
         Inl err \<Rightarrow> ret (Some err)
       | Inr present \<Rightarrow> if \<not> present then ret None else exec session (DropRole l name)))"

definition roleAttributes :: "database_role_spec \<Rightarrow> role_attributes" where
  "roleAttributes spec = \<lparr>
     ra_login = ro_login spec, ra_superuser = ro_superuser spec, ra_create_db = ro_create_db spec,
     ra_create_role = ro_create_role spec,
     ra_inherit = (case ro_inherit spec of None \<Rightarrow> True | Some b \<Rightarrow> b),
     ra_connection_limit = ro_connection_limit spec, ra_valid_until = ro_valid_until spec,
     ra_password = None\<rparr>"

definition roleStatement :: "lib \<Rightarrow> string \<Rightarrow> role_attributes \<Rightarrow> bool \<Rightarrow> go_error + string" where
  "roleStatement l name attrs present = (if present then AlterRole l name attrs else CreateRole l name attrs)"

definition role_password :: "'e dependents \<Rightarrow> database_role \<Rightarrow> ('e, (string option \<times> string) attempt) eff" where
  "role_password d role = (case ro_password_secret (dr_spec role) of
     None \<Rightarrow> ret (Got (None, []))
   | Some ref \<Rightarrow> get_secret (dep_client d) (om_namespace (dr_meta role)) (ps_name ref) \<bind> (\<lambda>r. case r of
       Inl err \<Rightarrow>
         if is_not_found err then ret (BlockedOn \<lparr>reason = reasonPasswordSecretMissing,
           message = ''secret '' @ fmt_q (ps_name ref) @ '' not found''\<rparr>)
         else ret (Failed (Wrap ''get password secret'' err))
     | Inr secret \<Rightarrow>
         (let key = nameOrDefault (ps_key ref) ''password'' in
          case map_of (sec_data secret) key of
            None \<Rightarrow> ret (BlockedOn \<lparr>reason = reasonPasswordSecretMissing,
              message = ''secret '' @ fmt_q (ps_name ref) @ '' has no key '' @ fmt_q key\<rparr>)
          | Some value \<Rightarrow> ret (Got (Some value, om_resource_version (sec_meta secret))))))"

text \<open>
  \<open>converge\<close>: the maps \<open>current\<close> and \<open>desired\<close> hold \<open>true\<close> only, so they are the lists of
  their keys. \<open>row[0]\<close> of an empty row panics.
\<close>

fun current_groups :: "rows \<Rightarrow> string list \<Rightarrow> string list go" where
  "current_groups [] current = Done current"
| "current_groups ([] # rows) current = Panic ''index out of range [0] with length 0''"
| "current_groups ((g # _) # rows) current = current_groups rows (List.insert g current)"

fun grant_missing :: "lib \<Rightarrow> 'e session \<Rightarrow> string \<Rightarrow> string list \<Rightarrow> string list \<Rightarrow> string list \<Rightarrow>
    ('e, go_error + string list) eff" where
  "grant_missing l session name current [] desired = ret (Inr desired)"
| "grant_missing l session name current (grp # wanted) desired =
     (let desired = List.insert grp desired in
      if grp \<in> set current then grant_missing l session name current wanted desired
      else exec session (GrantMembership l grp name) \<bind> (\<lambda>r. case r of
          Some err \<Rightarrow> ret (Inl err)
        | None \<Rightarrow> grant_missing l session name current wanted desired))"

fun revoke_unlisted :: "lib \<Rightarrow> 'e session \<Rightarrow> string \<Rightarrow> string list \<Rightarrow> string list \<Rightarrow>
    ('e, go_error option) eff" where
  "revoke_unlisted l session name desired [] = ret None"
| "revoke_unlisted l session name desired (grp # current) =
     (if grp \<in> set desired then revoke_unlisted l session name desired current
      else exec session (RevokeMembership l grp name) \<bind> (\<lambda>r. case r of
          Some err \<Rightarrow> ret (Some err)
        | None \<Rightarrow> revoke_unlisted l session name desired current))"

definition converge :: "lib \<Rightarrow> 'e runtime \<Rightarrow> 'e session \<Rightarrow> string \<Rightarrow> string list \<Rightarrow>
    ('e, go_error option go) eff" where
  "converge l rt session name wanted = (case RoleMemberships name of
     Inl err \<Rightarrow> ret (Done (Some err))
   | Inr q \<Rightarrow> query session q \<bind> (\<lambda>r. case r of
       Inl err \<Rightarrow> ret (Done (Some err))
     | Inr rows \<Rightarrow> (case current_groups rows [] of
         Panic t \<Rightarrow> ret (Panic t)
       | Done current \<Rightarrow> grant_missing l session name current wanted [] \<bind> (\<lambda>g. case g of
           Inl err \<Rightarrow> ret (Done (Some err))
         | Inr desired \<Rightarrow> range_over rt current \<bind> (\<lambda>visited.
             revoke_unlisted l session name desired visited \<bind> (\<lambda>r. ret (Done r)))))))"

definition Role_apply :: "lib \<Rightarrow> 'e runtime \<Rightarrow> 'e dependents \<Rightarrow> database_role \<Rightarrow> string \<Rightarrow>
    ('e, (database_role \<times> blocked option \<times> go_error option) go) eff" where
  "Role_apply l rt d role name = role_password d role \<bind> (\<lambda>p. case p of
     BlockedOn b \<Rightarrow> ret (Done (role, Some b, None))
   | Failed err \<Rightarrow> ret (Done (role, None, Some err))
   | Got (password, version) \<Rightarrow>
     openSession l d (om_namespace (dr_meta role)) (cr_name (ro_cluster (dr_spec role))) \<bind> (\<lambda>s. case s of
       BlockedOn b \<Rightarrow> ret (Done (role, Some b, None))
     | Failed err \<Rightarrow> ret (Done (role, None, Some err))
     | Got session \<Rightarrow> deferring (close session) (case RoleExists name of
         Inl err \<Rightarrow> ret (Done (role, Some \<lparr>reason = reasonInvalidSpec, message = error_text err\<rparr>, None))
       | Inr q \<Rightarrow> exists session q \<bind> (\<lambda>r. case r of
           Inl err \<Rightarrow> ret (Done (role, None, Some err))
         | Inr present \<Rightarrow>
           (let attrs = roleAttributes (dr_spec role);
                attrs = (if password \<noteq> None \<and>
                    (\<not> present \<or> version \<noteq> rs_password_secret_version (dr_status role))
                  then attrs\<lparr>ra_password := password\<rparr> else attrs) in
            case roleStatement l name attrs present of
              Inl err \<Rightarrow> ret (Done (role, Some \<lparr>reason = reasonInvalidSpec, message = error_text err\<rparr>, None))
            | Inr statement \<Rightarrow> exec session statement \<bind> (\<lambda>r. case r of
                Some err \<Rightarrow> ret (Done (role, None, Some err))
              | None \<Rightarrow> converge l rt session name (ro_in_roles (dr_spec role)) \<bind> (\<lambda>c. case c of
                  Panic t \<Rightarrow> ret (Panic t)
                | Done (Some err) \<Rightarrow> ret (Done (role, None, Some err))
                | Done None \<Rightarrow> ret (Done (role\<lparr>dr_status :=
                    (dr_status role)\<lparr>rs_password_secret_version := version\<rparr>\<rparr>, None, None)))))))))"

definition Role_Reconcile :: "lib \<Rightarrow> 'e runtime \<Rightarrow> 'e dependents \<Rightarrow> string \<Rightarrow> string \<Rightarrow>
    ('e, reconcile_result go) eff" where
  "Role_Reconcile l rt d ns n =
     get_object (k_get_role (dep_client d)) RoleObject ns n \<bind> (\<lambda>r. case r of
       Inl err \<Rightarrow> ret (Done (no_requeue, ignore_not_found (Some err)))
     | Inr role \<Rightarrow>
         (let name = nameOrDefault (ro_name (dr_spec role)) (om_name (dr_meta role)) in
          if \<not> IsZero (om_deletion_timestamp (dr_meta role)) then
            (let drop_op = (if ro_reclaim_policy (dr_spec role) = ReclaimDelete
               then Some (dropRole l name) else None)
             in finalize l d (role_ops (dep_client d)) role (cr_name (ro_cluster (dr_spec role))) drop_op
                  \<bind> (\<lambda>r. ret (Done r)))
          else ensureFinalizer l (role_ops (dep_client d)) role \<bind> (\<lambda>(added, err).
            if added \<or> err \<noteq> None then ret (Done (no_requeue, err))
            else Role_apply l rt d role name \<bind> (\<lambda>a. case a of
              Panic t \<Rightarrow> ret (Panic t)
            | Done (role', blockedOn, applyErr) \<Rightarrow>
              (case outcome l (ds_conditions (dr_status role')) (om_generation (dr_meta role')) blockedOn applyErr of
                 (conditions, result) \<Rightarrow>
                   (let changed = role'\<lparr>dr_status := (dr_status role')\<lparr>ds_conditions := conditions,
                      ds_observed_generation := om_generation (dr_meta role')\<rparr>\<rparr> in
                    patch_status (k_patch_role_status (dep_client d)) RoleObject role changed \<bind> (\<lambda>p.
                      case p of Some e \<Rightarrow> ret (Done (no_requeue, Some (Wrap ''update status'' e)))
                      | None \<Rightarrow> ret (Done (result, None)))))))))"

section \<open>The interfaces it provides\<close>

interpretation role_drop: drop_operation "dropRole l name" "RoleExists name" "DropRole l name"
  by unfold_locales (simp add: dropRole_def drop_shape)

definition role_kind :: "lib \<Rightarrow> 'e runtime \<Rightarrow> 'e dependents \<Rightarrow> ('e, database_role) dependent_kind" where
  "role_kind l rt d = \<lparr>
     dk_ops = role_ops (dep_client d),
     dk_get = k_get_role (dep_client d),
     dk_cluster = (\<lambda>dr. cr_name (ro_cluster (dr_spec dr))),
     dk_drop = (\<lambda>dr. if ro_reclaim_policy (dr_spec dr) = ReclaimDelete
       then Some (dropRole l (nameOrDefault (ro_name (dr_spec dr)) (om_name (dr_meta dr)))) else None),
     dk_apply = (\<lambda>dr. Role_apply l rt d dr (nameOrDefault (ro_name (dr_spec dr)) (om_name (dr_meta dr)))),
     dk_report = (\<lambda>dr blockedOn err.
       case outcome l (ds_conditions (dr_status dr)) (om_generation (dr_meta dr)) blockedOn err of
         (conditions, result) \<Rightarrow> (dr\<lparr>dr_status := (dr_status dr)\<lparr>ds_conditions := conditions,
            ds_observed_generation := om_generation (dr_meta dr)\<rparr>\<rparr>, result)),
     dk_patch = k_patch_role_status (dep_client d)\<rparr>"

lemma Role_Reconcile_shape:
  "Role_Reconcile l rt d ns n = dependent_reconcile l d (role_kind l rt d) ns n"
  by (simp add: Role_Reconcile_def dependent_reconcile_def role_kind_def role_ops_def Let_def
      case_prod_unfold cong: sum.case_cong if_cong go.case_cong)

lemma grant_missing_events:
  "emits (grant_missing l s name current wanted desired) (\<lambda>_ es. list_all sql_event es)"
  by (induction wanted arbitrary: desired) (auto intro!: emits_intro elim!: emits_weaken)

lemma revoke_unlisted_events:
  "emits (revoke_unlisted l s name desired current) (\<lambda>_ es. list_all sql_event es)"
  by (induction current) (auto intro!: emits_intro elim!: emits_weaken)

lemma converge_events:
  "emits (converge l rt s name wanted) (\<lambda>_ es. list_all (\<lambda>e. sql_event e \<or> e = Ranged) es)"
proof -
  have imp: "list_all sql_event es \<Longrightarrow> list_all (\<lambda>e. sql_event e \<or> e = Ranged) es" for es
    by (erule list.pred_mono_strong) simp
  show ?thesis
    unfolding converge_def
    by (auto intro!: emits_intro emits_weaken [OF grant_missing_events]
        emits_weaken [OF revoke_unlisted_events] simp: imp)
qed

definition role_session_body :: "lib \<Rightarrow> 'e runtime \<Rightarrow> database_role \<Rightarrow> string \<Rightarrow> string option \<Rightarrow> string \<Rightarrow>
    'e session \<Rightarrow> ('e, (database_role \<times> blocked option \<times> go_error option) go) eff" where
  "role_session_body l rt role name password version session = (case RoleExists name of
         Inl err \<Rightarrow> ret (Done (role, Some \<lparr>reason = reasonInvalidSpec, message = error_text err\<rparr>, None))
       | Inr q \<Rightarrow> exists session q \<bind> (\<lambda>r. case r of
           Inl err \<Rightarrow> ret (Done (role, None, Some err))
         | Inr present \<Rightarrow>
           (let attrs = roleAttributes (dr_spec role);
                attrs = (if password \<noteq> None \<and>
                    (\<not> present \<or> version \<noteq> rs_password_secret_version (dr_status role))
                  then attrs\<lparr>ra_password := password\<rparr> else attrs) in
            case roleStatement l name attrs present of
              Inl err \<Rightarrow> ret (Done (role, Some \<lparr>reason = reasonInvalidSpec, message = error_text err\<rparr>, None))
            | Inr statement \<Rightarrow> exec session statement \<bind> (\<lambda>r. case r of
                Some err \<Rightarrow> ret (Done (role, None, Some err))
              | None \<Rightarrow> converge l rt session name (ro_in_roles (dr_spec role)) \<bind> (\<lambda>c. case c of
                  Panic t \<Rightarrow> ret (Panic t)
                | Done (Some err) \<Rightarrow> ret (Done (role, None, Some err))
                | Done None \<Rightarrow> ret (Done (role\<lparr>dr_status :=
                    (dr_status role)\<lparr>rs_password_secret_version := version\<rparr>\<rparr>, None, None)))))))"

lemma Role_apply_eq: "Role_apply l rt d role name = role_password d role \<bind> (\<lambda>p. case p of
     BlockedOn b \<Rightarrow> ret (Done (role, Some b, None))
   | Failed err \<Rightarrow> ret (Done (role, None, Some err))
   | Got pv \<Rightarrow>
     openSession l d (om_namespace (dr_meta role)) (cr_name (ro_cluster (dr_spec role))) \<bind> (\<lambda>s. case s of
       BlockedOn b \<Rightarrow> ret (Done (role, Some b, None))
     | Failed err \<Rightarrow> ret (Done (role, None, Some err))
     | Got session \<Rightarrow> deferring (close session)
         (role_session_body l rt role name (fst pv) (snd pv) session)))"
  by (simp add: Role_apply_def role_session_body_def case_prod_unfold cong: attempt.case_cong)

lemma role_session_body_events:
  "emits (role_session_body l rt role name password version session)
    (\<lambda>_ es. list_all (\<lambda>e. sql_event e \<or> e = Ranged) es)"
  unfolding role_session_body_def exists_def Let_def
  by (auto intro!: emits_intro emits_weaken [OF converge_events])

lemma Role_apply_rules:
  "wp session_step (Role_apply l rt d role name) (\<lambda>_ opened. \<not> opened) False"
  "wp (gate_step l) (Role_apply l rt d role name) (\<lambda>_ _. True) s"
  "emits (Role_apply l rt d role name) (\<lambda>_ es. list_all apply_event es)"
  unfolding Role_apply_eq role_password_def get_secret_def Let_def
  by (auto intro!: wp_intro emits_intro simp: session_step_def gate_step_def
      intro: session_body [OF role_session_body_events])

interpretation role: dependent_controller l d "role_kind l rt d"
proof unfold_locales
  fix obj drop_op m s
  show "object_meta_of (ob_wrap (dk_ops (role_kind l rt d)) obj) = ob_meta (dk_ops (role_kind l rt d)) obj"
    "ob_meta (dk_ops (role_kind l rt d)) (ob_with_meta (dk_ops (role_kind l rt d)) obj m) = m"
    by (simp_all add: role_kind_def role_ops_def)
  show "own_cluster (ob_wrap (dk_ops (role_kind l rt d)) obj) =
      Some (om_namespace (ob_meta (dk_ops (role_kind l rt d)) obj), dk_cluster (role_kind l rt d) obj)"
    by (simp add: role_kind_def role_ops_def)
  show "dk_drop (role_kind l rt d) obj = None \<Longrightarrow>
      server_side l (ob_wrap (dk_ops (role_kind l rt d)) obj) = None"
    by (simp add: role_kind_def role_ops_def Let_def split: if_splits)
  show "dk_drop (role_kind l rt d) obj = Some drop_op \<Longrightarrow>
      \<exists>q stmt. server_side l (ob_wrap (dk_ops (role_kind l rt d)) obj) = Some (q, stmt) \<and>
        drop_operation drop_op q stmt"
    by (auto simp: role_kind_def role_ops_def Let_def role_drop.drop_operation_axioms split: if_splits)
  show "wp session_step (dk_apply (role_kind l rt d) obj) (\<lambda>_ opened. \<not> opened) False"
    "wp (gate_step l) (dk_apply (role_kind l rt d) obj) (\<lambda>_ _. True) s"
    "emits (dk_apply (role_kind l rt d) obj) (\<lambda>_ es. list_all apply_event es)"
    by (simp_all add: role_kind_def Role_apply_rules)
qed

lemma grant_missing_earns:
  "earned w \<Longrightarrow> wp (ready_step l) (grant_missing l' s name current wanted desired) (\<lambda>r w'. ry_claim w' = ry_claim w \<and>
    (case r of Inl _ \<Rightarrow> True | Inr _ \<Rightarrow> earned w')) w"
  by (induction wanted arbitrary: w desired) (auto intro!: wp_intro simp: exec_def ready_step_def Let_def elim!: wp_weaken)

lemma revoke_unlisted_earns:
  "earned w \<Longrightarrow> wp (ready_step l) (revoke_unlisted l' s name desired current) (\<lambda>r w'. ry_claim w' = ry_claim w \<and>
    (r = None \<longrightarrow> earned w')) w"
  by (induction current arbitrary: w) (auto intro!: wp_intro simp: exec_def ready_step_def)

lemma converge_earns:
  "earned w \<Longrightarrow> wp (ready_step l) (converge l' rt s name wanted) (\<lambda>r w'. ry_claim w' = ry_claim w \<and>
    (r = Done None \<longrightarrow> earned w')) w"
  unfolding converge_def query_def range_over_def
  by (auto intro!: wp_intro wp_weaken [OF grant_missing_earns] wp_weaken [OF revoke_unlisted_earns]
      simp: ready_step_def)

lemma Role_apply_earns:
  assumes "ry_clean w"
  shows "wp (ready_step l) (Role_apply l rt d role name) (\<lambda>r w'. ry_claim w' = ry_claim w \<and>
    (case r of Panic _ \<Rightarrow> True | Done (role', blockedOn, err) \<Rightarrow> dr_meta role' = dr_meta role \<and>
       (blockedOn = None \<and> err = None \<longrightarrow> earned w'))) w"
proof -
  have body: "wp (ready_step l) (role_session_body l rt role name password version session) (\<lambda>r w'.
      ry_claim w' = c \<and> (case r of Panic _ \<Rightarrow> True | Done (role', blockedOn, err) \<Rightarrow>
        dr_meta role' = dr_meta role \<and> (blockedOn = None \<and> err = None \<longrightarrow> earned w'))) w'"
    if "earned w'" "ry_claim w' = c" for password version session w' c
    using that unfolding role_session_body_def exists_def exec_def query_def Let_def
    by (auto intro!: wp_intro wp_weaken [OF converge_earns] simp: ready_step_def)
  show ?thesis
    using assms unfolding Role_apply_eq role_password_def get_secret_def Let_def
    by (auto intro!: wp_intro session_earns body simp: ready_step_def)
qed

interpretation role_reports: dependent_reporter l d "role_kind l rt d"
proof unfold_locales
  fix w obj obj' changed blockedOn err result
  show "ry_clean w \<Longrightarrow> wp (ready_step l) (dk_apply (role_kind l rt d) obj) (\<lambda>r w'. ry_claim w' = ry_claim w \<and>
      (case r of Panic _ \<Rightarrow> True | Done (obj', blockedOn, err) \<Rightarrow>
         ob_meta (dk_ops (role_kind l rt d)) obj' = ob_meta (dk_ops (role_kind l rt d)) obj \<and>
         (blockedOn = None \<and> err = None \<longrightarrow> earned w'))) w"
    using Role_apply_earns [of w] by (simp add: role_kind_def role_ops_def cong: go.case_cong)
  show "dk_report (role_kind l rt d) obj blockedOn err = (changed, result) \<Longrightarrow>
      \<exists>cs cs'. dependent_status_of (ob_wrap (dk_ops (role_kind l rt d)) changed) =
          Some (cs', om_generation (ob_meta (dk_ops (role_kind l rt d)) obj)) \<and>
        outcome l cs (om_generation (ob_meta (dk_ops (role_kind l rt d)) obj)) blockedOn err = (cs', result)"
    by (auto simp: role_kind_def role_ops_def split: prod.splits)
qed


section \<open>The password rule\<close>

text \<open>
  The monitor reads off the log the role as fetched, the value and version its password Secret
  had, whether the server knows the role, what became of the one CREATE or ALTER, the answer to
  the membership query, the membership statements the server has taken and whether one failed.
\<close>

record role_watch =
  rw_role :: "database_role option"
  rw_read :: "(string \<times> string) option"
  rw_present :: "bool option"
  rw_taken :: "bool option"
  rw_groups :: "rows option"
  rw_done :: "string list"
  rw_failed :: bool

definition role_watch_start :: role_watch where
  "role_watch_start = \<lparr>rw_role = None, rw_read = None, rw_present = None, rw_taken = None,
     rw_groups = None, rw_done = [], rw_failed = False\<rparr>"

definition role_name_of :: "database_role \<Rightarrow> string" where
  "role_name_of dr = nameOrDefault (ro_name (dr_spec dr)) (om_name (dr_meta dr))"

text \<open>
  The membership statements allowed: the grant of a listed group the role is not in, and the
  revocation of an unlisted one it is in.
\<close>

definition membership_due :: "lib \<Rightarrow> database_role \<Rightarrow> rows \<Rightarrow> string \<Rightarrow> bool" where
  "membership_due l dr rows stmt \<longleftrightarrow>
     list_ex (\<lambda>g. g \<notin> set (map hd rows) \<and> stmt = GrantMembership l g (role_name_of dr)) (ro_in_roles (dr_spec dr)) \<or>
     list_ex (\<lambda>g. g \<notin> set (ro_in_roles (dr_spec dr)) \<and> stmt = RevokeMembership l g (role_name_of dr)) (map hd rows)"

text \<open>
  Everything has gone through: the statement is taken, no membership statement failed, every
  listed group was there or is granted, and every group that was there is listed or revoked.
\<close>

definition role_carried_out :: "lib \<Rightarrow> role_watch \<Rightarrow> bool" where
  "role_carried_out l w \<longleftrightarrow> (case (rw_role w, rw_groups w) of
     (Some dr, Some rows) \<Rightarrow> rw_taken w = Some True \<and> \<not> rw_failed w \<and> list_all (\<lambda>row. row \<noteq> []) rows \<and>
       list_all (\<lambda>g. g \<in> set (map hd rows) \<or> GrantMembership l g (role_name_of dr) \<in> set (rw_done w))
         (ro_in_roles (dr_spec dr)) \<and>
       list_all (\<lambda>g. g \<in> set (ro_in_roles (dr_spec dr)) \<or>
         RevokeMembership l g (role_name_of dr) \<in> set (rw_done w)) (map hd rows)
   | _ \<Rightarrow> False)"

text \<open>
  The one statement allowed: CREATE for an absent role, ALTER for a present one, with every
  attribute of the spec, and with the password exactly when one is configured and the role is
  new or the Secret's version differs from the recorded one.
\<close>

definition role_statement_due :: "lib \<Rightarrow> database_role \<Rightarrow> (string \<times> string) option \<Rightarrow> bool \<Rightarrow> go_error + string" where
  "role_statement_due l dr pw present =
     (let name = nameOrDefault (ro_name (dr_spec dr)) (om_name (dr_meta dr));
          attrs = (roleAttributes (dr_spec dr))\<lparr>ra_password := (case pw of None \<Rightarrow> None
            | Some (value, version) \<Rightarrow>
                if \<not> present \<or> version \<noteq> rs_password_secret_version (dr_status dr) then Some value else None)\<rparr>
      in if present then AlterRole l name attrs else CreateRole l name attrs)"

definition password_ref_read :: "database_role \<Rightarrow> string \<Rightarrow> string \<Rightarrow> go_error + secret \<Rightarrow> (string \<times> string) option" where
  "password_ref_read dr ns n r = (case ro_password_secret (dr_spec dr) of None \<Rightarrow> None
     | Some ref \<Rightarrow> if ns = om_namespace (dr_meta dr) \<and> n = ps_name ref then
         (case r of Inl _ \<Rightarrow> None | Inr secret \<Rightarrow>
           map_option (\<lambda>value. (value, om_resource_version (sec_meta secret)))
             (map_of (sec_data secret) (nameOrDefault (ps_key ref) ''password'')))
       else None)"

definition password_step :: "lib \<Rightarrow> role_watch \<Rightarrow> event \<Rightarrow> role_watch option" where
  "password_step l w e = (case e of
     GotObject _ _ r \<Rightarrow> Some (role_watch_start\<lparr>rw_role := (case r of Inr (RoleObject dr) \<Rightarrow> Some dr | _ \<Rightarrow> None)\<rparr>)
   | GotSecret ns n r \<Rightarrow> Some (case rw_role w of None \<Rightarrow> w | Some dr \<Rightarrow>
       (case rw_read w of None \<Rightarrow> w\<lparr>rw_read := password_ref_read dr ns n r\<rparr> | Some _ \<Rightarrow> w))
   | Queried q r \<Rightarrow> (case rw_role w of None \<Rightarrow> Some w | Some dr \<Rightarrow>
       if \<not> IsZero (om_deletion_timestamp (dr_meta dr)) then Some w
       else (case (rw_present w, rw_taken w, rw_groups w) of
         (None, None, None) \<Rightarrow> if RoleExists (role_name_of dr) = Inr q then
             Some (w\<lparr>rw_present := (case r of Inl _ \<Rightarrow> None | Inr rows \<Rightarrow> Some (rows \<noteq> []))\<rparr>) else None
       | (Some _, Some True, None) \<Rightarrow> if RoleMemberships (role_name_of dr) = Inr q then
             Some (w\<lparr>rw_groups := (case r of Inl _ \<Rightarrow> None | Inr rows \<Rightarrow> Some rows)\<rparr>) else None
       | _ \<Rightarrow> None))
   | Executed stmt r \<Rightarrow> (case rw_role w of None \<Rightarrow> Some w | Some dr \<Rightarrow>
       if \<not> IsZero (om_deletion_timestamp (dr_meta dr)) then Some w
       else (case (rw_present w, rw_taken w, rw_groups w) of
         (Some present, None, None) \<Rightarrow>
           if role_statement_due l dr (rw_read w) present = Inr stmt then Some (w\<lparr>rw_taken := Some (r = None)\<rparr>)
           else None
       | (Some _, Some True, Some rows) \<Rightarrow>
           if \<not> rw_failed w \<and> membership_due l dr rows stmt then
             Some (case r of None \<Rightarrow> w\<lparr>rw_done := stmt # rw_done w\<rparr> | Some _ \<Rightarrow> w\<lparr>rw_failed := True\<rparr>)
           else None
       | _ \<Rightarrow> None))
   | PatchedStatus (RoleObject old) (RoleObject new) _ \<Rightarrow>
       if rs_password_secret_version (dr_status new) =
           (if role_carried_out l w then (case rw_read w of None \<Rightarrow> [] | Some (_, version) \<Rightarrow> version)
            else rs_password_secret_version (dr_status old))
       then Some w else None
   | _ \<Rightarrow> Some w)"

lemma role_statement_due_eq:
  "(let attrs = roleAttributes (dr_spec dr);
        attrs = (if password \<noteq> None \<and> (\<not> present \<or> version \<noteq> rs_password_secret_version (dr_status dr))
                  then attrs\<lparr>ra_password := password\<rparr> else attrs)
    in roleStatement l (nameOrDefault (ro_name (dr_spec dr)) (om_name (dr_meta dr))) attrs present) =
   role_statement_due l dr (map_option (\<lambda>p. (p, version)) password) present"
proof -
  have "(roleAttributes s)\<lparr>ra_password := None\<rparr> = roleAttributes s" for s
    by (simp add: roleAttributes_def)
  then show ?thesis
    by (auto simp: role_statement_due_def roleStatement_def Let_def split: option.splits)
qed

lemma password_dying:
  assumes "finalize_event e" "rw_role w = Some dr" "\<not> IsZero (om_deletion_timestamp (dr_meta dr))"
  shows "\<exists>w'. password_step l w e = Some w' \<and> rw_role w' = Some dr"
  using assms by (cases e) (auto simp: password_step_def split: option.splits sum.splits)

lemma openSession_password:
  assumes "rw_role w = Some dr" "ro_password_secret (dr_spec dr) = None \<or> rw_read w \<noteq> None"
  shows "wp (password_step l) (openSession l d ns n) (\<lambda>_ w'. w' = w) w"
  unfolding openSession_def superuserPassword_def call_defs
  using assms by (auto intro!: wp_intro simp: password_step_def password_ref_read_def split: option.splits)

lemma role_password_read:
  assumes "rw_role w = Some dr" "rw_read w = None"
  shows "wp (password_step l) (role_password d dr) (\<lambda>p w'. case p of
      Got (password, version) \<Rightarrow> w' = w\<lparr>rw_read := map_option (\<lambda>x. (x, version)) password\<rparr> \<and>
        (password = None \<longrightarrow> version = []) \<and> (password = None \<longrightarrow> ro_password_secret (dr_spec dr) = None)
    | _ \<Rightarrow> True) w"
  unfolding role_password_def get_secret_def Let_def
  using assms by (auto intro!: wp_intro simp: password_step_def password_ref_read_def)

lemma role_password_groups: "wp (password_step l) (role_password d dr) (\<lambda>_ w'. rw_groups w' = rw_groups w) w"
  unfolding role_password_def get_secret_def Let_def
  by (auto intro!: wp_intro simp: password_step_def split: option.splits)

lemma current_groups_Done:
  "current_groups rows acc = Done cur \<Longrightarrow>
    list_all (\<lambda>row. row \<noteq> []) rows \<and> set cur = set acc \<union> set (map hd rows)"
  by (induction rows acc rule: current_groups.induct) auto

text \<open>The state in which the memberships of a role are brought in line.\<close>

definition converging :: "role_watch \<Rightarrow> database_role \<Rightarrow> rows \<Rightarrow> bool" where
  "converging w dr rows \<longleftrightarrow> rw_role w = Some dr \<and> IsZero (om_deletion_timestamp (dr_meta dr)) \<and>
     rw_present w \<noteq> None \<and> rw_taken w = Some True \<and> rw_groups w = Some rows \<and> \<not> rw_failed w"

lemma converging_done [simp]: "converging (w\<lparr>rw_done := ds\<rparr>) dr rows \<longleftrightarrow> converging w dr rows"
  by (simp add: converging_def)

lemma converging_exec:
  assumes "converging w dr rows" "membership_due l dr rows stmt"
  shows "password_step l w (Executed stmt r) =
    Some (case r of None \<Rightarrow> w\<lparr>rw_done := stmt # rw_done w\<rparr> | Some _ \<Rightarrow> w\<lparr>rw_failed := True\<rparr>)"
  using assms by (auto simp: password_step_def converging_def)

definition keeps_facts :: "role_watch \<Rightarrow> role_watch \<Rightarrow> bool" where
  "keeps_facts w w' \<longleftrightarrow> rw_role w' = rw_role w \<and> rw_read w' = rw_read w"

lemma keeps_facts_trans: "keeps_facts u v \<Longrightarrow> keeps_facts v w \<Longrightarrow> keeps_facts u w"
  by (simp add: keeps_facts_def)

lemma grant_missing_password:
  assumes "converging w dr rows" "set current = set (map hd rows)"
    and "set wanted \<subseteq> set (ro_in_roles (dr_spec dr))"
  shows "wp (password_step l) (grant_missing l s (role_name_of dr) current wanted desired) (\<lambda>r w'. keeps_facts w w' \<and>
    (case r of Inl _ \<Rightarrow> rw_failed w' | Inr d \<Rightarrow> converging w' dr rows \<and> set d = set desired \<union> set wanted \<and>
      set (rw_done w) \<subseteq> set (rw_done w') \<and>
      (\<forall>g \<in> set wanted. g \<in> set (map hd rows) \<or> GrantMembership l g (role_name_of dr) \<in> set (rw_done w')))) w"
  using assms
proof (induction wanted arbitrary: w desired)
  case Nil
  then show ?case by (auto intro!: wp_ret simp: keeps_facts_def)
next
  case (Cons grp wanted)
  let ?post = "\<lambda>r w'. keeps_facts w w' \<and>
    (case r of Inl _ \<Rightarrow> rw_failed w' | Inr d \<Rightarrow> converging w' dr rows \<and> set d = set desired \<union> set (grp # wanted) \<and>
      set (rw_done w) \<subseteq> set (rw_done w') \<and> (\<forall>g \<in> set (grp # wanted). g \<in> set (map hd rows) \<or>
        GrantMembership l g (role_name_of dr) \<in> set (rw_done w')))"
  have IH: "wp (password_step l) (grant_missing l s (role_name_of dr) current wanted (List.insert grp desired)) ?post w1"
    if "converging w1 dr rows" "keeps_facts w w1" "set (rw_done w) \<subseteq> set (rw_done w1)"
      "grp \<in> set (map hd rows) \<or> GrantMembership l grp (role_name_of dr) \<in> set (rw_done w1)" for w1
    by (rule wp_weaken [OF Cons.IH [OF that(1) Cons.prems(2)]])
      (use Cons.prems(3) that(2-4) in \<open>auto split: sum.splits intro: keeps_facts_trans\<close>)
  show ?case
  proof (cases "grp \<in> set current")
    case True
    with IH [of w] Cons.prems(1,2) show ?thesis by (simp add: keeps_facts_def Let_def)
  next
    case False
    then have due: "membership_due l dr rows (GrantMembership l grp (role_name_of dr))"
      using Cons.prems(2,3) by (auto simp: membership_due_def list_ex_iff)
    have "wp (password_step l) (exec s (GrantMembership l grp (role_name_of dr)) \<bind> (\<lambda>r. case r of
        Some err \<Rightarrow> ret (Inl err)
      | None \<Rightarrow> grant_missing l s (role_name_of dr) current wanted (List.insert grp desired))) ?post w"
      unfolding exec_def
    proof (rule wp_bind, rule wp_call)
      show "case password_step l w (Executed (GrantMembership l grp (role_name_of dr)) a) of None \<Rightarrow> False
        | Some w1 \<Rightarrow> wp (password_step l) (case a of Some err \<Rightarrow> ret (Inl err)
            | None \<Rightarrow> grant_missing l s (role_name_of dr) current wanted (List.insert grp desired)) ?post w1" for a
        using IH [of "w\<lparr>rw_done := GrantMembership l grp (role_name_of dr) # rw_done w\<rparr>"] Cons.prems(1)
        by (cases a) (auto simp: converging_exec [OF Cons.prems(1) due] keeps_facts_def intro!: wp_ret)
    qed
    with False show ?thesis by (simp add: Let_def)
  qed
qed

lemma revoke_unlisted_password:
  assumes "converging w dr rows" "set desired = set (ro_in_roles (dr_spec dr))"
    and "set current \<subseteq> set (map hd rows)"
  shows "wp (password_step l) (revoke_unlisted l s (role_name_of dr) desired current) (\<lambda>r w'. keeps_facts w w' \<and>
    (case r of Some _ \<Rightarrow> rw_failed w' | None \<Rightarrow> converging w' dr rows \<and> set (rw_done w) \<subseteq> set (rw_done w') \<and>
      (\<forall>g \<in> set current. g \<in> set (ro_in_roles (dr_spec dr)) \<or>
        RevokeMembership l g (role_name_of dr) \<in> set (rw_done w')))) w"
  using assms
proof (induction current arbitrary: w)
  case Nil
  then show ?case by (auto intro!: wp_ret simp: keeps_facts_def)
next
  case (Cons grp current)
  let ?post = "\<lambda>r w'. keeps_facts w w' \<and>
    (case r of Some _ \<Rightarrow> rw_failed w' | None \<Rightarrow> converging w' dr rows \<and> set (rw_done w) \<subseteq> set (rw_done w') \<and>
      (\<forall>g \<in> set (grp # current). g \<in> set (ro_in_roles (dr_spec dr)) \<or>
        RevokeMembership l g (role_name_of dr) \<in> set (rw_done w')))"
  have IH: "wp (password_step l) (revoke_unlisted l s (role_name_of dr) desired current) ?post w1"
    if "converging w1 dr rows" "keeps_facts w w1" "set (rw_done w) \<subseteq> set (rw_done w1)"
      "grp \<in> set (ro_in_roles (dr_spec dr)) \<or> RevokeMembership l grp (role_name_of dr) \<in> set (rw_done w1)" for w1
    by (rule wp_weaken [OF Cons.IH [OF that(1) Cons.prems(2)]])
      (use Cons.prems(3) that(2-4) in \<open>auto split: option.splits intro: keeps_facts_trans\<close>)
  show ?case
  proof (cases "grp \<in> set desired")
    case True
    with IH [of w] Cons.prems(1,2) show ?thesis by (simp add: keeps_facts_def)
  next
    case False
    then have due: "membership_due l dr rows (RevokeMembership l grp (role_name_of dr))"
      using Cons.prems(2,3) by (auto simp: membership_due_def list_ex_iff)
    have "wp (password_step l) (exec s (RevokeMembership l grp (role_name_of dr)) \<bind> (\<lambda>r. case r of
        Some err \<Rightarrow> ret (Some err)
      | None \<Rightarrow> revoke_unlisted l s (role_name_of dr) desired current)) ?post w"
      unfolding exec_def
    proof (rule wp_bind, rule wp_call)
      show "case password_step l w (Executed (RevokeMembership l grp (role_name_of dr)) a) of None \<Rightarrow> False
        | Some w1 \<Rightarrow> wp (password_step l) (case a of Some err \<Rightarrow> ret (Some err)
            | None \<Rightarrow> revoke_unlisted l s (role_name_of dr) desired current) ?post w1" for a
        using IH [of "w\<lparr>rw_done := RevokeMembership l grp (role_name_of dr) # rw_done w\<rparr>"] Cons.prems(1)
        by (cases a) (auto simp: converging_exec [OF Cons.prems(1) due] keeps_facts_def intro!: wp_ret)
    qed
    with False show ?thesis by simp
  qed
qed

text \<open>The memberships go through exactly when \<open>converge\<close> returns no error.\<close>

lemma converge_password:
  assumes "rw_role w = Some dr" "IsZero (om_deletion_timestamp (dr_meta dr))" "rw_present w \<noteq> None"
    "rw_taken w = Some True" "rw_groups w = None" "\<not> rw_failed w"
  shows "wp (password_step l) (converge l rt s (role_name_of dr) (ro_in_roles (dr_spec dr)))
    (\<lambda>r w'. \<forall>x. r = Done x \<longrightarrow> keeps_facts w w' \<and> (role_carried_out l w' \<longleftrightarrow> x = None)) w"
proof -
  let ?post = "\<lambda>r w'. \<forall>x. r = Done x \<longrightarrow> keeps_facts w w' \<and> (role_carried_out l w' \<longleftrightarrow> x = None)"
  have ranged: "wp (password_step l) (range_over rt xs) (\<lambda>ys w'. w' = w1 \<and> set ys = set xs) w1"
    for w1 and xs :: "string list"
    unfolding range_over_def by (auto intro!: wp_intro simp: password_step_def)
  have failed: "rw_failed w1 \<Longrightarrow> \<not> role_carried_out l w1" for w1
    by (auto simp: role_carried_out_def split: option.splits)
  have body: "wp (password_step l) (case current_groups rows [] of
         Panic t \<Rightarrow> ret (Panic t)
       | Done current \<Rightarrow> grant_missing l s (role_name_of dr) current (ro_in_roles (dr_spec dr)) [] \<bind> (\<lambda>g. case g of
           Inl err \<Rightarrow> ret (Done (Some err))
         | Inr desired \<Rightarrow> range_over rt current \<bind> (\<lambda>visited.
             revoke_unlisted l s (role_name_of dr) desired visited \<bind> (\<lambda>r. ret (Done r))))) ?post
      (w\<lparr>rw_groups := Some rows\<rparr>)" for rows
  proof (rule wp_go)
    fix current
    assume "current_groups rows [] = Done current"
    then have cur: "list_all (\<lambda>row. row \<noteq> []) rows" "set current = set (map hd rows)"
      by (auto dest: current_groups_Done)
    have start: "converging (w\<lparr>rw_groups := Some rows\<rparr>) dr rows"
      using assms by (simp add: converging_def)
    have fin: "role_carried_out l w'"
      if "converging w' dr rows"
        and "\<forall>g \<in> set (ro_in_roles (dr_spec dr)). g \<in> set (map hd rows) \<or>
          GrantMembership l g (role_name_of dr) \<in> set (rw_done w')"
        and "\<forall>g \<in> set (map hd rows). g \<in> set (ro_in_roles (dr_spec dr)) \<or>
          RevokeMembership l g (role_name_of dr) \<in> set (rw_done w')" for w'
      using that cur(1) by (simp add: role_carried_out_def converging_def list_all_iff)
    have from_start: "keeps_facts (w\<lparr>rw_groups := Some rows\<rparr>) w1 \<longleftrightarrow> keeps_facts w w1" for w1
      by (simp add: keeps_facts_def)
    have revoked: "wp (password_step l) (range_over rt current \<bind> (\<lambda>visited.
             revoke_unlisted l s (role_name_of dr) desired visited \<bind> (\<lambda>r. ret (Done r)))) ?post w1"
      if w1: "keeps_facts w w1" "converging w1 dr rows" "set desired = set (ro_in_roles (dr_spec dr))"
        "\<forall>g \<in> set (ro_in_roles (dr_spec dr)). g \<in> set (map hd rows) \<or>
          GrantMembership l g (role_name_of dr) \<in> set (rw_done w1)" for desired w1
    proof (rule wp_then [OF ranged], elim conjE, erule ssubst, rule wp_then)
      fix visited
      assume "set visited = set current"
      then have "set visited \<subseteq> set (map hd rows)" using cur(2) by simp
      then show "wp (password_step l) (revoke_unlisted l s (role_name_of dr) desired visited) (\<lambda>r w'. keeps_facts w1 w' \<and>
        (case r of Some _ \<Rightarrow> rw_failed w' | None \<Rightarrow> converging w' dr rows \<and> set (rw_done w1) \<subseteq> set (rw_done w') \<and>
          (\<forall>g \<in> set visited. g \<in> set (ro_in_roles (dr_spec dr)) \<or>
            RevokeMembership l g (role_name_of dr) \<in> set (rw_done w')))) w1"
        by (rule revoke_unlisted_password [OF w1(2,3)])
      fix r w'
      assume r: "keeps_facts w1 w' \<and> (case r of Some _ \<Rightarrow> rw_failed w' | None \<Rightarrow> converging w' dr rows \<and>
          set (rw_done w1) \<subseteq> set (rw_done w') \<and> (\<forall>g \<in> set visited. g \<in> set (ro_in_roles (dr_spec dr)) \<or>
            RevokeMembership l g (role_name_of dr) \<in> set (rw_done w')))"
      have "role_carried_out l w' \<longleftrightarrow> r = None"
      proof (cases r)
        case None
        with r w1(4) \<open>set visited = set current\<close> cur(2) have "role_carried_out l w'"
          by (intro fin) auto
        with None show ?thesis by simp
      qed (use r failed in simp)
      with r w1(1) show "wp (password_step l) (ret (Done r)) ?post w'"
        by (auto intro!: wp_ret intro: keeps_facts_trans)
    qed
    show "wp (password_step l) (grant_missing l s (role_name_of dr) current (ro_in_roles (dr_spec dr)) [] \<bind> (\<lambda>g. case g of
           Inl err \<Rightarrow> ret (Done (Some err))
         | Inr desired \<Rightarrow> range_over rt current \<bind> (\<lambda>visited.
             revoke_unlisted l s (role_name_of dr) desired visited \<bind> (\<lambda>r. ret (Done r))))) ?post
      (w\<lparr>rw_groups := Some rows\<rparr>)"
      by (rule wp_then [OF grant_missing_password [OF start cur(2) subset_refl]], rule wp_sum)
        (auto intro!: wp_ret revoked simp: failed from_start)
  qed (simp add: wp_ret)
  have none: "\<not> role_carried_out l w1" if "rw_groups w1 = None" for w1
    using that by (auto simp: role_carried_out_def split: option.splits)
  have same: "w\<lparr>rw_groups := None\<rparr> = w" using assms(5) by simp
  show ?thesis
    unfolding converge_def query_def
    by (rule wp_sum, simp add: wp_ret none assms(5) keeps_facts_def, rule wp_bind, rule wp_call)
      (use assms body in \<open>auto simp: password_step_def same none keeps_facts_def wp_ret split: sum.splits option.splits\<close>)
qed

lemma role_session_body_password:
  assumes "rw_role w = Some dr" "IsZero (om_deletion_timestamp (dr_meta dr))" "rw_present w = None"
    "rw_taken w = None" "rw_groups w = None" "\<not> rw_failed w"
    "rw_read w = map_option (\<lambda>x. (x, version)) password"
  shows "wp (password_step l) (role_session_body l rt dr (role_name_of dr) password version session)
    (\<lambda>r w'. \<forall>role' b err. r = Done (role', b, err) \<longrightarrow> dr_meta role' = dr_meta dr \<and> keeps_facts w w' \<and>
      rs_password_secret_version (dr_status role') =
        (if role_carried_out l w' then version else rs_password_secret_version (dr_status dr))) w"
proof -
  have none: "\<not> role_carried_out l w1" if "rw_groups w1 = None" for w1
    using that by (auto simp: role_carried_out_def split: option.splits)
  have converged: "wp (password_step l) (converge l rt session (role_name_of dr) (ro_in_roles (dr_spec dr)))
      (\<lambda>r w'. \<forall>x. r = Done x \<longrightarrow> keeps_facts w w' \<and> (role_carried_out l w' \<longleftrightarrow> x = None))
      (w\<lparr>rw_present := Some b, rw_taken := Some True\<rparr>)" for b
    by (rule wp_weaken [OF converge_password [where dr = dr]]) (use assms in \<open>auto simp: keeps_facts_def\<close>)
  have attrs: "roleStatement l (role_name_of dr) (if (\<exists>y. password = Some y) \<and>
        (rows = [] \<or> version \<noteq> rs_password_secret_version (dr_status dr))
      then (roleAttributes (dr_spec dr))\<lparr>ra_password := password\<rparr> else roleAttributes (dr_spec dr)) (rows \<noteq> []) =
    role_statement_due l dr (rw_read w) (rows \<noteq> [])" for rows :: rows
    using role_statement_due_eq [of dr password "rows \<noteq> []" version l] assms(7)
    by (simp add: Let_def role_name_of_def)
  have same: "w\<lparr>rw_present := None\<rparr> = w" using assms(3) by simp
  show ?thesis
    unfolding role_session_body_def exists_def query_def exec_def Let_def
    using assms(1-6)
    by (auto intro!: wp_intro wp_weaken [OF converged] simp: password_step_def attrs none keeps_facts_def same)
qed

lemma Role_apply_password:
  assumes "rw_role w = Some dr" "IsZero (om_deletion_timestamp (dr_meta dr))" "rw_read w = None"
    "rw_present w = None" "rw_taken w = None" "rw_groups w = None" "\<not> rw_failed w"
  shows "wp (password_step l) (Role_apply l rt d dr (role_name_of dr)) (\<lambda>r w'. \<forall>role' b err. r = Done (role', b, err) \<longrightarrow>
      dr_meta role' = dr_meta dr \<and> rs_password_secret_version (dr_status role') =
        (if role_carried_out l w' then (case rw_read w' of None \<Rightarrow> [] | Some (_, version) \<Rightarrow> version)
         else rs_password_secret_version (dr_status dr))) w"
proof -
  have none: "\<not> role_carried_out l w1" if "rw_groups w1 = None" for w1
    using that by (auto simp: role_carried_out_def split: option.splits)
  have closing: "wp (password_step l) (close s) (\<lambda>_ w'. w' = w1) w1" for s :: "'a session" and w1
    unfolding close_def by (rule wp_call) (simp add: password_step_def)
  have opened: "wp (password_step l) (openSession l d ns n) (\<lambda>_ w'. w' = w\<lparr>rw_read := x\<rparr>) (w\<lparr>rw_read := x\<rparr>)"
    if "x = None \<Longrightarrow> ro_password_secret (dr_spec dr) = None" for ns n x
  proof (rule openSession_password [where dr = dr])
    show "ro_password_secret (dr_spec dr) = None \<or> rw_read (w\<lparr>rw_read := x\<rparr>) \<noteq> None"
      using that by (cases x) auto
  qed (simp add: assms(1))
  have body: "wp (password_step l) (role_session_body l rt dr (role_name_of dr) password version session)
    (\<lambda>r w'. \<forall>role' b err. r = Done (role', b, err) \<longrightarrow> dr_meta role' = dr_meta dr \<and>
      keeps_facts (w\<lparr>rw_read := map_option (\<lambda>x. (x, version)) password\<rparr>) w' \<and>
      rs_password_secret_version (dr_status role') =
        (if role_carried_out l w' then version else rs_password_secret_version (dr_status dr)))
    (w\<lparr>rw_read := map_option (\<lambda>x. (x, version)) password\<rparr>)" for password version session
    by (rule role_session_body_password) (simp_all add: assms)
  let ?post = "\<lambda>r w'. \<forall>role' b err. r = Done (role', b, err) \<longrightarrow>
      dr_meta role' = dr_meta dr \<and> rs_password_secret_version (dr_status role') =
        (if role_carried_out l w' then (case rw_read w' of None \<Rightarrow> [] | Some (_, version) \<Rightarrow> version)
         else rs_password_secret_version (dr_status dr))"
  have session: "wp (password_step l) (deferring (close session)
        (role_session_body l rt dr (role_name_of dr) password version session))
      ?post (w\<lparr>rw_read := map_option (\<lambda>x. (x, version)) password\<rparr>)"
    if "password = None \<longrightarrow> version = []" for password version session
  proof (rule wp_deferring, rule wp_weaken [OF body], rule wp_weaken [OF closing])
    fix r w1 x w2
    assume "\<forall>role' b err. r = Done (role', b, err) \<longrightarrow> dr_meta role' = dr_meta dr \<and>
      keeps_facts (w\<lparr>rw_read := map_option (\<lambda>x. (x, version)) password\<rparr>) w1 \<and>
      rs_password_secret_version (dr_status role') =
        (if role_carried_out l w1 then version else rs_password_secret_version (dr_status dr))" "w2 = w1"
    with that show "?post r w2" by (cases password) (auto simp: keeps_facts_def)
  qed
  show ?thesis
    unfolding Role_apply_eq
  proof (rule wp_bind, rule wp_weaken [OF wp_conj [OF role_password_read [OF assms(1,3)] role_password_groups]])
    fix p w1
    assume p: "(case p of Got (password, version) \<Rightarrow> w1 = w\<lparr>rw_read := map_option (\<lambda>x. (x, version)) password\<rparr> \<and>
        (password = None \<longrightarrow> version = []) \<and> (password = None \<longrightarrow> ro_password_secret (dr_spec dr) = None)
      | _ \<Rightarrow> True) \<and> rw_groups w1 = rw_groups w"
    show "wp (password_step l) (case p of BlockedOn b \<Rightarrow> ret (Done (dr, Some b, None))
       | Failed err \<Rightarrow> ret (Done (dr, None, Some err))
       | Got pv \<Rightarrow> openSession l d (om_namespace (dr_meta dr)) (cr_name (ro_cluster (dr_spec dr))) \<bind> (\<lambda>s. case s of
           BlockedOn b \<Rightarrow> ret (Done (dr, Some b, None))
         | Failed err \<Rightarrow> ret (Done (dr, None, Some err))
         | Got session \<Rightarrow> deferring (close session)
             (role_session_body l rt dr (role_name_of dr) (fst pv) (snd pv) session))) ?post w1"
    proof (cases p)
      case (Got pv)
      obtain password version where pv: "pv = (password, version)" by (cases pv)
      from p Got pv have w1: "w1 = w\<lparr>rw_read := map_option (\<lambda>x. (x, version)) password\<rparr>"
        and v: "password = None \<longrightarrow> version = []"
        and ref: "map_option (\<lambda>x. (x, version)) password = None \<Longrightarrow> ro_password_secret (dr_spec dr) = None"
        by auto
      have groups: "rw_groups (w\<lparr>rw_read := map_option (\<lambda>x. (x, version)) password\<rparr>) = None"
        using assms(6) by simp
      show ?thesis
        unfolding Got attempt.case pv fst_conv snd_conv w1
        by (rule wp_then [OF opened [OF ref]], assumption)
          (erule ssubst, intro wp_attempt session [OF v] wp_ret, simp_all add: none groups)
    qed (use p assms(6) none in \<open>auto intro!: wp_ret\<close>)
  qed
qed

lemma password_start [simp]:
  "rw_role role_watch_start = None" "rw_read role_watch_start = None"
  "rw_present role_watch_start = None" "rw_taken role_watch_start = None"
  "rw_groups role_watch_start = None" "\<not> rw_failed role_watch_start"
  by (simp_all add: role_watch_start_def)

lemma Role_Reconcile_password:
  "wp (password_step l) (Role_Reconcile l rt d ns n) (\<lambda>_ _. True) w"
proof -
  have fin: "wp (password_step l) (finalize l d (role_ops (dep_client d)) dr c (if b then Some (dropRole l nm) else None))
      (\<lambda>_ w'. rw_role w' = Some dr) w1"
    if "rw_role w1 = Some dr" "\<not> IsZero (om_deletion_timestamp (dr_meta dr))" for dr c b nm w1
  proof (rule wp_invariant [where p = finalize_event])
    show "emits (finalize l d (role_ops (dep_client d)) dr c (if b then Some (dropRole l nm) else None))
        (\<lambda>_ es. list_all finalize_event es)"
      by (simp add: finalize_None_events role_drop.finalize_events)
  qed (use password_dying that in blast)+
  have ensured: "wp (password_step l) (ensureFinalizer l ops dr) (\<lambda>_ w'. w' = w1) w1"
    for w1 ops and dr :: database_role
    unfolding ensureFinalizer_def update_object_def Let_def
    by (auto intro!: wp_intro simp: password_step_def)
  have patched: "wp (password_step l) (patch_status f RoleObject old new) (\<lambda>_ _. True) w1"
    if "rs_password_secret_version (dr_status new) =
         (if role_carried_out l w1 then (case rw_read w1 of None \<Rightarrow> [] | Some (_, version) \<Rightarrow> version)
          else rs_password_secret_version (dr_status old))" for f old new w1
    unfolding patch_status_def using that by (intro wp_call) (simp add: password_step_def)
  have live: "wp (password_step l) (Role_apply l rt d dr (nameOrDefault (ro_name (dr_spec dr)) (om_name (dr_meta dr)))
      \<bind> (\<lambda>a. case a of
              Panic t \<Rightarrow> ret (Panic t)
            | Done (role', blockedOn, applyErr) \<Rightarrow>
              (case outcome l (ds_conditions (dr_status role')) (om_generation (dr_meta role')) blockedOn applyErr of
                 (conditions, result) \<Rightarrow>
                   (let changed = role'\<lparr>dr_status := (dr_status role')\<lparr>ds_conditions := conditions,
                      ds_observed_generation := om_generation (dr_meta role')\<rparr>\<rparr> in
                    patch_status (k_patch_role_status (dep_client d)) RoleObject dr changed \<bind> (\<lambda>p.
                      case p of Some e \<Rightarrow> ret (Done (no_requeue, Some (Wrap ''update status'' e)))
                      | None \<Rightarrow> ret (Done (result, None)))))))
      (\<lambda>_ _. True) (role_watch_start\<lparr>rw_role := Some dr\<rparr>)"
    if "IsZero (om_deletion_timestamp (dr_meta dr))" for dr
    unfolding role_name_of_def [symmetric]
    by (rule wp_then [OF Role_apply_password [OF _ that]])
      (auto intro!: wp_go wp_prod wp_Let wp_bind wp_ret wp_option wp_weaken [OF patched])
  have got: "wp (password_step l) (get_object f RoleObject ns n)
      (\<lambda>r w'. \<forall>dr. r = Inr dr \<longrightarrow> w' = role_watch_start\<lparr>rw_role := Some dr\<rparr>) w" for f
    unfolding get_object_def by (rule wp_call) (simp add: password_step_def)
  show ?thesis
    unfolding Role_Reconcile_def
    apply (rule wp_bind, rule wp_weaken [OF got], rule wp_sum, simp add: wp_ret)
    apply (rule wp_Let, rule wp_if, rule wp_Let, rule wp_bind, rule wp_weaken [OF fin])
       apply (simp, simp, simp add: wp_ret)
    apply (rule wp_bind, rule wp_weaken [OF ensured], rule wp_prod, rule wp_if, simp add: wp_ret)
    apply (simp only: not_not simp_thms, rule live, assumption)
    done
qed

text \<open>C16. A role reconcile sends one CREATE for an absent role or ALTER for a present one, with the
  attributes of the spec, and puts the password into it exactly when one is configured and the
  role is new or its Secret's version is not the recorded one. After it, it sends only the
  grants of listed groups the server did not answer and the revocations of unlisted ones it
  did, and none after one that failed. The status it writes records the version of the Secret
  just read exactly when the server has taken the statement, every grant and every revocation
  due, and leaves the recorded version alone otherwise.\<close>

theorem role_password_rule:
  "complies (password_step l) role_watch_start (trace_of (Role_Reconcile l rt d ns n) e)"
  by (rule wp_complies [OF Role_Reconcile_password])

end
