(* ===== verification/ServerSecretController.thy ===== *)
theory ServerSecretController
  imports Readiness
begin

text \<open>
  internal/controller/serversecret_controller.go: the ServerSecret reconciler. The inline
  options and the keys of the referenced Secret are merged, rendered into one statement and
  run on every reconcile; deletion always drops.
\<close>

section \<open>The code\<close>

definition server_secret_ops :: "'e client \<Rightarrow> ('e, server_secret) object_ops" where
  "server_secret_ops c = \<lparr>ob_wrap = ServerSecretObject, ob_meta = se_meta,
     ob_with_meta = (\<lambda>se m. se\<lparr>se_meta := m\<rparr>), ob_update = k_update_server_secret c\<rparr>"

definition dropServerSecret :: "lib \<Rightarrow> string \<Rightarrow> 'e session \<Rightarrow> ('e, go_error option) eff" where
  "dropServerSecret l name session = (case SecretExists name of
     Inl err \<Rightarrow> ret (Some err)
   | Inr q \<Rightarrow> exists session q \<bind> (\<lambda>r. case r of
         Inl err \<Rightarrow> ret (Some err)
       | Inr present \<Rightarrow> if \<not> present then ret None else exec session (DropSecret l name)))"

definition secret_options :: "'e dependents \<Rightarrow> server_secret \<Rightarrow> ('e, (gomap \<times> string) attempt) eff" where
  "secret_options d secret =
     (let options = maps_Copy [] (ss_options (se_spec secret)) in
      case ss_values_from (se_spec secret) of
        None \<Rightarrow> ret (Got (options, []))
      | Some ref \<Rightarrow> get_secret (dep_client d) (om_namespace (se_meta secret)) (lor_name ref) \<bind> (\<lambda>r. case r of
          Inl err \<Rightarrow>
            if is_not_found err then ret (BlockedOn \<lparr>reason = reasonValuesSecretMissing,
              message = ''secret '' @ fmt_q (lor_name ref) @ '' not found''\<rparr>)
            else ret (Failed (Wrap ''get values secret'' err))
        | Inr values_secret \<Rightarrow>
            ret (Got (maps_Copy options (sec_data values_secret), om_resource_version (sec_meta values_secret)))))"

text \<open>\<open>CreateSecret\<close> ranges over the option map, so its entries are passed in the order visited.\<close>

definition ServerSecret_apply :: "lib \<Rightarrow> 'e runtime \<Rightarrow> 'e dependents \<Rightarrow> server_secret \<Rightarrow> string \<Rightarrow>
    ('e, server_secret \<times> blocked option \<times> go_error option) eff" where
  "ServerSecret_apply l rt d secret name = secret_options d secret \<bind> (\<lambda>p. case p of
     BlockedOn b \<Rightarrow> ret (secret, Some b, None)
   | Failed err \<Rightarrow> ret (secret, None, Some err)
   | Got (options, version) \<Rightarrow> range_over rt options \<bind> (\<lambda>visited.
       case CreateSecret l name (ss_type (se_spec secret)) (ss_scope (se_spec secret)) visited of
         Inl err \<Rightarrow> ret (secret, Some \<lparr>reason = reasonInvalidSpec, message = error_text err\<rparr>, None)
       | Inr statement \<Rightarrow>
         openSession l d (om_namespace (se_meta secret)) (cr_name (ss_cluster (se_spec secret))) \<bind> (\<lambda>s. case s of
           BlockedOn b \<Rightarrow> ret (secret, Some b, None)
         | Failed err \<Rightarrow> ret (secret, None, Some err)
         | Got session \<Rightarrow> deferring (close session) (exec session statement \<bind> (\<lambda>r. case r of
             Some err \<Rightarrow> ret (secret, None, Some err)
           | None \<Rightarrow> ret (secret\<lparr>se_status :=
               (se_status secret)\<lparr>sv_values_secret_version := version\<rparr>\<rparr>, None, None))))))"

definition ServerSecret_Reconcile :: "lib \<Rightarrow> 'e runtime \<Rightarrow> 'e dependents \<Rightarrow> string \<Rightarrow> string \<Rightarrow>
    ('e, reconcile_result go) eff" where
  "ServerSecret_Reconcile l rt d ns n =
     get_object (k_get_server_secret (dep_client d)) ServerSecretObject ns n \<bind> (\<lambda>r. case r of
       Inl err \<Rightarrow> ret (Done (no_requeue, ignore_not_found (Some err)))
     | Inr secret \<Rightarrow>
         (let name = nameOrDefault (ss_name (se_spec secret)) (om_name (se_meta secret)) in
          if \<not> IsZero (om_deletion_timestamp (se_meta secret)) then
            (let drop_op = dropServerSecret l name
             in finalize l d (server_secret_ops (dep_client d)) secret (cr_name (ss_cluster (se_spec secret)))
                  (Some drop_op) \<bind> (\<lambda>r. ret (Done r)))
          else ensureFinalizer l (server_secret_ops (dep_client d)) secret \<bind> (\<lambda>(added, err).
            if added \<or> err \<noteq> None then ret (Done (no_requeue, err))
            else ServerSecret_apply l rt d secret name \<bind> (\<lambda>(secret', blockedOn, applyErr).
              (case outcome l (ds_conditions (se_status secret')) (om_generation (se_meta secret')) blockedOn applyErr of
                 (conditions, result) \<Rightarrow>
                   (let changed = secret'\<lparr>se_status := (se_status secret')\<lparr>ds_conditions := conditions,
                      ds_observed_generation := om_generation (se_meta secret')\<rparr>\<rparr> in
                    patch_status (k_patch_server_secret_status (dep_client d)) ServerSecretObject secret changed
                      \<bind> (\<lambda>p. case p of
                        Some e \<Rightarrow> ret (Done (no_requeue, Some (Wrap ''update status'' e)))
                      | None \<Rightarrow> ret (Done (result, None)))))))))"

section \<open>The interfaces it provides\<close>

interpretation server_secret_drop:
  drop_operation "dropServerSecret l name" "SecretExists name" "DropSecret l name"
  by unfold_locales (simp add: dropServerSecret_def drop_shape)

definition server_secret_kind :: "lib \<Rightarrow> 'e runtime \<Rightarrow> 'e dependents \<Rightarrow> ('e, server_secret) dependent_kind" where
  "server_secret_kind l rt d = \<lparr>
     dk_ops = server_secret_ops (dep_client d),
     dk_get = k_get_server_secret (dep_client d),
     dk_cluster = (\<lambda>se. cr_name (ss_cluster (se_spec se))),
     dk_drop = (\<lambda>se. Some (dropServerSecret l (nameOrDefault (ss_name (se_spec se)) (om_name (se_meta se))))),
     dk_apply = (\<lambda>se. ServerSecret_apply l rt d se (nameOrDefault (ss_name (se_spec se)) (om_name (se_meta se)))
       \<bind> (\<lambda>r. ret (Done r))),
     dk_report = (\<lambda>se blockedOn err.
       case outcome l (ds_conditions (se_status se)) (om_generation (se_meta se)) blockedOn err of
         (conditions, result) \<Rightarrow> (se\<lparr>se_status := (se_status se)\<lparr>ds_conditions := conditions,
            ds_observed_generation := om_generation (se_meta se)\<rparr>\<rparr>, result)),
     dk_patch = k_patch_server_secret_status (dep_client d)\<rparr>"

lemma ServerSecret_Reconcile_shape:
  "ServerSecret_Reconcile l rt d ns n = dependent_reconcile l d (server_secret_kind l rt d) ns n"
  by (simp add: ServerSecret_Reconcile_def dependent_reconcile_def server_secret_kind_def server_secret_ops_def
      Let_def case_prod_unfold cong: sum.case_cong if_cong go.case_cong)

definition secret_session_body :: "server_secret \<Rightarrow> string \<Rightarrow> string \<Rightarrow> 'e session \<Rightarrow>
    ('e, server_secret \<times> blocked option \<times> go_error option) eff" where
  "secret_session_body secret version statement session = exec session statement \<bind> (\<lambda>r. case r of
             Some err \<Rightarrow> ret (secret, None, Some err)
           | None \<Rightarrow> ret (secret\<lparr>se_status :=
               (se_status secret)\<lparr>sv_values_secret_version := version\<rparr>\<rparr>, None, None))"

lemma ServerSecret_apply_eq: "ServerSecret_apply l rt d secret name = secret_options d secret \<bind> (\<lambda>p. case p of
     BlockedOn b \<Rightarrow> ret (secret, Some b, None)
   | Failed err \<Rightarrow> ret (secret, None, Some err)
   | Got ov \<Rightarrow> range_over rt (fst ov) \<bind> (\<lambda>visited.
       case CreateSecret l name (ss_type (se_spec secret)) (ss_scope (se_spec secret)) visited of
         Inl err \<Rightarrow> ret (secret, Some \<lparr>reason = reasonInvalidSpec, message = error_text err\<rparr>, None)
       | Inr statement \<Rightarrow>
         openSession l d (om_namespace (se_meta secret)) (cr_name (ss_cluster (se_spec secret))) \<bind> (\<lambda>s. case s of
           BlockedOn b \<Rightarrow> ret (secret, Some b, None)
         | Failed err \<Rightarrow> ret (secret, None, Some err)
         | Got session \<Rightarrow> deferring (close session) (secret_session_body secret (snd ov) statement session))))"
  by (simp add: ServerSecret_apply_def secret_session_body_def case_prod_unfold
      cong: attempt.case_cong sum.case_cong)

lemma secret_session_body_events:
  "emits (secret_session_body secret version statement session)
    (\<lambda>_ es. list_all (\<lambda>e. sql_event e \<or> e = Ranged) es)"
  unfolding secret_session_body_def by (auto intro!: emits_intro)

lemma ServerSecret_apply_rules:
  "wp session_step (ServerSecret_apply l rt d secret name) (\<lambda>_ opened. \<not> opened) False"
  "wp (gate_step l) (ServerSecret_apply l rt d secret name) (\<lambda>_ _. True) s"
  "emits (ServerSecret_apply l rt d secret name) (\<lambda>_ es. list_all apply_event es)"
  unfolding ServerSecret_apply_eq secret_options_def get_secret_def range_over_def Let_def
  by (auto intro!: wp_intro emits_intro session_body [OF secret_session_body_events]
      simp: session_step_def gate_step_def)

interpretation server_secret: dependent_controller l d "server_secret_kind l rt d"
proof unfold_locales
  fix obj drop_op m s
  show "object_meta_of (ob_wrap (dk_ops (server_secret_kind l rt d)) obj) =
      ob_meta (dk_ops (server_secret_kind l rt d)) obj"
    "ob_meta (dk_ops (server_secret_kind l rt d)) (ob_with_meta (dk_ops (server_secret_kind l rt d)) obj m) = m"
    by (simp_all add: server_secret_kind_def server_secret_ops_def)
  show "own_cluster (ob_wrap (dk_ops (server_secret_kind l rt d)) obj) =
      Some (om_namespace (ob_meta (dk_ops (server_secret_kind l rt d)) obj), dk_cluster (server_secret_kind l rt d) obj)"
    by (simp add: server_secret_kind_def server_secret_ops_def)
  show "dk_drop (server_secret_kind l rt d) obj = None \<Longrightarrow>
      server_side l (ob_wrap (dk_ops (server_secret_kind l rt d)) obj) = None"
    by (simp add: server_secret_kind_def)
  show "dk_drop (server_secret_kind l rt d) obj = Some drop_op \<Longrightarrow>
      \<exists>q stmt. server_side l (ob_wrap (dk_ops (server_secret_kind l rt d)) obj) = Some (q, stmt) \<and>
        drop_operation drop_op q stmt"
    by (auto simp: server_secret_kind_def server_secret_ops_def Let_def
        server_secret_drop.drop_operation_axioms)
  show "wp session_step (dk_apply (server_secret_kind l rt d) obj) (\<lambda>_ opened. \<not> opened) False"
    "wp (gate_step l) (dk_apply (server_secret_kind l rt d) obj) (\<lambda>_ _. True) s"
    "emits (dk_apply (server_secret_kind l rt d) obj) (\<lambda>_ es. list_all apply_event es)"
    unfolding server_secret_kind_def
    by (auto intro!: wp_intro emits_intro wp_weaken [OF ServerSecret_apply_rules(1)]
        wp_weaken [OF ServerSecret_apply_rules(2)] emits_weaken [OF ServerSecret_apply_rules(3)])
qed

lemma ServerSecret_apply_earns:
  assumes "ry_clean w"
  shows "wp (ready_step l) (ServerSecret_apply l rt d secret name) (\<lambda>(secret', blockedOn, err) w'.
    ry_claim w' = ry_claim w \<and> se_meta secret' = se_meta secret \<and> (blockedOn = None \<and> err = None \<longrightarrow> earned w')) w"
  using assms unfolding ServerSecret_apply_eq secret_options_def get_secret_def range_over_def Let_def
  by (auto intro!: wp_intro session_earns simp: ready_step_def secret_session_body_def exec_def)

interpretation server_secret_reports: dependent_reporter l d "server_secret_kind l rt d"
proof unfold_locales
  fix w obj obj' changed blockedOn err result
  show "ry_clean w \<Longrightarrow> wp (ready_step l) (dk_apply (server_secret_kind l rt d) obj) (\<lambda>r w'. ry_claim w' = ry_claim w \<and>
      (case r of Panic _ \<Rightarrow> True | Done (obj', blockedOn, err) \<Rightarrow>
         ob_meta (dk_ops (server_secret_kind l rt d)) obj' = ob_meta (dk_ops (server_secret_kind l rt d)) obj \<and>
         (blockedOn = None \<and> err = None \<longrightarrow> earned w'))) w"
    by (auto intro!: wp_intro wp_weaken [OF ServerSecret_apply_earns] simp: server_secret_kind_def server_secret_ops_def)
  show "dk_report (server_secret_kind l rt d) obj blockedOn err = (changed, result) \<Longrightarrow>
      \<exists>cs cs'. dependent_status_of (ob_wrap (dk_ops (server_secret_kind l rt d)) changed) =
          Some (cs', om_generation (ob_meta (dk_ops (server_secret_kind l rt d)) obj)) \<and>
        outcome l cs (om_generation (ob_meta (dk_ops (server_secret_kind l rt d)) obj)) blockedOn err = (cs', result)"
    by (auto simp: server_secret_kind_def server_secret_ops_def split: prod.splits)
qed

end
