(* ===== verification/TestBed.thy ===== *)
theory TestBed
  imports Workload Statements
begin

text \<open>
  A concrete environment for the witnesses, in the manner of the tests of the source: the SQL
  side is the \<open>Fake\<close> of internal/sqlexec/fake.go, the Kubernetes side answers every read from
  a fixed stock of objects, \<open>NotFound\<close> for the others, and accepts every write.
\<close>

record stock =
  sk_serenedbs :: "serenedb list"
  sk_databases :: "database list"
  sk_roles :: "database_role list"
  sk_server_secrets :: "server_secret list"
  sk_backups :: "backup list"
  sk_schedules :: "scheduled_backup list"
  sk_secrets :: "secret list"
  sk_network_policies :: "network_policy list"
  sk_snapshots :: "(string \<times> unstructured) list"

definition empty_stock :: stock where
  "empty_stock = \<lparr>sk_serenedbs = [], sk_databases = [], sk_roles = [], sk_server_secrets = [],
     sk_backups = [], sk_schedules = [], sk_secrets = [], sk_network_policies = [], sk_snapshots = []\<rparr>"

definition not_found :: "string \<Rightarrow> go_error" where
  "not_found n = ApiStatus NotFound (n @ '' not found'')"

definition stocked :: "('o \<Rightarrow> object_meta) \<Rightarrow> 'o list \<Rightarrow> string \<Rightarrow> string \<Rightarrow> 'e \<Rightarrow> (go_error + 'o) \<times> 'e" where
  "stocked meta os ns n e = (case find (\<lambda>x. om_namespace (meta x) = ns \<and> om_name (meta x) = n) os of
     None \<Rightarrow> (Inl (not_found n), e) | Some x \<Rightarrow> (Inr x, e))"

definition static_client :: "stock \<Rightarrow> 'e client" where
  "static_client sk = \<lparr>
     k_get_serenedb = stocked db_meta (sk_serenedbs sk),
     k_get_database = stocked da_meta (sk_databases sk),
     k_get_role = stocked dr_meta (sk_roles sk),
     k_get_server_secret = stocked se_meta (sk_server_secrets sk),
     k_get_backup = stocked bk_meta (sk_backups sk),
     k_get_scheduled_backup = stocked sd_meta (sk_schedules sk),
     k_get_secret = stocked sec_meta (sk_secrets sk),
     k_get_network_policy = stocked np_meta (sk_network_policies sk),
     k_get_snapshot = (\<lambda>ns n e. (case map_of (sk_snapshots sk) n of
        None \<Rightarrow> Inl (not_found n) | Some u \<Rightarrow> Inr u, e)),
     k_list_backups = (\<lambda>ns k v e. (Inr (filter (\<lambda>b. om_namespace (bk_meta b) = ns \<and>
        map_of (om_labels (bk_meta b)) k = Some v) (sk_backups sk)), e)),
     k_create_secret = (\<lambda>_ e. (None, e)),
     k_create_snapshot = (\<lambda>_ e. (None, e)),
     k_create_backup = (\<lambda>_ e. (None, e)),
     k_update_database = (\<lambda>_ e. (None, e)),
     k_update_role = (\<lambda>_ e. (None, e)),
     k_update_server_secret = (\<lambda>_ e. (None, e)),
     k_patch_secret = (\<lambda>_ _ e. (None, e)),
     k_patch_serenedb_status = (\<lambda>_ _ e. (None, e)),
     k_patch_database_status = (\<lambda>_ _ e. (None, e)),
     k_patch_role_status = (\<lambda>_ _ e. (None, e)),
     k_patch_server_secret_status = (\<lambda>_ _ e. (None, e)),
     k_patch_backup_status = (\<lambda>_ _ e. (None, e)),
     k_patch_scheduled_backup_status = (\<lambda>_ _ e. (None, e)),
     k_delete_network_policy = (\<lambda>_ e. (None, e)),
     k_delete_backup = (\<lambda>_ e. (None, e)),
     k_apply_config_map = (\<lambda>x f e. (f x, e)),
     k_apply_service = (\<lambda>x f e. (f x, e)),
     k_apply_stateful_set = (\<lambda>x f e. (f x, e)),
     k_apply_network_policy = (\<lambda>x f e. (f x, e))\<rparr>"

text \<open>A clock that stands still, draws of zero, and maps visited in list order.\<close>

definition still_runtime :: "time \<Rightarrow> 'e runtime" where
  "still_runtime t = \<lparr>rt_now = (\<lambda>e. (t, e)), rt_rand_int = (\<lambda>_ e. (Inr 0, e)),
     rt_range_choices = (\<lambda>e. ([], e))\<rparr>"

definition ready_condition :: condition where
  "ready_condition = \<lparr>c_type = ConditionReady, c_status = ConditionTrue, c_reason = [], c_message = [],
     c_observed_generation = 0\<rparr>"

definition ready_db :: serenedb where
  "ready_db = sample_db\<lparr>db_status := (db_status sample_db)\<lparr>st_conditions := [ready_condition]\<rparr>\<rparr>"

definition superuser_secret :: secret where
  "superuser_secret = \<lparr>sec_meta = empty_meta\<lparr>om_name := ''mydb'', om_namespace := ''prod''\<rparr>,
     sec_type = ''Opaque'', sec_data = [(''postgres-password'', ''s3cret'')], sec_string_data = []\<rparr>"

text \<open>A database being deleted under the \<open>Delete\<close> policy.\<close>

definition dying_database :: database where
  "dying_database = \<lparr>
     da_meta = empty_meta\<lparr>om_name := ''app'', om_namespace := ''prod'', om_deletion_timestamp := Some 1,
       om_finalizers := [DependentFinalizer]\<rparr>,
     da_spec = \<lparr>dbs_cluster = \<lparr>cr_name = ''mydb''\<rparr>, dbs_name = [], dbs_reclaim_policy = ReclaimDelete\<rparr>,
     da_status = \<lparr>ds_observed_generation = 0, ds_conditions = []\<rparr>\<rparr>"

definition sample_role :: database_role where
  "sample_role = \<lparr>
     dr_meta = empty_meta\<lparr>om_name := ''app'', om_namespace := ''prod'', om_finalizers := [DependentFinalizer]\<rparr>,
     dr_spec = \<lparr>ro_cluster = \<lparr>cr_name = ''mydb''\<rparr>, ro_name = [], ro_login = True, ro_superuser = False,
       ro_create_db = False, ro_create_role = False, ro_inherit = None, ro_connection_limit = None,
       ro_valid_until = [], ro_password_secret = None, ro_in_roles = [''readers'', ''writers''],
       ro_reclaim_policy = ReclaimRetain\<rparr>,
     dr_status = \<lparr>ds_observed_generation = 0, ds_conditions = [], rs_password_secret_version = []\<rparr>\<rparr>"

definition bed_stock :: stock where
  "bed_stock = empty_stock\<lparr>sk_serenedbs := [ready_db], sk_databases := [dying_database],
     sk_roles := [sample_role], sk_secrets := [superuser_secret]\<rparr>"

end
