(* ===== verification/Dependents.thy ===== *)
theory Dependents
  imports DatabaseController RoleController ServerSecretController TestBed
begin

text \<open>
  What the Database, DatabaseRole and ServerSecret reconcilers have in common, proved once in
  \<open>dependent_controller\<close> and read off its three interpretations.
\<close>

lemmas dependent_shapes =
  Database_Reconcile_shape Role_Reconcile_shape ServerSecret_Reconcile_shape

text \<open>C22. Whatever the API and the server answer, a reconcile of a Database, a DatabaseRole or a
  ServerSecret keeps three rules about the server. It sends SQL only on an open session, never opens
  a second one before closing the first, and has closed every session it opened when it ends, also
  on an error or a panic. It connects only to a SereneDB it has just read as Ready, at the host, port
  and TLS mode of that object's spec, as \<open>postgres\<close> and with the password just read from the Secret
  and key the spec names. And it does not touch the server, not even to connect, for an object that
  does not carry the operator's finalizer in the API: an earlier reconcile persists it first.\<close>

theorem sessions_follow_rules:
  "watch session_step False (trace_of (Database_Reconcile l d ns n) e) = Some False \<and>
   watch session_step False (trace_of (Role_Reconcile l rt d ns n) e) = Some False \<and>
   watch session_step False (trace_of (ServerSecret_Reconcile l rt d ns n) e) = Some False \<and>
   complies (gate_step l) (None, None) (trace_of (Database_Reconcile l d ns n) e) \<and>
   complies (gate_step l) (None, None) (trace_of (Role_Reconcile l rt d ns n) e) \<and>
   complies (gate_step l) (None, None) (trace_of (ServerSecret_Reconcile l rt d ns n) e) \<and>
   complies (guard_step l) False (trace_of (Database_Reconcile l d ns n) e) \<and>
   complies (guard_step l) False (trace_of (Role_Reconcile l rt d ns n) e) \<and>
   complies (guard_step l) False (trace_of (ServerSecret_Reconcile l rt d ns n) e)"
proof -
  have closed: "wp session_step m (\<lambda>_ opened. \<not> opened) False \<Longrightarrow>
      watch session_step False (trace_of m e) = Some False" for m :: "('a, reconcile_result go) eff"
    by (drule wpD [where e = e]) auto
  show ?thesis
    unfolding dependent_shapes
    by (intro conjI closed database.reconcile_sessions role.reconcile_sessions server_secret.reconcile_sessions
        wp_complies [OF database.reconcile_gated] wp_complies [OF role.reconcile_gated]
        wp_complies [OF server_secret.reconcile_gated] wp_complies [OF database.reconcile_guarded]
        wp_complies [OF role.reconcile_guarded] wp_complies [OF server_secret.reconcile_guarded])
qed

text \<open>C1. The finalizer leaves an object only when nothing is to be dropped (policy \<open>Retain\<close>),
  or the SereneDB of its own namespace and \<open>cluster\<close> field is absent or being deleted, or the
  server has answered that the object is absent, or has taken the \<open>DROP\<close> of exactly this
  object's name.\<close>

theorem finalizer_released_with_evidence:
  assumes "finalizer_law l"
  shows "complies (release_step l) (None, NoEvidence) (trace_of (Database_Reconcile l d ns n) e) \<and>
   complies (release_step l) (None, NoEvidence) (trace_of (Role_Reconcile l rt d ns n) e) \<and>
   complies (release_step l) (None, NoEvidence) (trace_of (ServerSecret_Reconcile l rt d ns n) e)"
  unfolding dependent_shapes
  by (intro conjI wp_complies [OF database.reconcile_released [OF assms]]
      wp_complies [OF role.reconcile_released [OF assms]]
      wp_complies [OF server_secret.reconcile_released [OF assms]])

definition bed_with :: "database \<Rightarrow> fake dependents" where
  "bed_with da = \<lparr>dep_client = static_client (bed_stock\<lparr>sk_databases := [da]\<rparr>), dep_connector = fake_connector\<rparr>"

abbreviation bed :: "fake dependents" where
  "bed \<equiv> bed_with dying_database"

definition living_database :: database where
  "living_database = dying_database\<lparr>da_meta := (da_meta dying_database)\<lparr>om_deletion_timestamp := None\<rparr>\<rparr>"

text \<open>A server that has the database: the answer to its existence query is one row.\<close>

definition existing_app :: fake where
  "existing_app = (case DatabaseExists ''app'' of Inl _ \<Rightarrow> NewFake | Inr q \<Rightarrow> Answer q [[''1'']] NewFake)"

lemma bed_reads:
  "k_get_database (dep_client bed) ''prod'' ''app'' e = (Inr dying_database, e)"
  "k_get_database (dep_client (bed_with living_database)) ''prod'' ''app'' e = (Inr living_database, e)"
  "k_get_serenedb (dep_client (bed_with da)) ''prod'' ''mydb'' e = (Inr ready_db, e)"
  "k_get_secret (dep_client (bed_with da)) ''prod'' ''mydb'' e = (Inr superuser_secret, e)"
  "k_update_database (dep_client (bed_with da)) da' e = (None, e)"
  "k_patch_database_status (dep_client (bed_with da)) da' da'' e = (None, e)"
  by (simp_all add: bed_with_def static_client_def stocked_def bed_stock_def empty_stock_def dying_database_def
      living_database_def ready_db_def sample_db_def superuser_secret_def)

lemma ready_db_facts:
  "Namespace ready_db = ''prod''" "SecretName ready_db = ''mydb''" "PasswordKey ready_db = ''postgres-password''"
  "IsZero (om_deletion_timestamp (db_meta ready_db))"
  "is_status_condition_true plain_lib (st_conditions (db_status ready_db)) ConditionReady"
  "map_of (sec_data superuser_secret) ''postgres-password'' = Some ''s3cret''"
  by (simp_all add: ready_db_def sample_db_def sample_spec_def SecretName_def PasswordKey_def Name_def
      DefaultPasswordKey_def IsZero_def empty_meta_def plain_lib_def find_condition_def ready_condition_def
      superuser_secret_def)

lemma app_exists_query: "DatabaseExists ''app'' = Inr (''SELECT 1 FROM pg_database WHERE datname = '' @ literal_text ''app'')"
  by (simp add: DatabaseExists_def Literal_eq nul_free_def)

lemma dying_facts:
  "om_namespace (da_meta dying_database) = ''prod''" "cr_name (dbs_cluster (da_spec dying_database)) = ''mydb''"
  "nameOrDefault (dbs_name (da_spec dying_database)) (om_name (da_meta dying_database)) = ''app''"
  "\<not> IsZero (om_deletion_timestamp (da_meta dying_database))"
  "dbs_reclaim_policy (da_spec dying_database) = ReclaimDelete"
  "contains_finalizer plain_lib (da_meta dying_database) DependentFinalizer"
  by (simp_all add: dying_database_def nameOrDefault_def IsZero_def zero_time_def plain_lib_def)

lemma bed_session:
  assumes "fk_connect_err (w_env w) = None"
  shows "\<exists>es. run_state (openSession plain_lib (bed_with da) ''prod'' ''mydb'') w =
    (Got fakeSession, \<lparr>w_env = (w_env w)\<lparr>fk_connects := fk_connects (w_env w) + 1\<rparr>, w_log = w_log w @ es\<rparr>)"
proof -
  have "dep_connector (bed_with da) = fake_connector" by (simp add: bed_with_def)
  then show ?thesis
    using assms by (simp add: openSession_def superuserPassword_def call_defs call_def bed_reads ready_db_facts
        fake_connector_def Let_def)
qed

lemma app_dropped:
  "Executed (DropDatabase plain_lib ''app'') None \<in>
    set (trace_of (Database_Reconcile plain_lib bed ''prod'' ''app'') existing_app)"
proof -
  let ?w = "\<lparr>w_env = existing_app, w_log = [GotObject ''prod'' ''app'' (Inr (DatabaseObject dying_database)),
     GotSereneDB ''prod'' ''mydb'' (Inr ready_db)]\<rparr>"
  have app: "fk_connect_err existing_app = None" "fk_exec_err existing_app = None"
    "map_of (fk_rows existing_app) (''SELECT 1 FROM pg_database WHERE datname = '' @ literal_text ''app'') = Some [[''1'']]"
    by (simp_all add: existing_app_def app_exists_query Answer_def NewFake_def)
  obtain es where opened: "run_state (openSession plain_lib bed ''prod'' ''mydb'') ?w =
      (Got fakeSession, \<lparr>w_env = existing_app\<lparr>fk_connects := fk_connects existing_app + 1\<rparr>, w_log = w_log ?w @ es\<rparr>)"
    using bed_session [of ?w dying_database] app by auto
  show ?thesis
    using app opened
    by (simp add: trace_of_def Database_Reconcile_def get_object_def call_def bed_reads dying_facts Let_def
        finalize_def database_ops_def clusterGone_def call_defs ready_db_facts deferring_def dropDatabase_def
        app_exists_query exists_def fakeSession_def fake_query_def fake_exec_def fake_close_def update_object_def
        split: option.splits)
qed

theorem finalizer_released_with_evidence_witness:
  "finalizer_law plain_lib \<and>
   complies (release_step plain_lib) (None, NoEvidence)
     (trace_of (Database_Reconcile plain_lib bed ''prod'' ''app'') existing_app) \<and>
   Executed (DropDatabase plain_lib ''app'') None \<in>
     set (trace_of (Database_Reconcile plain_lib bed ''prod'' ''app'') existing_app)"
  using finalizer_released_with_evidence [OF plain_lib_finalizer, of bed "''prod''" "''app''" existing_app]
    plain_lib_finalizer app_dropped by blast

text \<open>C6. A Database, DatabaseRole or ServerSecret reports Ready only when the reconcile opened a
  session and every read, connection, query and statement it made after fetching the object
  succeeded; the status always names the generation of the object it was computed for. A run
  that claimed Ready asks for the next in ten minutes, one that denied it in thirty seconds,
  and one that panics has written no status.\<close>

theorem ready_is_earned:
  assumes "condition_law l"
  shows "(\<exists>w. watch (ready_step l) ready_start (trace_of (Database_Reconcile l d ns n) e) = Some w \<and>
      ready_answer (result_of (Database_Reconcile l d ns n) e) w) \<and>
    (\<exists>w. watch (ready_step l) ready_start (trace_of (Role_Reconcile l rt d ns n) e) = Some w \<and>
      ready_answer (result_of (Role_Reconcile l rt d ns n) e) w) \<and>
    (\<exists>w. watch (ready_step l) ready_start (trace_of (ServerSecret_Reconcile l rt d ns n) e) = Some w \<and>
      ready_answer (result_of (ServerSecret_Reconcile l rt d ns n) e) w)"
  unfolding dependent_shapes
  by (intro conjI wpD database_reports.reconcile_earns [OF assms] role_reports.reconcile_earns [OF assms]
      server_secret_reports.reconcile_earns [OF assms])

lemma living_facts:
  "om_namespace (da_meta living_database) = ''prod''" "cr_name (dbs_cluster (da_spec living_database)) = ''mydb''"
  "nameOrDefault (dbs_name (da_spec living_database)) (om_name (da_meta living_database)) = ''app''"
  "IsZero (om_deletion_timestamp (da_meta living_database))"
  "contains_finalizer plain_lib (da_meta living_database) DependentFinalizer"
  by (simp_all add: living_database_def dying_database_def nameOrDefault_def IsZero_def zero_time_def plain_lib_def)

lemma app_applied:
  "result_of (Database_Reconcile plain_lib (bed_with living_database) ''prod'' ''app'') existing_app =
    Done (\<lparr>requeue_after = resyncInterval\<rparr>, None)"
proof -
  let ?w = "\<lparr>w_env = existing_app, w_log = [GotObject ''prod'' ''app'' (Inr (DatabaseObject living_database))]\<rparr>"
  have app: "fk_connect_err existing_app = None"
    "map_of (fk_rows existing_app) (''SELECT 1 FROM pg_database WHERE datname = '' @ literal_text ''app'') = Some [[''1'']]"
    by (simp_all add: existing_app_def app_exists_query Answer_def NewFake_def)
  obtain es where opened: "run_state (openSession plain_lib (bed_with living_database) ''prod'' ''mydb'') ?w =
      (Got fakeSession, \<lparr>w_env = existing_app\<lparr>fk_connects := fk_connects existing_app + 1\<rparr>, w_log = w_log ?w @ es\<rparr>)"
    using bed_session [of ?w living_database] app by auto
  show ?thesis
    using app opened
    by (simp add: result_of_def Database_Reconcile_def get_object_def call_def bed_reads living_facts Let_def
        ensureFinalizer_def database_ops_def Database_apply_def call_defs deferring_def outcome_def
        app_exists_query exists_def fakeSession_def fake_query_def fake_close_def)
qed

theorem ready_is_earned_witness:
  "condition_law plain_lib \<and>
   (\<exists>w. watch (ready_step plain_lib) ready_start
      (trace_of (Database_Reconcile plain_lib (bed_with living_database) ''prod'' ''app'') existing_app) = Some w \<and>
    ry_claim w = Some True)"
proof -
  obtain w where w: "watch (ready_step plain_lib) ready_start
      (trace_of (Database_Reconcile plain_lib (bed_with living_database) ''prod'' ''app'') existing_app) = Some w"
    "ready_answer (Done (\<lparr>requeue_after = resyncInterval\<rparr>, None)) w"
    using ready_is_earned [OF plain_lib_condition, of "bed_with living_database" "''prod''" "''app''" existing_app]
      app_applied by auto
  from w(2) have "ry_claim w = Some True"
    by (auto simp: ready_answer_def resyncInterval_def missingDependencyRequeue_def Second_def
        split: option.splits if_splits)
  with w(1) plain_lib_condition show ?thesis by blast
qed

end
