(* ===== verification/SqlServer.thy ===== *)
theory SqlServer
  imports Statements
begin

text \<open>
  The server side, as far as the operator relies on it: a catalog of databases, roles, secrets
  and memberships, the effect of each statement by its tokens, and what the catalog queries
  answer. \<open>server_law\<close> states this of a session, for a server that takes no other changes
  meanwhile; the catalog is an abstraction of the environment. A session that obeys the law is
  given at the end.
\<close>

section \<open>The catalog and its statements\<close>

record catalog =
  cat_databases :: "string list"
  cat_roles :: "string list"
  cat_secrets :: "string list"
  cat_members :: "(string \<times> string) list"

text \<open>A pair of \<open>cat_members\<close> is a group and a member of it.\<close>

definition groups_of :: "catalog \<Rightarrow> string \<Rightarrow> string set" where
  "groups_of c m = {g. (g, m) \<in> set (cat_members c)}"

definition sql_effect :: "token list \<Rightarrow> catalog \<Rightarrow> catalog" where
  "sql_effect ts c = (case ts of
     [Kw a, Ident g, Kw b, Ident m] \<Rightarrow>
       if a = ''GRANT'' \<and> b = ''TO'' then c\<lparr>cat_members := List.insert (g, m) (cat_members c)\<rparr>
       else if a = ''REVOKE'' \<and> b = ''FROM'' then c\<lparr>cat_members := removeAll (g, m) (cat_members c)\<rparr>
       else c
   | Kw a # Kw b # Ident n # rest \<Rightarrow>
       if a = ''DROP'' \<and> b = ''DATABASE'' then c\<lparr>cat_databases := removeAll n (cat_databases c)\<rparr>
       else if a = ''DROP'' \<and> b = ''ROLE'' then c\<lparr>cat_roles := removeAll n (cat_roles c),
         cat_members := filter (\<lambda>(g, m). g \<noteq> n \<and> m \<noteq> n) (cat_members c)\<rparr>
       else if a = ''DROP'' \<and> b = ''SECRET'' then c\<lparr>cat_secrets := removeAll n (cat_secrets c)\<rparr>
       else if a = ''CREATE'' \<and> b = ''ROLE'' then c\<lparr>cat_roles := List.insert n (cat_roles c)\<rparr>
       else c
   | Kw a # Kw b # Kw x # Kw y # Kw z # Ident n # rest \<Rightarrow>
       if [a, b, x, y, z] = [''CREATE'', ''DATABASE'', ''IF'', ''NOT'', ''EXISTS''] then
         c\<lparr>cat_databases := List.insert n (cat_databases c)\<rparr>
       else if [a, b, x, y, z] = [''CREATE'', ''OR'', ''REPLACE'', ''PERSISTENT'', ''SECRET''] then
         c\<lparr>cat_secrets := List.insert n (cat_secrets c)\<rparr>
       else c
   | _ \<Rightarrow> c)"

section \<open>The catalog queries\<close>

definition existence_tokens :: "string list \<Rightarrow> string \<Rightarrow> string \<Rightarrow> token list" where
  "existence_tokens rel col n = map Kw [''SELECT'', ''1'', ''FROM''] @
     (if rel = [''sdb_secrets''] then [Kw ''sdb_secrets'', Sym CHR ''('', Sym CHR '')''] else map Kw rel) @
     [Kw ''WHERE'', Kw col, Sym CHR ''='', Str n]"

definition membership_tokens :: "string \<Rightarrow> token list" where
  "membership_tokens n =
     [Kw ''SELECT'', Kw ''r'', Sym CHR ''.'', Kw ''rolname'', Kw ''FROM'', Kw ''pg_auth_members'', Kw ''am'',
      Kw ''JOIN'', Kw ''pg_roles'', Kw ''r'', Kw ''ON'', Kw ''r'', Sym CHR ''.'', Kw ''oid'', Sym CHR ''='',
      Kw ''am'', Sym CHR ''.'', Kw ''roleid'',
      Kw ''JOIN'', Kw ''pg_roles'', Kw ''m'', Kw ''ON'', Kw ''m'', Sym CHR ''.'', Kw ''oid'', Sym CHR ''='',
      Kw ''am'', Sym CHR ''.'', Kw ''member'',
      Kw ''WHERE'', Kw ''m'', Sym CHR ''.'', Kw ''rolname'', Sym CHR ''='', Str n,
      Kw ''ORDER'', Kw ''BY'', Kw ''1'']"

text \<open>What an answer must satisfy: any row for an existing name, one row for each group.\<close>

definition sql_reply :: "token list \<Rightarrow> rows \<Rightarrow> catalog \<Rightarrow> bool" where
  "sql_reply ts rows c \<longleftrightarrow>
     (\<forall>n. ts = existence_tokens [''pg_database''] ''datname'' n \<longrightarrow> (rows \<noteq> [] \<longleftrightarrow> n \<in> set (cat_databases c))) \<and>
     (\<forall>n. ts = existence_tokens [''pg_roles''] ''rolname'' n \<longrightarrow> (rows \<noteq> [] \<longleftrightarrow> n \<in> set (cat_roles c))) \<and>
     (\<forall>n. ts = existence_tokens [''sdb_secrets''] ''name'' n \<longrightarrow> (rows \<noteq> [] \<longleftrightarrow> n \<in> set (cat_secrets c))) \<and>
     (\<forall>n. ts = membership_tokens n \<longrightarrow> (\<exists>gs. rows = map (\<lambda>g. [g]) gs \<and> set gs = groups_of c n))"

definition server_law :: "('e \<Rightarrow> catalog) \<Rightarrow> 'e session \<Rightarrow> bool" where
  "server_law cat s \<longleftrightarrow>
     (\<forall>stmt ts e. fst (s_exec s stmt e) = None \<longrightarrow> sql_tokens stmt = Some ts \<longrightarrow>
        cat (snd (s_exec s stmt e)) = sql_effect ts (cat e)) \<and>
     (\<forall>q e. cat (snd (s_query s q e)) = cat e) \<and>
     (\<forall>q ts rows e. fst (s_query s q e) = Inr rows \<longrightarrow> sql_tokens q = Some ts \<longrightarrow> sql_reply ts rows (cat e)) \<and>
     (\<forall>e. cat (snd (s_close s e)) = cat e)"

section \<open>The operator's statements\<close>

lemma statement_tokens:
  assumes "sanitize_law l" "nul_free n"
  shows "sql_tokens (CreateDatabase l n) = Some (map Kw [''CREATE'', ''DATABASE'', ''IF'', ''NOT'', ''EXISTS''] @ [Ident n])"
    and "sql_tokens (DropDatabase l n) = Some [Kw ''DROP'', Kw ''DATABASE'', Ident n]"
    and "sql_tokens (DropRole l n) = Some [Kw ''DROP'', Kw ''ROLE'', Ident n]"
    and "sql_tokens (DropSecret l n) = Some [Kw ''DROP'', Kw ''SECRET'', Ident n]"
    and "nul_free g \<Longrightarrow> sql_tokens (GrantMembership l g n) = Some [Kw ''GRANT'', Ident g, Kw ''TO'', Ident n]"
    and "nul_free g \<Longrightarrow> sql_tokens (RevokeMembership l g n) = Some [Kw ''REVOKE'', Ident g, Kw ''FROM'', Ident n]"
  using assms
  by (simp_all add: CreateDatabase_def DropDatabase_def DropRole_def DropSecret_def GrantMembership_def
      RevokeMembership_def token_simps tokens_quoted)

lemma query_tokens:
  "DatabaseExists n = Inr q \<Longrightarrow> sql_tokens q = Some (existence_tokens [''pg_database''] ''datname'' n)"
  "RoleExists n = Inr q \<Longrightarrow> sql_tokens q = Some (existence_tokens [''pg_roles''] ''rolname'' n)"
  "SecretExists n = Inr q \<Longrightarrow> sql_tokens q = Some (existence_tokens [''sdb_secrets''] ''name'' n)"
  "RoleMemberships n = Inr q \<Longrightarrow> sql_tokens q = Some (membership_tokens n)"
  by (auto simp: DatabaseExists_def RoleExists_def SecretExists_def RoleMemberships_def Literal_eq token_simps
      tokens_quoted existence_tokens_def membership_tokens_def split: if_splits)

lemma statement_effects:
  "sql_effect (map Kw [''CREATE'', ''DATABASE'', ''IF'', ''NOT'', ''EXISTS''] @ [Ident n]) c =
     c\<lparr>cat_databases := List.insert n (cat_databases c)\<rparr>"
  "sql_effect [Kw ''DROP'', Kw ''DATABASE'', Ident n] c = c\<lparr>cat_databases := removeAll n (cat_databases c)\<rparr>"
  "sql_effect [Kw ''DROP'', Kw ''ROLE'', Ident n] c = c\<lparr>cat_roles := removeAll n (cat_roles c),
     cat_members := filter (\<lambda>(g, m). g \<noteq> n \<and> m \<noteq> n) (cat_members c)\<rparr>"
  "sql_effect [Kw ''DROP'', Kw ''SECRET'', Ident n] c = c\<lparr>cat_secrets := removeAll n (cat_secrets c)\<rparr>"
  "sql_effect [Kw ''GRANT'', Ident g, Kw ''TO'', Ident n] c = c\<lparr>cat_members := List.insert (g, n) (cat_members c)\<rparr>"
  "sql_effect [Kw ''REVOKE'', Ident g, Kw ''FROM'', Ident n] c = c\<lparr>cat_members := removeAll (g, n) (cat_members c)\<rparr>"
  "sql_effect (Kw ''CREATE'' # Kw ''ROLE'' # Ident n # Kw x # rest) c = c\<lparr>cat_roles := List.insert n (cat_roles c)\<rparr>"
  "sql_effect (Kw ''ALTER'' # Kw ''ROLE'' # Ident n # Kw x # rest) c = c"
  by (simp_all add: sql_effect_def)

lemma role_statement_effect:
  assumes "sanitize_law l" "nul_free n"
  shows "CreateRole l n attrs = Inr stmt \<Longrightarrow> \<exists>ts. sql_tokens stmt = Some ts \<and>
      (\<forall>c. sql_effect ts c = c\<lparr>cat_roles := List.insert n (cat_roles c)\<rparr>)"
    and "AlterRole l n attrs = Inr stmt \<Longrightarrow> \<exists>ts. sql_tokens stmt = Some ts \<and> (\<forall>c. sql_effect ts c = c)"
proof -
  have ts: "\<exists>x rest. attribute_tokens attrs = Kw x # rest"
    by (simp add: attribute_tokens_def attribute_clauses_def flag_word_def)
  show "\<exists>ts. sql_tokens stmt = Some ts \<and> (\<forall>c. sql_effect ts c = c\<lparr>cat_roles := List.insert n (cat_roles c)\<rparr>)"
    if "CreateRole l n attrs = Inr stmt"
    using tokens_role_statement [OF assms, of attrs stmt] ts that by (auto simp: statement_effects)
  show "\<exists>ts. sql_tokens stmt = Some ts \<and> (\<forall>c. sql_effect ts c = c)" if "AlterRole l n attrs = Inr stmt"
    using tokens_role_statement [OF assms, of attrs stmt] ts that by (auto simp: statement_effects)
qed

lemma secret_statement_effect:
  assumes "sanitize_law l" "nul_free n" "t \<noteq> []" "\<forall>c \<in> set t. word_char c"
    and "CreateSecret l n t scope options = Inr stmt"
  shows "\<exists>ts. sql_tokens stmt = Some ts \<and> (\<forall>c. sql_effect ts c = c\<lparr>cat_secrets := List.insert n (cat_secrets c)\<rparr>)"
  using tokens_CreateSecret [OF assms] by (simp add: sql_effect_def)

section \<open>Catalog reasoning\<close>

text \<open>
  \<open>cwp cat m Q c\<close>: from any environment with catalog \<open>c\<close>, the run of \<open>m\<close> ends in a result and a
  catalog that satisfy \<open>Q\<close>. The calculus serves any other abstraction of the environment as well.
\<close>

definition cwp :: "('e \<Rightarrow> 'c) \<Rightarrow> ('e, 'a) eff \<Rightarrow> ('a \<Rightarrow> 'c \<Rightarrow> bool) \<Rightarrow> 'c \<Rightarrow> bool" where
  "cwp cat m Q c \<longleftrightarrow> (\<forall>w. cat (w_env w) = c \<longrightarrow> (case run_state m w of (a, w') \<Rightarrow> Q a (cat (w_env w'))))"

named_theorems cwp_intro \<open>introduction rules of the catalog calculus\<close>

lemma cwp_ret [cwp_intro]: "Q x c \<Longrightarrow> cwp cat (ret x) Q c"
  by (simp add: cwp_def)

lemma cwp_weaken: "cwp cat m R c \<Longrightarrow> (\<And>a c'. R a c' \<Longrightarrow> Q a c') \<Longrightarrow> cwp cat m Q c"
  unfolding cwp_def by (fastforce split: prod.splits)

lemma cwp_bind [cwp_intro]: "cwp cat m (\<lambda>a c'. cwp cat (f a) Q c') c \<Longrightarrow> cwp cat (m \<bind> f) Q c"
  unfolding cwp_def by (fastforce split: prod.splits)

lemma cwp_quiet:
  assumes "\<And>e. cat (snd (f e)) = cat e" and "\<And>a. Q a c"
  shows "cwp cat (call f ev) Q c"
  using assms by (auto simp: cwp_def call_def split: prod.splits) (metis snd_conv)

lemma cwp_if [cwp_intro]:
  "(b \<Longrightarrow> cwp cat m Q c) \<Longrightarrow> (\<not> b \<Longrightarrow> cwp cat n Q c) \<Longrightarrow> cwp cat (if b then m else n) Q c"
  by simp

lemma cwp_sum [cwp_intro]:
  "(\<And>e. r = Inl e \<Longrightarrow> cwp cat (m e) Q c) \<Longrightarrow> (\<And>x. r = Inr x \<Longrightarrow> cwp cat (n x) Q c) \<Longrightarrow>
    cwp cat (case r of Inl e \<Rightarrow> m e | Inr x \<Rightarrow> n x) Q c"
  by (cases r) auto

lemma cwp_option [cwp_intro]:
  "(r = None \<Longrightarrow> cwp cat m Q c) \<Longrightarrow> (\<And>x. r = Some x \<Longrightarrow> cwp cat (n x) Q c) \<Longrightarrow>
    cwp cat (case r of None \<Rightarrow> m | Some x \<Rightarrow> n x) Q c"
  by (cases r) auto

lemma cwp_go [cwp_intro]:
  "(\<And>t. r = Panic t \<Longrightarrow> cwp cat (m t) Q c) \<Longrightarrow> (\<And>x. r = Done x \<Longrightarrow> cwp cat (n x) Q c) \<Longrightarrow>
    cwp cat (case r of Panic t \<Rightarrow> m t | Done x \<Rightarrow> n x) Q c"
  by (cases r) auto

lemma cwp_exec:
  fixes s :: "'e session"
  assumes "server_law cat s" "sql_tokens stmt = Some ts" "\<And>err c'. Q (Some err) c'" "Q None (sql_effect ts c)"
  shows "cwp cat (exec s stmt) Q c"
  unfolding cwp_def exec_def call_def
proof (intro allI impI)
  fix w :: "('e, event) world"
  assume w: "cat (w_env w) = c"
  obtain r e' where r: "s_exec s stmt (w_env w) = (r, e')" by (cases "s_exec s stmt (w_env w)")
  have "cat e' = sql_effect ts c" if "r = None"
    using assms(1,2) r w that unfolding server_law_def by (metis fst_conv snd_conv)
  with assms(3,4) r show "case run_state (State (\<lambda>w. case s_exec s stmt (w_env w) of (a, e) \<Rightarrow>
      (a, \<lparr>w_env = e, w_log = w_log w @ [Executed stmt a]\<rparr>))) w of (a, w') \<Rightarrow> Q a (cat (w_env w'))"
    by (cases r) auto
qed

lemma cwp_query:
  fixes s :: "'e session"
  assumes "server_law cat s" "sql_tokens q = Some ts" "\<And>err. Q (Inl err) c"
    "\<And>rows. sql_reply ts rows c \<Longrightarrow> Q (Inr rows) c"
  shows "cwp cat (query s q) Q c"
  unfolding cwp_def query_def call_def
proof (intro allI impI)
  fix w :: "('e, event) world"
  assume w: "cat (w_env w) = c"
  obtain r e' where r: "s_query s q (w_env w) = (r, e')" by (cases "s_query s q (w_env w)")
  have e': "cat e' = c" using assms(1) r w unfolding server_law_def by (metis snd_conv)
  have "sql_reply ts rows c" if "r = Inr rows" for rows
    using assms(1,2) r w that unfolding server_law_def by (metis fst_conv)
  with assms(3,4) r e' show "case run_state (State (\<lambda>w. case s_query s q (w_env w) of (a, e) \<Rightarrow>
      (a, \<lparr>w_env = e, w_log = w_log w @ [Queried q a]\<rparr>))) w of (a, w') \<Rightarrow> Q a (cat (w_env w'))"
    by (cases r) auto
qed

lemma cwp_close:
  assumes "server_law cat s" "\<And>x. Q x c"
  shows "cwp cat (close s) Q c"
  unfolding close_def using assms by (intro cwp_quiet) (auto simp: server_law_def)

lemma cwp_run: "cwp cat m Q (cat e) \<Longrightarrow> Q (result_of m e) (cat (env_of m e))"
  unfolding cwp_def result_of_def env_of_def
  by (drule spec [where x = "\<lparr>w_env = e, w_log = []\<rparr>"]) (auto split: prod.splits)

end
