(* ===== verification/Convergence.thy ===== *)
theory Convergence
  imports Dependents SqlServer
begin

text \<open>
  The effect of the three reconcilers on the server, against the catalog of \<open>SqlServer\<close>: what a
  successful apply step or drop has made true there.
\<close>

section \<open>The world around a reconcile\<close>

text \<open>
  The SQL session the connector opens obeys the server's law, and reading the Kubernetes API,
  connecting and choosing a map order change nothing on the server.
\<close>

definition server_world :: "('e \<Rightarrow> catalog) \<Rightarrow> 'e dependents \<Rightarrow> 'e runtime \<Rightarrow> bool" where
  "server_world cat d rt \<longleftrightarrow>
     (\<forall>ns n e. cat (snd (k_get_serenedb (dep_client d) ns n e)) = cat e) \<and>
     (\<forall>ns n e. cat (snd (k_get_secret (dep_client d) ns n e)) = cat e) \<and>
     (\<forall>t e. cat (snd (dep_connector d t e)) = cat e) \<and>
     (\<forall>t e s. fst (dep_connector d t e) = Inr s \<longrightarrow> server_law cat s) \<and>
     (\<forall>e. cat (snd (rt_range_choices rt e)) = cat e)"

lemma cwp_openSession:
  assumes "server_world cat d rt"
  shows "cwp cat (openSession l d ns n) (\<lambda>r c'. c' = c \<and> (\<forall>s. r = Got s \<longrightarrow> server_law cat s)) c"
proof -
  have conn: "cwp cat (connect (dep_connector d) t) (\<lambda>r c'. c' = c \<and> (\<forall>s. r = Inr s \<longrightarrow> server_law cat s)) c" for t
    using assms unfolding cwp_def connect_def call_def server_world_def
    by (auto split: prod.splits) (metis fst_conv snd_conv)+
  have sec: "cwp cat (get_secret (dep_client d) ns' n') (\<lambda>_ c'. c' = c) c" for ns' n'
    unfolding get_secret_def using assms by (intro cwp_quiet) (auto simp: server_world_def)
  have db: "cwp cat (get_serenedb (dep_client d) ns n) (\<lambda>_ c'. c' = c) c"
    unfolding get_serenedb_def using assms by (intro cwp_quiet) (auto simp: server_world_def)
  show ?thesis
    unfolding openSession_def superuserPassword_def
    by (auto intro!: cwp_intro cwp_weaken [OF db] cwp_weaken [OF sec] cwp_weaken [OF conn] split: sum.splits option.splits attempt.splits)
qed

lemma cwp_range_over:
  assumes "server_world cat d rt"
  shows "cwp cat (range_over rt xs) (\<lambda>ys c'. c' = c \<and> set ys = set xs) c"
  unfolding range_over_def
  by (rule cwp_bind, rule cwp_quiet) (use assms in \<open>auto simp: server_world_def intro: cwp_ret\<close>)

lemma cwp_deferring:
  assumes "cwp cat body (\<lambda>r c'. cwp cat d (\<lambda>_ c''. Q r c'') c') c"
  shows "cwp cat (deferring d body) Q c"
  unfolding deferring_def
  by (rule cwp_bind, rule cwp_weaken [OF assms], rule cwp_bind, erule cwp_weaken) (rule cwp_ret)

section \<open>Existence queries\<close>

lemma reply_simps:
  "sql_reply (existence_tokens [''pg_database''] ''datname'' n) rows c \<Longrightarrow> (rows \<noteq> []) = (n \<in> set (cat_databases c))"
  "sql_reply (existence_tokens [''pg_roles''] ''rolname'' n) rows c \<Longrightarrow> (rows \<noteq> []) = (n \<in> set (cat_roles c))"
  "sql_reply (existence_tokens [''sdb_secrets''] ''name'' n) rows c \<Longrightarrow> (rows \<noteq> []) = (n \<in> set (cat_secrets c))"
  "sql_reply (membership_tokens n) rows c \<Longrightarrow> \<exists>gs. rows = map (\<lambda>g. [g]) gs \<and> set gs = groups_of c n"
  unfolding sql_reply_def by blast+

lemma cwp_exists:
  assumes "server_law cat s"
  shows "DatabaseExists n = Inr q \<Longrightarrow> cwp cat (exists s q) (\<lambda>r c'. c' = c \<and> (\<forall>b. r = Inr b \<longrightarrow> b = (n \<in> set (cat_databases c)))) c"
    and "RoleExists n = Inr q \<Longrightarrow> cwp cat (exists s q) (\<lambda>r c'. c' = c \<and> (\<forall>b. r = Inr b \<longrightarrow> b = (n \<in> set (cat_roles c)))) c"
    and "SecretExists n = Inr q \<Longrightarrow> cwp cat (exists s q) (\<lambda>r c'. c' = c \<and> (\<forall>b. r = Inr b \<longrightarrow> b = (n \<in> set (cat_secrets c)))) c"
  unfolding exists_def
  by (rule cwp_bind, rule cwp_query [OF assms]; auto dest: query_tokens reply_simps intro!: cwp_ret)+


section \<open>Memberships\<close>

definition only_members :: "catalog \<Rightarrow> (string \<times> string) set \<Rightarrow> catalog \<Rightarrow> bool" where
  "only_members c ms c' \<longleftrightarrow> cat_databases c' = cat_databases c \<and> cat_roles c' = cat_roles c \<and>
     cat_secrets c' = cat_secrets c \<and> set (cat_members c') = ms"

lemma only_members_trans:
  "only_members c ms c1 \<Longrightarrow> only_members c1 ns c2 \<Longrightarrow> only_members c ns c2"
  by (simp add: only_members_def)

lemma current_groups_singletons:
  "\<exists>cur. current_groups (map (\<lambda>g. [g]) gs) acc = Done cur \<and> set cur = set acc \<union> set gs"
proof (induction gs arbitrary: acc)
  case (Cons a gs)
  show ?case using Cons.IH [of "List.insert a acc"] by auto
qed simp

lemma cwp_grant_missing:
  assumes law: "server_law cat s" "sanitize_law l" "nul_free name"
  shows "\<forall>g \<in> set wanted. nul_free g \<Longrightarrow> cwp cat (grant_missing l s name current wanted desired)
    (\<lambda>r c'. \<forall>d. r = Inr d \<longrightarrow> set d = set desired \<union> set wanted \<and>
      only_members c (set (cat_members c) \<union> {(g, name) |g. g \<in> set wanted - set current}) c') c"
proof (induction wanted arbitrary: desired c)
  case Nil
  then show ?case by (auto intro!: cwp_ret simp: only_members_def)
next
  case (Cons grp wanted)
  then have grp: "nul_free grp" and rest: "\<forall>g \<in> set wanted. nul_free g" by simp_all
  note ts = statement_tokens(5) [OF law(2,3) grp]
  have IH: "cwp cat (grant_missing l s name current wanted (List.insert grp desired))
      (\<lambda>r c'. \<forall>d. r = Inr d \<longrightarrow> set d = set desired \<union> set (grp # wanted) \<and>
        only_members c (set (cat_members c) \<union> {(g, name) |g. g \<in> set (grp # wanted) - set current}) c') c1"
    if "only_members c (set (cat_members c) \<union> {(g, name) |g. g \<in> {grp} - set current}) c1" for c1
  proof (rule cwp_weaken [OF Cons.IH [OF rest]], intro allI impI)
    fix r c' d
    assume "\<forall>d. r = Inr d \<longrightarrow> set d = set (List.insert grp desired) \<union> set wanted \<and>
        only_members c1 (set (cat_members c1) \<union> {(g, name) |g. g \<in> set wanted - set current}) c'"
      and r: "r = Inr d"
    with that show "set d = set desired \<union> set (grp # wanted) \<and>
        only_members c (set (cat_members c) \<union> {(g, name) |g. g \<in> set (grp # wanted) - set current}) c'"
      by (auto simp: only_members_def)
  qed
  show ?case
  proof (cases "grp \<in> set current")
    case True
    with IH [of c] show ?thesis by (simp add: only_members_def)
  next
    case False
    have "cwp cat (exec s (GrantMembership l grp name) \<bind> (\<lambda>r. case r of Some err \<Rightarrow> ret (Inl err)
        | None \<Rightarrow> grant_missing l s name current wanted (List.insert grp desired)))
      (\<lambda>r c'. \<forall>d. r = Inr d \<longrightarrow> set d = set desired \<union> set (grp # wanted) \<and>
        only_members c (set (cat_members c) \<union> {(g, name) |g. g \<in> set (grp # wanted) - set current}) c') c"
    proof (rule cwp_bind, rule cwp_exec [OF law(1) ts])
      show "cwp cat (case None of Some err \<Rightarrow> ret (Inl err)
          | None \<Rightarrow> grant_missing l s name current wanted (List.insert grp desired))
        (\<lambda>r c'. \<forall>d. r = Inr d \<longrightarrow> set d = set desired \<union> set (grp # wanted) \<and>
          only_members c (set (cat_members c) \<union> {(g, name) |g. g \<in> set (grp # wanted) - set current}) c')
        (sql_effect [Kw ''GRANT'', Ident grp, Kw ''TO'', Ident name] c)"
        unfolding option.case by (rule IH) (use False in \<open>auto simp: statement_effects only_members_def\<close>)
    qed (auto intro!: cwp_ret)
    with False show ?thesis by (simp add: Let_def)
  qed
qed

lemma cwp_revoke_unlisted:
  assumes law: "server_law cat s" "sanitize_law l" "nul_free name"
  shows "\<forall>g \<in> set current. nul_free g \<Longrightarrow> cwp cat (revoke_unlisted l s name desired current)
    (\<lambda>r c'. r = None \<longrightarrow>
      only_members c (set (cat_members c) - {(g, name) |g. g \<in> set current - set desired}) c') c"
proof (induction current arbitrary: c)
  case Nil
  then show ?case by (auto intro!: cwp_ret simp: only_members_def)
next
  case (Cons grp current)
  then have grp: "nul_free grp" and rest: "\<forall>g \<in> set current. nul_free g" by simp_all
  note ts = statement_tokens(6) [OF law(2,3) grp]
  have IH: "cwp cat (revoke_unlisted l s name desired current) (\<lambda>r c'. r = None \<longrightarrow>
        only_members c (set (cat_members c) - {(g, name) |g. g \<in> set (grp # current) - set desired}) c') c1"
    if "only_members c (set (cat_members c) - {(g, name) |g. g \<in> {grp} - set desired}) c1" for c1
  proof (rule cwp_weaken [OF Cons.IH [OF rest]], intro impI)
    fix r c'
    assume "r = None \<longrightarrow> only_members c1 (set (cat_members c1) - {(g, name) |g. g \<in> set current - set desired}) c'"
      and "r = None"
    with that show "only_members c (set (cat_members c) - {(g, name) |g. g \<in> set (grp # current) - set desired}) c'"
      by (auto simp: only_members_def)
  qed
  show ?case
  proof (cases "grp \<in> set desired")
    case True
    with IH [of c] show ?thesis by (simp add: only_members_def)
  next
    case False
    have "cwp cat (exec s (RevokeMembership l grp name) \<bind> (\<lambda>r. case r of Some err \<Rightarrow> ret (Some err)
        | None \<Rightarrow> revoke_unlisted l s name desired current))
      (\<lambda>r c'. r = None \<longrightarrow>
        only_members c (set (cat_members c) - {(g, name) |g. g \<in> set (grp # current) - set desired}) c') c"
    proof (rule cwp_bind, rule cwp_exec [OF law(1) ts])
      show "cwp cat (case None of Some err \<Rightarrow> ret (Some err)
          | None \<Rightarrow> revoke_unlisted l s name desired current)
        (\<lambda>r c'. r = None \<longrightarrow>
          only_members c (set (cat_members c) - {(g, name) |g. g \<in> set (grp # current) - set desired}) c')
        (sql_effect [Kw ''REVOKE'', Ident grp, Kw ''FROM'', Ident name] c)"
        unfolding option.case by (rule IH) (use False in \<open>auto simp: statement_effects only_members_def\<close>)
    qed (auto intro!: cwp_ret)
    with False show ?thesis by simp
  qed
qed

lemma cwp_converge:
  assumes world: "server_world cat d rt" "server_law cat s" "sanitize_law l" "nul_free name"
    and names: "\<forall>g \<in> set wanted. nul_free g" "\<forall>g \<in> groups_of c name. nul_free g"
  shows "cwp cat (converge l rt s name wanted)
    (\<lambda>r c'. (\<exists>err. r = Done err) \<and> (r = Done None \<longrightarrow>
      only_members c ({(g, m) \<in> set (cat_members c). m \<noteq> name} \<union> {(g, name) |g. g \<in> set wanted}) c')) c"
proof -
  obtain q where q: "RoleMemberships name = Inr q"
    using world(4) by (simp add: RoleMemberships_def Literal_eq)
  note ts = query_tokens(4) [OF q]
  show ?thesis
    unfolding converge_def q sum.case
  proof (rule cwp_bind, rule cwp_query [OF world(2) ts])
    fix rows
    assume "sql_reply (membership_tokens name) rows c"
    then obtain gs where gs: "rows = map (\<lambda>g. [g]) gs" "set gs = groups_of c name"
      using reply_simps(4) by blast
    obtain cur where cur: "current_groups rows [] = Done cur" "set cur = groups_of c name"
      using current_groups_singletons [of gs "[]"] gs by auto
    have "cwp cat (revoke_unlisted l s name dd visited \<bind> (\<lambda>r. ret (Done r))) (\<lambda>r c'. (\<exists>err. r = Done err) \<and>
        (r = Done None \<longrightarrow>
          only_members c ({(g, m) \<in> set (cat_members c). m \<noteq> name} \<union> {(g, name) |g. g \<in> set wanted}) c')) c1"
      if dd: "set dd = set wanted" and vis: "set visited = set cur"
        and c1: "only_members c (set (cat_members c) \<union> {(g, name) |g. g \<in> set wanted - set cur}) c1"
      for dd visited c1
    proof -
      have "\<forall>g \<in> set visited. nul_free g" using vis cur names by simp
      from cwp_revoke_unlisted [OF world(2-4) this, of dd c1] show ?thesis
        by (rule cwp_bind [OF cwp_weaken])
          (use dd vis c1 cur in \<open>auto intro!: cwp_ret simp: only_members_def groups_of_def\<close>)
    qed
    note revoke = this
    have "cwp cat (range_over rt cur \<bind> (\<lambda>visited. revoke_unlisted l s name dd visited \<bind> (\<lambda>r. ret (Done r))))
      (\<lambda>r c'. (\<exists>err. r = Done err) \<and> (r = Done None \<longrightarrow>
        only_members c ({(g, m) \<in> set (cat_members c). m \<noteq> name} \<union> {(g, name) |g. g \<in> set wanted}) c')) c1"
      if "set dd = set wanted"
        "only_members c (set (cat_members c) \<union> {(g, name) |g. g \<in> set wanted - set cur}) c1" for dd c1
      by (rule cwp_bind, rule cwp_weaken [OF cwp_range_over [OF world(1)]])
        (elim conjE, hypsubst, rule revoke [OF that(1) _ that(2)])
    note range = this
    show "cwp cat (case Inr rows of Inl err \<Rightarrow> ret (Done (Some err)) | Inr rows \<Rightarrow> (case current_groups rows [] of
         Panic t \<Rightarrow> ret (Panic t)
       | Done current \<Rightarrow> grant_missing l s name current wanted [] \<bind> (\<lambda>g. case g of
           Inl err \<Rightarrow> ret (Done (Some err))
         | Inr desired \<Rightarrow> range_over rt current \<bind> (\<lambda>visited.
             revoke_unlisted l s name desired visited \<bind> (\<lambda>r. ret (Done r))))))
      (\<lambda>r c'. (\<exists>err. r = Done err) \<and> (r = Done None \<longrightarrow>
        only_members c ({(g, m) \<in> set (cat_members c). m \<noteq> name} \<union> {(g, name) |g. g \<in> set wanted}) c')) c"
      unfolding sum.case cur go.case
    proof (rule cwp_bind, rule cwp_weaken [OF cwp_grant_missing [OF world(2-4) names(1)]], rule cwp_sum)
      fix g c1 dd
      assume "\<forall>d. g = Inr d \<longrightarrow> set d = set [] \<union> set wanted \<and>
          only_members c (set (cat_members c) \<union> {(g, name) |g. g \<in> set wanted - set cur}) c1" "g = Inr dd"
      then show "cwp cat (range_over rt cur \<bind> (\<lambda>visited. revoke_unlisted l s name dd visited \<bind> (\<lambda>r. ret (Done r))))
      (\<lambda>r c'. (\<exists>err. r = Done err) \<and> (r = Done None \<longrightarrow>
        only_members c ({(g, m) \<in> set (cat_members c). m \<noteq> name} \<union> {(g, name) |g. g \<in> set wanted}) c')) c1"
        by (intro range) auto
    qed (simp add: cwp_ret)
  qed (auto intro!: cwp_ret)
qed


section \<open>Apply steps and drops\<close>

lemma cwp_role_session_body:
  assumes world: "server_world cat d rt" "server_law cat s" "sanitize_law l" "nul_free name"
    and names: "\<forall>g \<in> set (ro_in_roles (dr_spec role)). nul_free g" "\<forall>g \<in> groups_of c name. nul_free g"
  shows "cwp cat (role_session_body l rt role name password version s)
    (\<lambda>r c'. (\<exists>x. r = Done x) \<and> (\<forall>role'. r = Done (role', None, None) \<longrightarrow>
      cat_databases c' = cat_databases c \<and> cat_secrets c' = cat_secrets c \<and>
      set (cat_roles c') = insert name (set (cat_roles c)) \<and>
      set (cat_members c') = {(g, m) \<in> set (cat_members c). m \<noteq> name} \<union>
        {(g, name) |g. g \<in> set (ro_in_roles (dr_spec role))})) c"
proof -
  let ?post = "\<lambda>r c'. (\<exists>x. r = Done x) \<and> (\<forall>role'. r = Done (role', None, None) \<longrightarrow>
      cat_databases c' = cat_databases c \<and> cat_secrets c' = cat_secrets c \<and>
      set (cat_roles c') = insert name (set (cat_roles c)) \<and>
      set (cat_members c') = {(g, m) \<in> set (cat_members c). m \<noteq> name} \<union>
        {(g, name) |g. g \<in> set (ro_in_roles (dr_spec role))})"
  have tail: "cwp cat (converge l rt s name (ro_in_roles (dr_spec role)) \<bind> (\<lambda>x. case x of
        Panic t \<Rightarrow> ret (Panic t)
      | Done (Some err) \<Rightarrow> ret (Done (role, None, Some err))
      | Done None \<Rightarrow> ret (Done (role\<lparr>dr_status :=
          (dr_status role)\<lparr>rs_password_secret_version := version\<rparr>\<rparr>, None, None)))) ?post c1"
    if "set (cat_roles c1) = insert name (set (cat_roles c))" "cat_databases c1 = cat_databases c"
      "cat_secrets c1 = cat_secrets c" "cat_members c1 = cat_members c" for c1
  proof -
    have "\<forall>g \<in> groups_of c1 name. nul_free g" using names(2) that by (simp add: groups_of_def)
    from cwp_converge [OF world names(1) this] show ?thesis
      by (rule cwp_bind [OF cwp_weaken]) (use that in \<open>auto intro!: cwp_ret cwp_go cwp_option simp: only_members_def\<close>)
  qed
  have stmt: "cwp cat (exec s statement \<bind> (\<lambda>r. case r of
        Some err \<Rightarrow> ret (Done (role, None, Some err))
      | None \<Rightarrow> converge l rt s name (ro_in_roles (dr_spec role)) \<bind> (\<lambda>x. case x of
            Panic t \<Rightarrow> ret (Panic t)
          | Done (Some err) \<Rightarrow> ret (Done (role, None, Some err))
          | Done None \<Rightarrow> ret (Done (role\<lparr>dr_status :=
              (dr_status role)\<lparr>rs_password_secret_version := version\<rparr>\<rparr>, None, None))))) ?post c"
    if st: "roleStatement l name attrs present = Inr statement" and present: "present = (name \<in> set (cat_roles c))"
    for attrs present statement
  proof -
    obtain ts where ts: "sql_tokens statement = Some ts"
      "sql_effect ts c = (if present then c else c\<lparr>cat_roles := List.insert name (cat_roles c)\<rparr>)"
    proof (cases present)
      case True
      with st have "AlterRole l name attrs = Inr statement" by (simp add: roleStatement_def)
      from role_statement_effect(2) [OF world(3,4) this] that True show ?thesis by auto
    next
      case False
      with st have "CreateRole l name attrs = Inr statement" by (simp add: roleStatement_def)
      from role_statement_effect(1) [OF world(3,4) this] that False show ?thesis by auto
    qed
    show ?thesis
    proof (rule cwp_bind, rule cwp_exec [OF world(2) ts(1)], simp add: cwp_ret)
      show "cwp cat (case None of Some err \<Rightarrow> ret (Done (role, None, Some err))
      | None \<Rightarrow> converge l rt s name (ro_in_roles (dr_spec role)) \<bind> (\<lambda>x. case x of
            Panic t \<Rightarrow> ret (Panic t)
          | Done (Some err) \<Rightarrow> ret (Done (role, None, Some err))
          | Done None \<Rightarrow> ret (Done (role\<lparr>dr_status :=
              (dr_status role)\<lparr>rs_password_secret_version := version\<rparr>\<rparr>, None, None)))) ?post (sql_effect ts c)"
        unfolding option.case by (rule tail) (use ts(2) present in auto)
    qed
  qed
  show ?thesis
    unfolding role_session_body_def
    apply (rule cwp_sum)
     apply (simp add: cwp_ret)
    apply (rule cwp_bind, rule cwp_weaken [OF cwp_exists(2) [OF world(2)]], assumption)
    apply (elim conjE, hypsubst)
    apply (rule cwp_sum)
     apply (simp add: cwp_ret)
    apply (unfold Let_def)
    apply (rule cwp_sum)
     apply (simp add: cwp_ret)
    apply (rule stmt, assumption)
    apply blast
    done
qed

lemma cwp_role_password:
  assumes "server_world cat d rt"
  shows "cwp cat (role_password d role) (\<lambda>_ c'. c' = c) c"
proof -
  have "cwp cat (get_secret (dep_client d) ns n) (\<lambda>_ c'. c' = c) c" for ns n
    unfolding get_secret_def using assms by (intro cwp_quiet) (auto simp: server_world_def)
  note sec = cwp_weaken [OF this]
  show ?thesis
    unfolding role_password_def Let_def
    by (auto intro!: cwp_intro sec split: option.splits sum.splits)
qed

lemma cwp_session:
  assumes world: "server_world cat d rt"
    and body: "\<And>s. server_law cat s \<Longrightarrow> cwp cat (body s) Q c"
    and other: "\<And>b. Q (onblocked b) c" "\<And>e. Q (onerr e) c"
  shows "cwp cat (openSession l d ns n \<bind> (\<lambda>s. case s of
        BlockedOn b \<Rightarrow> ret (onblocked b) | Failed err \<Rightarrow> ret (onerr err)
      | Got session \<Rightarrow> deferring (close session) (body session))) Q c"
proof (rule cwp_bind, rule cwp_weaken [OF cwp_openSession [OF world]])
  fix r c'
  assume r: "c' = c \<and> (\<forall>s. r = Got s \<longrightarrow> server_law cat s)"
  show "cwp cat (case r of BlockedOn b \<Rightarrow> ret (onblocked b) | Failed err \<Rightarrow> ret (onerr err)
      | Got session \<Rightarrow> deferring (close session) (body session)) Q c'"
  proof (cases r)
    case (Got s)
    with r have s: "server_law cat s" by simp
    have "cwp cat (body s) (\<lambda>x c''. cwp cat (close s) (\<lambda>_ c3. Q x c3) c'') c"
      by (rule cwp_weaken [OF body [OF s]]) (rule cwp_close [OF s])
    then show ?thesis using r Got by (simp add: cwp_deferring)
  qed (use r other in \<open>simp_all add: cwp_ret\<close>)
qed

lemma cwp_Role_apply:
  assumes world: "server_world cat d rt" "sanitize_law l" "nul_free name"
    and names: "\<forall>g \<in> set (ro_in_roles (dr_spec role)). nul_free g" "\<forall>g \<in> groups_of c name. nul_free g"
  shows "cwp cat (Role_apply l rt d role name)
    (\<lambda>r c'. (\<exists>x. r = Done x) \<and> (\<forall>role'. r = Done (role', None, None) \<longrightarrow>
      cat_databases c' = cat_databases c \<and> cat_secrets c' = cat_secrets c \<and>
      set (cat_roles c') = insert name (set (cat_roles c)) \<and>
      set (cat_members c') = {(g, m) \<in> set (cat_members c). m \<noteq> name} \<union>
        {(g, name) |g. g \<in> set (ro_in_roles (dr_spec role))})) c"
  unfolding Role_apply_eq
proof (rule cwp_bind, rule cwp_weaken [OF cwp_role_password [OF world(1)]], hypsubst)
  fix p
  let ?post = "\<lambda>r c'. (\<exists>x. r = Done x) \<and> (\<forall>role'. r = Done (role', None, None) \<longrightarrow>
      cat_databases c' = cat_databases c \<and> cat_secrets c' = cat_secrets c \<and>
      set (cat_roles c') = insert name (set (cat_roles c)) \<and>
      set (cat_members c') = {(g, m) \<in> set (cat_members c). m \<noteq> name} \<union>
        {(g, name) |g. g \<in> set (ro_in_roles (dr_spec role))})"
  have "cwp cat (openSession l d (om_namespace (dr_meta role)) (cr_name (ro_cluster (dr_spec role))) \<bind> (\<lambda>s. case s of
       BlockedOn b \<Rightarrow> ret (Done (role, Some b, None))
     | Failed err \<Rightarrow> ret (Done (role, None, Some err))
     | Got session \<Rightarrow> deferring (close session)
         (role_session_body l rt role name (fst pv) (snd pv) session))) ?post c" for pv
    by (rule cwp_session [OF world(1)], erule cwp_role_session_body [OF world(1) _ world(2,3) names]) simp_all
  then show "cwp cat (case p of
     BlockedOn b \<Rightarrow> ret (Done (role, Some b, None))
   | Failed err \<Rightarrow> ret (Done (role, None, Some err))
   | Got pv \<Rightarrow>
     openSession l d (om_namespace (dr_meta role)) (cr_name (ro_cluster (dr_spec role))) \<bind> (\<lambda>s. case s of
       BlockedOn b \<Rightarrow> ret (Done (role, Some b, None))
     | Failed err \<Rightarrow> ret (Done (role, None, Some err))
     | Got session \<Rightarrow> deferring (close session)
         (role_session_body l rt role name (fst pv) (snd pv) session))) ?post c"
    by (cases p) (simp_all add: cwp_ret)
qed

text \<open>C2. A role apply step never panics, and when it reports neither a block nor an error the
  role exists on the server and is a member of exactly the listed groups, whatever order its
  current memberships are visited in; no other role's memberships, no other role, database or
  secret has changed.\<close>

theorem role_converges:
  assumes "server_world cat d rt" "sanitize_law l" "nul_free name"
    and "\<forall>g \<in> set (ro_in_roles (dr_spec role)). nul_free g" "\<forall>g \<in> groups_of (cat e) name. nul_free g"
  shows "(\<forall>t. result_of (Role_apply l rt d role name) e \<noteq> Panic t) \<and>
    (\<forall>role' c'. result_of (Role_apply l rt d role name) e = Done (role', None, None) \<longrightarrow>
      c' = cat (env_of (Role_apply l rt d role name) e) \<longrightarrow>
      groups_of c' name = set (ro_in_roles (dr_spec role)) \<and>
      (\<forall>m. m \<noteq> name \<longrightarrow> groups_of c' m = groups_of (cat e) m) \<and>
      set (cat_roles c') = insert name (set (cat_roles (cat e))) \<and>
      cat_databases c' = cat_databases (cat e) \<and> cat_secrets c' = cat_secrets (cat e))"
  using cwp_run [OF cwp_Role_apply [OF assms]] by (auto simp: groups_of_def)


lemma cwp_database_session_body:
  assumes "server_law cat s" "sanitize_law l" "nul_free name"
  shows "cwp cat (database_session_body l name s) (\<lambda>r c'. r = (None, None) \<longrightarrow>
    set (cat_databases c') = insert name (set (cat_databases c)) \<and> cat_roles c' = cat_roles c \<and>
    cat_secrets c' = cat_secrets c \<and> cat_members c' = cat_members c) c"
  unfolding database_session_body_def
  apply (rule cwp_sum, simp add: cwp_ret)
  apply (rule cwp_bind, rule cwp_weaken [OF cwp_exists(1) [OF assms(1)]], assumption, elim conjE, hypsubst)
  apply (rule cwp_sum, simp add: cwp_ret, rule cwp_if, rule cwp_ret, force)
  apply (rule cwp_bind, rule cwp_exec [OF assms(1) statement_tokens(1) [OF assms(2,3)]])
   apply (simp_all add: cwp_ret statement_effects del: list.map append.simps)
  done

lemma cwp_secret_session_body:
  assumes "server_law cat s" "sanitize_law l" "nul_free name" "ss_type (se_spec secret) \<noteq> []"
    "\<forall>c \<in> set (ss_type (se_spec secret)). word_char c"
    and "CreateSecret l name (ss_type (se_spec secret)) (ss_scope (se_spec secret)) options = Inr statement"
  shows "cwp cat (secret_session_body secret version statement s) (\<lambda>r c'. \<forall>se'. r = (se', None, None) \<longrightarrow>
    set (cat_secrets c') = insert name (set (cat_secrets c)) \<and> cat_roles c' = cat_roles c \<and>
    cat_databases c' = cat_databases c \<and> cat_members c' = cat_members c) c"
proof -
  obtain ts where ts: "sql_tokens statement = Some ts"
    "sql_effect ts c = c\<lparr>cat_secrets := List.insert name (cat_secrets c)\<rparr>"
    using secret_statement_effect [OF assms(2-6)] by blast
  show ?thesis
    unfolding secret_session_body_def
    by (rule cwp_bind, rule cwp_exec [OF assms(1) ts(1)]) (simp_all add: cwp_ret ts(2))
qed

lemma cwp_Database_apply:
  assumes "server_world cat d rt" "sanitize_law l" "nul_free name"
  shows "cwp cat (Database_apply l d db name) (\<lambda>r c'. r = (None, None) \<longrightarrow>
    set (cat_databases c') = insert name (set (cat_databases c)) \<and> cat_roles c' = cat_roles c \<and>
    cat_secrets c' = cat_secrets c \<and> cat_members c' = cat_members c) c"
  unfolding Database_apply_eq
  by (rule cwp_session [OF assms(1)], erule cwp_database_session_body [OF _ assms(2,3)]) simp_all

text \<open>What a \<open>DROP ROLE\<close> takes with it: the memberships of the role and in it.\<close>

definition without_role :: "string \<Rightarrow> catalog \<Rightarrow> catalog" where
  "without_role n c = c\<lparr>cat_roles := removeAll n (cat_roles c),
     cat_members := filter (\<lambda>(g, m). g \<noteq> n \<and> m \<noteq> n) (cat_members c)\<rparr>"

lemma cwp_drops:
  assumes law: "server_law cat s" "sanitize_law l" "nul_free name"
  shows "cwp cat (dropDatabase l name s) (\<lambda>r c'. r = None \<longrightarrow>
      c' = c\<lparr>cat_databases := removeAll name (cat_databases c)\<rparr>) c"
    and "cwp cat (dropRole l name s) (\<lambda>r c'. r = None \<longrightarrow>
      c' = (if name \<in> set (cat_roles c) then without_role name c else c)) c"
    and "cwp cat (dropServerSecret l name s) (\<lambda>r c'. r = None \<longrightarrow>
      c' = c\<lparr>cat_secrets := removeAll name (cat_secrets c)\<rparr>) c"
proof -
  have drop: "cwp cat (case q of Inl err \<Rightarrow> ret (Some err)
      | Inr t \<Rightarrow> exists s t \<bind> (\<lambda>r. case r of Inl err \<Rightarrow> ret (Some err)
         | Inr present \<Rightarrow> if \<not> present then ret None else exec s stmt))
       (\<lambda>r c'. r = None \<longrightarrow> c' = dropped) c"
    if "\<And>t. q = Inr t \<Longrightarrow> cwp cat (exists s t) (\<lambda>r c'. c' = c \<and> (\<forall>b. r = Inr b \<longrightarrow> b = (name \<in> set col))) c"
      and "sql_tokens stmt = Some ts" "name \<in> set col \<Longrightarrow> sql_effect ts c = dropped" "name \<notin> set col \<Longrightarrow> c = dropped"
    for q stmt ts col dropped
    apply (rule cwp_sum, simp add: cwp_ret)
    apply (rule cwp_bind, rule cwp_weaken [OF that(1)], assumption, elim conjE, hypsubst)
    apply (rule cwp_sum, simp add: cwp_ret, rule cwp_if, rule cwp_ret, use that(4) in force)
    apply (rule cwp_exec [OF law(1) that(2)], use that(3) in simp_all)
    done
  show "cwp cat (dropDatabase l name s) (\<lambda>r c'. r = None \<longrightarrow>
      c' = c\<lparr>cat_databases := removeAll name (cat_databases c)\<rparr>) c"
    unfolding dropDatabase_def
    by (rule drop [where col = "cat_databases c", OF _ statement_tokens(2) [OF law(2,3)]])
      (auto intro: cwp_exists(1) [OF law(1)] simp: statement_effects)
  show "cwp cat (dropRole l name s) (\<lambda>r c'. r = None \<longrightarrow>
      c' = (if name \<in> set (cat_roles c) then without_role name c else c)) c"
    unfolding dropRole_def
    by (rule drop [where col = "cat_roles c", OF _ statement_tokens(3) [OF law(2,3)]])
      (auto intro: cwp_exists(2) [OF law(1)] simp: statement_effects without_role_def)
  show "cwp cat (dropServerSecret l name s) (\<lambda>r c'. r = None \<longrightarrow>
      c' = c\<lparr>cat_secrets := removeAll name (cat_secrets c)\<rparr>) c"
    unfolding dropServerSecret_def
    by (rule drop [where col = "cat_secrets c", OF _ statement_tokens(4) [OF law(2,3)]])
      (auto intro: cwp_exists(3) [OF law(1)] simp: statement_effects)
qed

text \<open>C24. A server-side drop that reports success leaves the database, role or server secret of
  that name absent and everything else as it was, but for the memberships of a dropped role
  and in it.\<close>

theorem drops_remove:
  assumes "server_law cat s" "sanitize_law l" "nul_free name"
  shows "(result_of (dropDatabase l name s) e = None \<longrightarrow>
      cat (env_of (dropDatabase l name s) e) = (cat e)\<lparr>cat_databases := removeAll name (cat_databases (cat e))\<rparr>) \<and>
    (result_of (dropRole l name s) e = None \<longrightarrow>
      cat (env_of (dropRole l name s) e) = (if name \<in> set (cat_roles (cat e)) then without_role name (cat e) else cat e)) \<and>
    (result_of (dropServerSecret l name s) e = None \<longrightarrow>
      cat (env_of (dropServerSecret l name s) e) = (cat e)\<lparr>cat_secrets := removeAll name (cat_secrets (cat e))\<rparr>)"
  using cwp_run [OF cwp_drops(1) [OF assms]] cwp_run [OF cwp_drops(2) [OF assms]] cwp_run [OF cwp_drops(3) [OF assms]]
  by simp


lemma cwp_ServerSecret_apply:
  assumes world: "server_world cat d rt" "sanitize_law l" "nul_free name"
    and type: "ss_type (se_spec secret) \<noteq> []" "\<forall>c \<in> set (ss_type (se_spec secret)). word_char c"
  shows "cwp cat (ServerSecret_apply l rt d secret name) (\<lambda>r c'. \<forall>se'. r = (se', None, None) \<longrightarrow>
    set (cat_secrets c') = insert name (set (cat_secrets c)) \<and> cat_roles c' = cat_roles c \<and>
    cat_databases c' = cat_databases c \<and> cat_members c' = cat_members c) c"
proof -
  have "cwp cat (get_secret (dep_client d) ns n) (\<lambda>_ c'. c' = c) c" for ns n
    unfolding get_secret_def using world(1) by (intro cwp_quiet) (auto simp: server_world_def)
  note sec = cwp_weaken [OF this]
  have options: "cwp cat (secret_options d secret) (\<lambda>_ c'. c' = c) c"
    unfolding secret_options_def Let_def
    by (auto intro!: cwp_intro sec split: option.splits sum.splits)
  let ?post = "\<lambda>r c'. \<forall>se'. r = (se', None, None) \<longrightarrow>
    set (cat_secrets c') = insert name (set (cat_secrets c)) \<and> cat_roles c' = cat_roles c \<and>
    cat_databases c' = cat_databases c \<and> cat_members c' = cat_members c"
  have session: "cwp cat (openSession l d (om_namespace (se_meta secret)) (cr_name (ss_cluster (se_spec secret))) \<bind> (\<lambda>s. case s of
           BlockedOn b \<Rightarrow> ret (secret, Some b, None)
         | Failed err \<Rightarrow> ret (secret, None, Some err)
         | Got session \<Rightarrow> deferring (close session) (secret_session_body secret version statement session))) ?post c"
    if "CreateSecret l name (ss_type (se_spec secret)) (ss_scope (se_spec secret)) visited = Inr statement"
    for visited version statement
    by (rule cwp_session [OF world(1)], erule cwp_secret_session_body [OF _ world(2,3) type that]) simp_all
  have visit: "cwp cat (range_over rt (fst ov) \<bind> (\<lambda>visited.
       case CreateSecret l name (ss_type (se_spec secret)) (ss_scope (se_spec secret)) visited of
         Inl err \<Rightarrow> ret (secret, Some \<lparr>reason = reasonInvalidSpec, message = error_text err\<rparr>, None)
       | Inr statement \<Rightarrow>
         openSession l d (om_namespace (se_meta secret)) (cr_name (ss_cluster (se_spec secret))) \<bind> (\<lambda>s. case s of
           BlockedOn b \<Rightarrow> ret (secret, Some b, None)
         | Failed err \<Rightarrow> ret (secret, None, Some err)
         | Got session \<Rightarrow> deferring (close session) (secret_session_body secret (snd ov) statement session)))) ?post c" for ov
    apply (rule cwp_bind, rule cwp_weaken [OF cwp_range_over [OF world(1)]], elim conjE, hypsubst)
    apply (rule cwp_sum, simp add: cwp_ret)
    apply (erule session)
    done
  show ?thesis
    unfolding ServerSecret_apply_eq
    apply (rule cwp_bind, rule cwp_weaken [OF options], hypsubst)
    subgoal for p by (cases p) (simp_all only: attempt.case visit, simp_all add: cwp_ret)
    done
qed

text \<open>C23. When the apply step of a Database reports neither a block nor an error, the database exists
  on the server and nothing else there has changed, whether it was there before or not. When that
  of a ServerSecret does, the server holds a secret of that name and nothing else there has changed.
  The secret's type is the one value that is not quoted; the hypothesis on it is what the CRD's
  enumeration guarantees.\<close>

theorem applies_converge:
  assumes "server_world cat d rt" "sanitize_law l" "nul_free name"
  shows "(result_of (Database_apply l d db name) e = (None, None) \<longrightarrow>
     set (cat_databases (cat (env_of (Database_apply l d db name) e))) = insert name (set (cat_databases (cat e))) \<and>
     cat_roles (cat (env_of (Database_apply l d db name) e)) = cat_roles (cat e) \<and>
     cat_secrets (cat (env_of (Database_apply l d db name) e)) = cat_secrets (cat e) \<and>
     cat_members (cat (env_of (Database_apply l d db name) e)) = cat_members (cat e)) \<and>
    (ss_type (se_spec secret) \<noteq> [] \<longrightarrow> list_all word_char (ss_type (se_spec secret)) \<longrightarrow>
     result_of (ServerSecret_apply l rt d secret name) e = (secret', None, None) \<longrightarrow>
     set (cat_secrets (cat (env_of (ServerSecret_apply l rt d secret name) e))) = insert name (set (cat_secrets (cat e))) \<and>
     cat_roles (cat (env_of (ServerSecret_apply l rt d secret name) e)) = cat_roles (cat e) \<and>
     cat_databases (cat (env_of (ServerSecret_apply l rt d secret name) e)) = cat_databases (cat e) \<and>
     cat_members (cat (env_of (ServerSecret_apply l rt d secret name) e)) = cat_members (cat e))"
  using cwp_run [OF cwp_Database_apply [OF assms, of db "cat e"]]
    cwp_run [OF cwp_ServerSecret_apply [OF assms, of secret "cat e"]]
  by (simp add: list_all_iff)

section \<open>A server\<close>

definition string_tokens :: "token list \<Rightarrow> string list" where
  "string_tokens ts = concat (map (\<lambda>t. case t of Str n \<Rightarrow> [n] | _ \<Rightarrow> []) ts)"

definition catalog_answer :: "token list \<Rightarrow> catalog \<Rightarrow> rows" where
  "catalog_answer ts c = (case string_tokens ts of [] \<Rightarrow> []
     | n # _ \<Rightarrow>
        if ts = existence_tokens [''pg_database''] ''datname'' n then
          (if n \<in> set (cat_databases c) then [[''1'']] else [])
        else if ts = existence_tokens [''pg_roles''] ''rolname'' n then
          (if n \<in> set (cat_roles c) then [[''1'']] else [])
        else if ts = existence_tokens [''sdb_secrets''] ''name'' n then
          (if n \<in> set (cat_secrets c) then [[''1'']] else [])
        else if ts = membership_tokens n then
          map (\<lambda>(g, m). [g]) (filter (\<lambda>(g, m). m = n) (cat_members c))
        else [])"

definition token_session :: "catalog session" where
  "token_session = \<lparr>
     s_exec = (\<lambda>stmt c. case sql_tokens stmt of None \<Rightarrow> (Some (SqlError ''syntax error''), c)
       | Some ts \<Rightarrow> (None, sql_effect ts c)),
     s_query = (\<lambda>q c. (case sql_tokens q of None \<Rightarrow> Inl (SqlError ''syntax error'')
       | Some ts \<Rightarrow> Inr (catalog_answer ts c), c)),
     s_close = (\<lambda>c. (None, c))\<rparr>"

lemma string_tokens_queries [simp]:
  "string_tokens (existence_tokens rel col n) = [n]" "string_tokens (membership_tokens n) = [n]"
  by (simp_all add: string_tokens_def existence_tokens_def membership_tokens_def)

lemma query_shapes_differ [simp]:
  "existence_tokens [''pg_roles''] ''rolname'' n \<noteq> existence_tokens [''pg_database''] ''datname'' m"
  "existence_tokens [''sdb_secrets''] ''name'' n \<noteq> existence_tokens [''pg_database''] ''datname'' m"
  "existence_tokens [''sdb_secrets''] ''name'' n \<noteq> existence_tokens [''pg_roles''] ''rolname'' m"
  "membership_tokens n \<noteq> existence_tokens [''pg_database''] ''datname'' m"
  "membership_tokens n \<noteq> existence_tokens [''pg_roles''] ''rolname'' m"
  "membership_tokens n \<noteq> existence_tokens [''sdb_secrets''] ''name'' m"
  by (simp_all add: existence_tokens_def membership_tokens_def)

lemma catalog_answer_reply: "sql_reply ts (catalog_answer ts c) c"
proof -
  have "\<exists>gs. map (\<lambda>(g, m). [g]) (filter (\<lambda>(g, m). m = n) ms) = map (\<lambda>g. [g]) gs \<and> set gs = {g. (g, n) \<in> set ms}"
    for n and ms :: "(string \<times> string) list"
    by (rule exI [where x = "map fst (filter (\<lambda>(g, m). m = n) ms)"]) force
  then show ?thesis by (auto simp: sql_reply_def catalog_answer_def groups_of_def)
qed

lemma token_session_law: "server_law id token_session"
  by (auto simp: server_law_def token_session_def catalog_answer_reply split: option.splits)

definition token_bed :: "catalog dependents" where
  "token_bed = \<lparr>dep_client = static_client bed_stock, dep_connector = (\<lambda>_ c. (Inr token_session, c))\<rparr>"

definition some_catalog :: catalog where
  "some_catalog = \<lparr>cat_databases = [''app''], cat_roles = [''app''], cat_secrets = [],
     cat_members = [(''old'', ''app''), (''readers'', ''app''), (''old'', ''other'')]\<rparr>"

lemma token_world: "server_world id token_bed (still_runtime 0)"
  by (simp add: server_world_def token_bed_def static_client_def stocked_def still_runtime_def
      token_session_law split: option.splits)

lemma token_bed_reads:
  "k_get_serenedb (dep_client token_bed) ''prod'' ''mydb'' c = (Inr ready_db, c)"
  "k_get_secret (dep_client token_bed) ''prod'' ''mydb'' c = (Inr superuser_secret, c)"
  "dep_connector token_bed t c = (Inr token_session, c)"
  by (simp_all add: token_bed_def static_client_def stocked_def bed_stock_def empty_stock_def
      ready_db_def sample_db_def superuser_secret_def)

lemma token_bed_session: "\<exists>es. run_state (openSession plain_lib token_bed ''prod'' ''mydb'') w =
    (Got token_session, \<lparr>w_env = w_env w, w_log = w_log w @ es\<rparr>)"
  by (simp add: openSession_def superuserPassword_def call_defs call_def token_bed_reads ready_db_facts)

lemma app_nul_free: "nul_free ''app''" "nul_free ''readers''" "nul_free ''writers''" "nul_free ''old''" "nul_free ''new''"
  by (simp_all add: nul_free_def)

lemma token_exec: "sql_tokens stmt = Some ts \<Longrightarrow> s_exec token_session stmt c = (None, sql_effect ts c)"
  by (simp add: token_session_def)

lemma token_query: "sql_tokens q = Some ts \<Longrightarrow> s_query token_session q c = (Inr (catalog_answer ts c), c)"
  by (simp add: token_session_def)

lemma token_close: "s_close token_session c = (None, c)"
  by (simp add: token_session_def)

lemma token_answers:
  "catalog_answer (existence_tokens [''pg_database''] ''datname'' n) c = (if n \<in> set (cat_databases c) then [[''1'']] else [])"
  "catalog_answer (existence_tokens [''pg_roles''] ''rolname'' n) c = (if n \<in> set (cat_roles c) then [[''1'']] else [])"
  "catalog_answer (membership_tokens n) c = map (\<lambda>(g, m). [g]) (filter (\<lambda>(g, m). m = n) (cat_members c))"
  by (simp_all add: catalog_answer_def)

lemma sample_role_facts:
  "om_namespace (dr_meta sample_role) = ''prod''" "cr_name (ro_cluster (dr_spec sample_role)) = ''mydb''"
  "ro_password_secret (dr_spec sample_role) = None" "ro_in_roles (dr_spec sample_role) = [''readers'', ''writers'']"
  by (simp_all add: sample_role_def)

lemma sample_role_applied:
  "\<exists>role'. result_of (Role_apply plain_lib (still_runtime 0) token_bed sample_role ''app'') some_catalog =
    Done (role', None, None)"
proof -
  obtain q where q: "RoleExists ''app'' = Inr q" by (simp add: RoleExists_def Literal_eq app_nul_free)
  obtain m where m: "RoleMemberships ''app'' = Inr m" by (simp add: RoleMemberships_def Literal_eq app_nul_free)
  have "\<exists>stmt. roleStatement plain_lib ''app'' (roleAttributes (dr_spec sample_role)) True = Inr stmt"
    by (simp add: roleStatement_def AlterRole_def render_eq attributes_ok_def roleAttributes_def sample_role_def)
  then obtain stmt where stmt: "roleStatement plain_lib ''app'' (roleAttributes (dr_spec sample_role)) True = Inr stmt"
    by blast
  then have "AlterRole plain_lib ''app'' (roleAttributes (dr_spec sample_role)) = Inr stmt"
    by (simp add: roleStatement_def)
  from role_statement_effect(2) [OF plain_lib_sanitize app_nul_free(1) this]
  obtain ts where ts: "sql_tokens stmt = Some ts" "\<And>c. sql_effect ts c = c" by blast
  obtain es where opened: "run_state (openSession plain_lib token_bed ''prod'' ''mydb'') \<lparr>w_env = some_catalog, w_log = []\<rparr> =
      (Got token_session, \<lparr>w_env = some_catalog, w_log = es\<rparr>)"
    using token_bed_session [of "\<lparr>w_env = some_catalog, w_log = []\<rparr>"] by auto
  have cat: "''app'' \<in> set (cat_roles some_catalog)"
    "cat_members some_catalog = [(''old'', ''app''), (''readers'', ''app''), (''old'', ''other'')]"
    by (simp_all add: some_catalog_def)
  show ?thesis
    by (simp add: result_of_def Role_apply_eq role_password_def sample_role_facts opened deferring_def
        role_session_body_def q exists_def call_defs call_def token_query [OF query_tokens(2) [OF q]] token_answers cat
        stmt token_exec [OF ts(1)] ts(2) converge_def m token_query [OF query_tokens(4) [OF m]]
        token_exec [OF statement_tokens(5) [OF plain_lib_sanitize app_nul_free(1) app_nul_free(3)]]
        token_exec [OF statement_tokens(6) [OF plain_lib_sanitize app_nul_free(1) app_nul_free(4)]]
        range_over_def still_runtime_def token_close)
qed

theorem role_converges_witness:
  "server_world id token_bed (still_runtime 0) \<and> sanitize_law plain_lib \<and> nul_free ''app'' \<and>
   groups_of some_catalog ''app'' = {''old'', ''readers''} \<and>
   groups_of (env_of (Role_apply plain_lib (still_runtime 0) token_bed sample_role ''app'') some_catalog) ''app''
     = {''readers'', ''writers''}"
proof -
  have "\<forall>g \<in> set (ro_in_roles (dr_spec sample_role)). nul_free g"
    "\<forall>g \<in> groups_of (id some_catalog) ''app''. nul_free g"
    by (auto simp: nul_free_def sample_role_def groups_of_def some_catalog_def)
  note conv = role_converges [OF token_world plain_lib_sanitize app_nul_free(1) this]
  obtain role' where "result_of (Role_apply plain_lib (still_runtime 0) token_bed sample_role ''app'') some_catalog =
      Done (role', None, None)"
    using sample_role_applied by blast
  with conv have "groups_of (env_of (Role_apply plain_lib (still_runtime 0) token_bed sample_role ''app'') some_catalog) ''app''
     = set (ro_in_roles (dr_spec sample_role))"
    by simp
  moreover have "groups_of some_catalog ''app'' = {''old'', ''readers''}"
    by (auto simp: groups_of_def some_catalog_def)
  ultimately show ?thesis
    using token_world plain_lib_sanitize app_nul_free(1) by (simp add: sample_role_facts)
qed

definition sample_database :: database where
  "sample_database = dying_database\<lparr>da_meta := (da_meta dying_database)\<lparr>om_deletion_timestamp := None\<rparr>\<rparr>"

lemma sample_database_applied:
  "result_of (Database_apply plain_lib token_bed sample_database ''new'') some_catalog = (None, None)"
proof -
  obtain q where q: "DatabaseExists ''new'' = Inr q" by (simp add: DatabaseExists_def Literal_eq app_nul_free)
  obtain es where opened: "run_state (openSession plain_lib token_bed ''prod'' ''mydb'') \<lparr>w_env = some_catalog, w_log = []\<rparr> =
      (Got token_session, \<lparr>w_env = some_catalog, w_log = es\<rparr>)"
    using token_bed_session [of "\<lparr>w_env = some_catalog, w_log = []\<rparr>"] by auto
  have "om_namespace (da_meta sample_database) = ''prod''" "cr_name (dbs_cluster (da_spec sample_database)) = ''mydb''"
    by (simp_all add: sample_database_def dying_database_def)
  then show ?thesis
    using opened
    by (simp add: result_of_def Database_apply_eq deferring_def database_session_body_def q exists_def call_defs
        call_def token_query [OF query_tokens(1) [OF q]] token_answers some_catalog_def
        token_exec [OF statement_tokens(1) [OF plain_lib_sanitize app_nul_free(5)]] token_close)
qed

lemma app_database_dropped: "result_of (dropDatabase plain_lib ''app'' token_session) some_catalog = None"
proof -
  obtain q where q: "DatabaseExists ''app'' = Inr q" by (simp add: DatabaseExists_def Literal_eq app_nul_free)
  show ?thesis
    by (simp add: result_of_def dropDatabase_def q exists_def call_defs call_def
        token_query [OF query_tokens(1) [OF q]] token_answers some_catalog_def
        token_exec [OF statement_tokens(2) [OF plain_lib_sanitize app_nul_free(1)]])
qed

theorem drops_remove_witness:
  "server_law id token_session \<and> sanitize_law plain_lib \<and> nul_free ''app'' \<and>
   cat_databases some_catalog = [''app''] \<and>
   env_of (dropDatabase plain_lib ''app'' token_session) some_catalog = some_catalog\<lparr>cat_databases := []\<rparr>"
proof -
  have "cat_databases some_catalog = [''app'']" by (simp add: some_catalog_def)
  with drops_remove [OF token_session_law plain_lib_sanitize app_nul_free(1), of some_catalog]
    app_database_dropped token_session_law plain_lib_sanitize app_nul_free(1) show ?thesis by simp
qed

definition sample_server_secret :: server_secret where
  "sample_server_secret = \<lparr>
     se_meta = empty_meta\<lparr>om_name := ''lake'', om_namespace := ''prod'', om_finalizers := [DependentFinalizer]\<rparr>,
     se_spec = \<lparr>ss_cluster = \<lparr>cr_name = ''mydb''\<rparr>, ss_name = [], ss_type = ''s3'', ss_scope = [],
       ss_options = sample_options, ss_values_from = None\<rparr>,
     se_status = \<lparr>ds_observed_generation = 0, ds_conditions = [], sv_values_secret_version = []\<rparr>\<rparr>"

lemma sample_server_secret_facts:
  "om_namespace (se_meta sample_server_secret) = ''prod''" "cr_name (ss_cluster (se_spec sample_server_secret)) = ''mydb''"
  "ss_values_from (se_spec sample_server_secret) = None" "ss_type (se_spec sample_server_secret) = ''s3''"
  "maps_Copy [] (ss_options (se_spec sample_server_secret)) = sample_options" "ss_scope (se_spec sample_server_secret) = []"
  "nul_free ''lake''" "\<forall>c \<in> set (ss_type (se_spec sample_server_secret)). word_char c"
  by (simp_all add: sample_server_secret_def maps_Copy_def sample_options_def nul_free_def word_char_code Let_def)

lemma sample_server_secret_applied:
  "result_of (ServerSecret_apply plain_lib (still_runtime 0) token_bed sample_server_secret ''lake'') some_catalog =
    (sample_server_secret, None, None)"
proof -
  have "\<exists>stmt. CreateSecret plain_lib ''lake'' ''s3'' [] sample_options = Inr stmt"
    unfolding CreateSecret_Inr
    by (auto simp: sample_options_def options_ok_def option_value_def nul_free_def word_char_code is_digit_code)
  then obtain stmt where stmt: "CreateSecret plain_lib ''lake'' ''s3'' [] sample_options = Inr stmt" by blast
  have "''s3'' \<noteq> []" "\<forall>c \<in> set ''s3''. word_char c" by (simp_all add: word_char_code)
  from secret_statement_effect [OF plain_lib_sanitize sample_server_secret_facts(7) this stmt]
  obtain ts where ts: "sql_tokens stmt = Some ts" by blast
  have versions: "sample_server_secret\<lparr>se_status := (se_status sample_server_secret)\<lparr>sv_values_secret_version := []\<rparr>\<rparr> =
      sample_server_secret"
    by (simp add: sample_server_secret_def)
  obtain es where opened: "run_state (openSession plain_lib token_bed ''prod'' ''mydb'')
      \<lparr>w_env = some_catalog, w_log = [Ranged]\<rparr> = (Got token_session, \<lparr>w_env = some_catalog, w_log = es\<rparr>)"
    using token_bed_session [of "\<lparr>w_env = some_catalog, w_log = [Ranged]\<rparr>"] by auto
  show ?thesis
    using opened
    by (simp add: result_of_def ServerSecret_apply_eq secret_options_def sample_server_secret_facts range_over_def call_defs
        call_def still_runtime_def stmt deferring_def secret_session_body_def token_exec [OF ts] token_close versions)
qed

theorem applies_converge_witness:
  "server_world id token_bed (still_runtime 0) \<and> sanitize_law plain_lib \<and>
   result_of (Database_apply plain_lib token_bed sample_database ''new'') some_catalog = (None, None) \<and>
   set (cat_databases (env_of (Database_apply plain_lib token_bed sample_database ''new'') some_catalog)) = {''new'', ''app''} \<and>
   result_of (ServerSecret_apply plain_lib (still_runtime 0) token_bed sample_server_secret ''lake'') some_catalog =
     (sample_server_secret, None, None) \<and>
   set (cat_secrets (env_of (ServerSecret_apply plain_lib (still_runtime 0) token_bed sample_server_secret ''lake'') some_catalog))
     = {''lake''}"
proof -
  have "set (cat_databases some_catalog) = {''app''}" "cat_secrets some_catalog = []" by (simp_all add: some_catalog_def)
  with applies_converge [OF token_world plain_lib_sanitize app_nul_free(5), of sample_database some_catalog]
    applies_converge [OF token_world plain_lib_sanitize sample_server_secret_facts(7),
      of _ _ sample_server_secret sample_server_secret]
    token_world plain_lib_sanitize sample_server_secret_facts(4,8) sample_database_applied sample_server_secret_applied
  show ?thesis by (simp add: list_all_iff)
qed

end
