(* ===== verification/Lifecycle.thy ===== *)
theory Lifecycle
  imports Convergence
begin

text \<open>
  The life of a Database, a DatabaseRole or a ServerSecret from end to end: the API server
  stores what the reconciles write, the SQL server carries out what they send, and the next
  reconcile starts from there. The two are abstractions of one environment, the cell that holds
  the object and the catalog. What a kind has to provide is the locale \<open>dependent_lifecycle\<close>;
  the theory \<open>Lives\<close> interprets it on the three kinds.
\<close>

section \<open>The API server and a cluster that is up\<close>

text \<open>
  The storage of one object without other writers, under resource versions of the API server's
  choice: a read answers the object or NotFound, an update stores metadata and spec, keeps the
  stored status and removes an object that is being deleted and has no finalizer left, a status
  patch changes the status alone.
\<close>

definition object_home :: "('e, 'o) dependent_kind \<Rightarrow> ('o \<Rightarrow> 's) \<Rightarrow> ('o \<Rightarrow> 't) \<Rightarrow> ('e \<Rightarrow> 'o option) \<Rightarrow>
    ('e \<Rightarrow> catalog) \<Rightarrow> string \<Rightarrow> string \<Rightarrow> bool" where
  "object_home k spec status cell cat ns n \<longleftrightarrow>
     (\<forall>e. cell (snd (dk_get k ns n e)) = cell e \<and> cat (snd (dk_get k ns n e)) = cat e \<and>
       (case cell e of None \<Rightarrow> \<exists>m. fst (dk_get k ns n e) = Inl (ApiStatus NotFound m)
        | Some obj \<Rightarrow> fst (dk_get k ns n e) = Inr obj)) \<and>
     (\<forall>e obj cur. cell e = Some cur \<longrightarrow> om_namespace (ob_meta (dk_ops k) obj) = ns \<longrightarrow>
       om_name (ob_meta (dk_ops k) obj) = n \<longrightarrow>
       fst (ob_update (dk_ops k) obj e) = None \<and> cat (snd (ob_update (dk_ops k) obj e)) = cat e \<and>
       (if om_finalizers (ob_meta (dk_ops k) obj) = [] \<and> \<not> IsZero (om_deletion_timestamp (ob_meta (dk_ops k) cur))
        then cell (snd (ob_update (dk_ops k) obj e)) = None
        else \<exists>obj' v. cell (snd (ob_update (dk_ops k) obj e)) = Some obj' \<and> spec obj' = spec obj \<and>
          status obj' = status cur \<and> ob_meta (dk_ops k) obj' = (ob_meta (dk_ops k) obj)\<lparr>om_resource_version := v\<rparr>)) \<and>
     (\<forall>e old new. cell e = Some old \<longrightarrow>
       fst (dk_patch k old new e) = None \<and> cat (snd (dk_patch k old new e)) = cat e \<and>
       (\<exists>obj' v. cell (snd (dk_patch k old new e)) = Some obj' \<and> spec obj' = spec old \<and> status obj' = status new \<and>
          ob_meta (dk_ops k) obj' = (ob_meta (dk_ops k) old)\<lparr>om_resource_version := v\<rparr>))"

text \<open>A session that takes every statement, and a SereneDB that is ready and can be connected to.\<close>

definition willing :: "('e \<Rightarrow> 'c) \<Rightarrow> 'e session \<Rightarrow> bool" where
  "willing cell s \<longleftrightarrow>
     (\<forall>stmt e. fst (s_exec s stmt e) = None \<and> cell (snd (s_exec s stmt e)) = cell e) \<and>
     (\<forall>q e. (\<exists>rows. fst (s_query s q e) = Inr rows) \<and> cell (snd (s_query s q e)) = cell e) \<and>
     (\<forall>e. cell (snd (s_close s e)) = cell e)"

definition cluster_up :: "lib \<Rightarrow> ('e \<Rightarrow> 'c) \<Rightarrow> 'e dependents \<Rightarrow> string \<Rightarrow> string \<Rightarrow> bool" where
  "cluster_up l cell d ns cluster \<longleftrightarrow>
     (\<exists>db secret pw. is_status_condition_true l (st_conditions (db_status db)) ConditionReady \<and>
        IsZero (om_deletion_timestamp (db_meta db)) \<and> map_of (sec_data secret) (PasswordKey db) = Some pw \<and>
        (\<forall>e. fst (k_get_serenedb (dep_client d) ns cluster e) = Inr db \<and>
           cell (snd (k_get_serenedb (dep_client d) ns cluster e)) = cell e) \<and>
        (\<forall>e. fst (k_get_secret (dep_client d) (Namespace db) (SecretName db) e) = Inr secret \<and>
           cell (snd (k_get_secret (dep_client d) (Namespace db) (SecretName db) e)) = cell e)) \<and>
     (\<forall>t e. (\<exists>s. fst (dep_connector d t e) = Inr s \<and> willing cell s) \<and> cell (snd (dep_connector d t e)) = cell e)"

text \<open>The finalizer functions change the finalizers and nothing else.\<close>

definition finalizer_frame :: "lib \<Rightarrow> bool" where
  "finalizer_frame l \<longleftrightarrow> (\<forall>m f. (\<exists>fs. add_finalizer l m f = m\<lparr>om_finalizers := fs\<rparr>) \<and>
     (\<exists>fs. remove_finalizer l m f = m\<lparr>om_finalizers := fs\<rparr>))"

section \<open>Calls\<close>

lemma cwp_call:
  assumes "\<And>e. cell e = c \<Longrightarrow> Q (fst (f e)) (cell (snd (f e)))"
  shows "cwp cell (call f ev) Q c"
  using assms by (auto simp: cwp_def call_def split: prod.splits) (metis fst_conv snd_conv)

lemma cwp_pair:
  assumes "cwp f m P (fst c)" and "cwp g m Q (snd c)"
  shows "cwp (\<lambda>e. (f e, g e)) m (\<lambda>a c'. P a (fst c') \<and> Q a (snd c')) c"
  using assms unfolding cwp_def by (auto split: prod.splits)

lemma cwp_quietly:
  assumes "\<And>e. P (fst (f e)) \<and> cell (snd (f e)) = cell e"
  shows "cwp cell (call f ev) (\<lambda>a c'. P a \<and> c' = c) c"
  using assms by (intro cwp_call) auto

lemma willing_session:
  assumes "willing cell s"
  shows "cwp cell (exec s stmt) (\<lambda>r c'. r = None \<and> c' = c) c"
    and "cwp cell (query s q) (\<lambda>r c'. (\<exists>rows. r = Inr rows) \<and> c' = c) c"
    and "cwp cell (close s) (\<lambda>_ c'. c' = c) c"
  using assms unfolding willing_def exec_def query_def close_def by (auto intro!: cwp_call)

lemma cluster_up_session:
  assumes "cluster_up l cell d ns cluster"
  shows "cwp cell (openSession l d ns cluster) (\<lambda>r c'. (\<exists>s. r = Got s \<and> willing cell s) \<and> c' = c) c"
proof -
  from assms obtain db secret pw where db: "is_status_condition_true l (st_conditions (db_status db)) ConditionReady"
    "map_of (sec_data secret) (PasswordKey db) = Some pw"
    and reads: "\<And>e. fst (k_get_serenedb (dep_client d) ns cluster e) = Inr db \<and>
        cell (snd (k_get_serenedb (dep_client d) ns cluster e)) = cell e"
      "\<And>e. fst (k_get_secret (dep_client d) (Namespace db) (SecretName db) e) = Inr secret \<and>
        cell (snd (k_get_secret (dep_client d) (Namespace db) (SecretName db) e)) = cell e"
    unfolding cluster_up_def by blast
  have conn: "cwp cell (connect (dep_connector d) t) (\<lambda>r c'. (\<exists>s. r = Inr s \<and> willing cell s) \<and> c' = c) c" for t
    using assms unfolding connect_def cluster_up_def by (intro cwp_quietly) blast
  have gets: "cwp cell (get_serenedb (dep_client d) ns cluster) (\<lambda>r c'. r = Inr db \<and> c' = c) c"
    "cwp cell (get_secret (dep_client d) (Namespace db) (SecretName db)) (\<lambda>r c'. r = Inr secret \<and> c' = c) c"
    unfolding get_serenedb_def get_secret_def using reads by (intro cwp_quietly; blast)+
  show ?thesis
    unfolding openSession_def superuserPassword_def
    by (auto intro!: cwp_bind cwp_ret cwp_weaken [OF gets(1)] cwp_weaken [OF gets(2)] cwp_weaken [OF conn] simp: db)
qed

lemma cluster_up_present:
  assumes "cluster_up l cell d ns cluster"
  shows "cwp cell (clusterGone d ns cluster) (\<lambda>r c'. r = Inr False \<and> c' = c) c"
proof -
  from assms obtain db where "IsZero (om_deletion_timestamp (db_meta db))"
    and "\<And>e. fst (k_get_serenedb (dep_client d) ns cluster e) = Inr db \<and>
        cell (snd (k_get_serenedb (dep_client d) ns cluster e)) = cell e"
    unfolding cluster_up_def by blast
  then show ?thesis
    unfolding clusterGone_def get_serenedb_def by (auto intro!: cwp_bind cwp_call cwp_ret)
qed


definition lifecycle_laws :: "lib \<Rightarrow> bool" where
  "lifecycle_laws l \<longleftrightarrow> sanitize_law l \<and> condition_law l \<and> finalizer_law l \<and> finalizer_frame l"

lemma finalizer_member:
  assumes "lifecycle_laws l"
  shows "contains_finalizer l m f \<longleftrightarrow> f \<in> set (om_finalizers m)"
    and "set (om_finalizers (add_finalizer l m f)) = insert f (set (om_finalizers m))"
    and "set (om_finalizers (remove_finalizer l m f)) = set (om_finalizers m) - {f}"
  using assms by (simp_all add: lifecycle_laws_def finalizer_law_def)

text \<open>The cell and the catalog together: what leaves the one alone is shown for the other.\<close>

abbreviation both :: "('e \<Rightarrow> 'o option) \<Rightarrow> ('e \<Rightarrow> catalog) \<Rightarrow> 'e \<Rightarrow> 'o option \<times> catalog" where
  "both cell cat \<equiv> \<lambda>e. (cell e, cat e)"

lemma cwp_both:
  assumes "cwp cell m (\<lambda>r x'. P r \<and> x' = x) x" and "cwp cat m Q c" and "\<And>r c'. P r \<Longrightarrow> Q r c' \<Longrightarrow> R r c'"
  shows "cwp (both cell cat) m (\<lambda>r s. P r \<and> fst s = x \<and> R r (snd s)) (x, c)"
  by (rule cwp_weaken [OF cwp_pair [where c = "(x, c)", unfolded fst_conv snd_conv, OF assms(1,2)]])
    (auto intro: assms(3))

text \<open>The object as found and as left: same spec, same metadata but finalizers and version.\<close>

definition same_object :: "('e, 'o) dependent_kind \<Rightarrow> ('o \<Rightarrow> 's) \<Rightarrow> 'o \<Rightarrow> 'o \<Rightarrow> bool" where
  "same_object k spec obj obj' \<longleftrightarrow> spec obj' = spec obj \<and>
     (\<exists>fs v. ob_meta (dk_ops k) obj' = (ob_meta (dk_ops k) obj)\<lparr>om_finalizers := fs, om_resource_version := v\<rparr>)"

lemma same_object_trans: "same_object k spec a b \<Longrightarrow> same_object k spec b c \<Longrightarrow> same_object k spec a c"
  by (auto simp: same_object_def) (intro exI, rule refl)

lemma same_object_facts:
  assumes "same_object k spec obj obj'"
  shows "spec obj' = spec obj" "om_namespace (ob_meta (dk_ops k) obj') = om_namespace (ob_meta (dk_ops k) obj)"
    "om_name (ob_meta (dk_ops k) obj') = om_name (ob_meta (dk_ops k) obj)"
    "om_generation (ob_meta (dk_ops k) obj') = om_generation (ob_meta (dk_ops k) obj)"
    "om_deletion_timestamp (ob_meta (dk_ops k) obj') = om_deletion_timestamp (ob_meta (dk_ops k) obj)"
  using assms by (auto simp: same_object_def)

text \<open>A living object that is settled; \<open>goal\<close> says what the server holds.\<close>

definition settled :: "lib \<Rightarrow> ('e, 'o) dependent_kind \<Rightarrow> ('o \<Rightarrow> 's) \<Rightarrow> ('o \<Rightarrow> 't dependent_status_scheme) \<Rightarrow> 'o \<Rightarrow>
    (catalog \<Rightarrow> bool) \<Rightarrow> 'o option \<times> catalog \<Rightarrow> bool" where
  "settled l k spec status obj goal s \<longleftrightarrow> (\<exists>obj'. fst s = Some obj' \<and> same_object k spec obj obj' \<and>
     contains_finalizer l (ob_meta (dk_ops k) obj') DependentFinalizer \<and>
     is_status_condition_true l (ds_conditions (status obj')) ConditionReady \<and>
     ds_observed_generation (status obj') = om_generation (ob_meta (dk_ops k) obj)) \<and> goal (snd s)"

section \<open>Any number of reconciles\<close>

primrec reconciled :: "('e, 'a) eff \<Rightarrow> nat \<Rightarrow> 'e \<Rightarrow> 'e" where
  "reconciled m 0 e = e"
| "reconciled m (Suc n) e = env_of m (reconciled m n e)"

lemma reconciled_step:
  assumes "cwp abst m Q (abst (reconciled m n e))"
  shows "\<exists>r. Q r (abst (reconciled m (Suc n) e))"
  using cwp_run [OF assms] by auto

section \<open>The contract of a kind\<close>

text \<open>
  \<open>fit\<close> is what an object needs around it to be applied, \<open>made\<close> and \<open>gone\<close> relate the catalog
  before and after a successful apply step and drop.
\<close>

locale dependent_lifecycle =
  fixes l :: lib and rt :: "'e runtime" and d :: "'e dependents" and k :: "('e, 'o) dependent_kind"
    and spec :: "'o \<Rightarrow> 's" and status :: "'o \<Rightarrow> 't dependent_status_scheme"
    and cell :: "'e \<Rightarrow> 'o option" and cat :: "'e \<Rightarrow> catalog"
    and fit :: "'o \<Rightarrow> catalog \<Rightarrow> bool" and made :: "'o \<Rightarrow> catalog \<Rightarrow> catalog \<Rightarrow> bool"
    and gone :: "'o \<Rightarrow> catalog \<Rightarrow> catalog \<Rightarrow> bool"
  assumes with_meta: "ob_meta (dk_ops k) (ob_with_meta (dk_ops k) obj m) = m"
      "spec (ob_with_meta (dk_ops k) obj m) = spec obj"
    and reports: "dk_report k obj None None = (changed, result) \<Longrightarrow>
      outcome l (ds_conditions (status obj)) (om_generation (ob_meta (dk_ops k) obj)) None None =
        (ds_conditions (status changed), result) \<and>
      ds_observed_generation (status changed) = om_generation (ob_meta (dk_ops k) obj)"
    and fit_same: "same_object k spec obj obj' \<Longrightarrow> fit obj c \<Longrightarrow> fit obj' c"
    and fit_made: "fit obj c \<Longrightarrow> made obj c c' \<Longrightarrow> fit obj c'"
    and fit_up: "fit obj c \<Longrightarrow> server_world cat d rt \<and>
      cluster_up l cell d (om_namespace (ob_meta (dk_ops k) obj)) (dk_cluster k obj)"
    and made_same: "same_object k spec obj obj' \<Longrightarrow> made obj' = made obj"
    and made_again: "made obj c c1 \<Longrightarrow> made obj c1 c2 \<Longrightarrow> made obj c c2"
    and applies: "lifecycle_laws l \<Longrightarrow> fit obj c \<Longrightarrow> cwp (both cell cat) (dk_apply k obj) (\<lambda>r s.
      (\<exists>obj'. r = Done (obj', None, None) \<and> ob_meta (dk_ops k) obj' = ob_meta (dk_ops k) obj) \<and>
      fst s = x \<and> made obj c (snd s)) (x, c)"
    and drops: "lifecycle_laws l \<Longrightarrow> fit obj c \<Longrightarrow> dk_drop k obj = Some f \<Longrightarrow> willing cell s \<Longrightarrow> server_law cat s \<Longrightarrow>
      cwp (both cell cat) (f s) (\<lambda>r s'. r = None \<and> fst s' = x \<and> gone obj c (snd s')) (x, c)"
begin

abbreviation run :: "'o \<Rightarrow> ('e, reconcile_result go) eff" where
  "run obj \<equiv> dependent_reconcile l d k (om_namespace (ob_meta (dk_ops k) obj)) (om_name (ob_meta (dk_ops k) obj))"

abbreviation home :: "'o \<Rightarrow> bool" where
  "home obj \<equiv> object_home k spec status cell cat (om_namespace (ob_meta (dk_ops k) obj)) (om_name (ob_meta (dk_ops k) obj))"

lemma home_gets:
  assumes "object_home k spec status cell cat ns n"
  shows "cwp (both cell cat) (get_object (dk_get k) wrap ns n) (\<lambda>r s'. s' = s \<and>
    (case fst s of None \<Rightarrow> \<exists>m. r = Inl (ApiStatus NotFound m) | Some obj \<Rightarrow> r = Inr obj)) s"
proof -
  have get: "cell (snd (dk_get k ns n e)) = cell e \<and> cat (snd (dk_get k ns n e)) = cat e \<and>
      (case cell e of None \<Rightarrow> \<exists>m. fst (dk_get k ns n e) = Inl (ApiStatus NotFound m)
       | Some obj \<Rightarrow> fst (dk_get k ns n e) = Inr obj)" for e
    using assms unfolding object_home_def by blast
  show ?thesis
    unfolding get_object_def by (intro cwp_call, hypsubst) (use get in simp)
qed

lemma home_updates:
  assumes "home cur" "fst s = Some cur" "m = (ob_meta (dk_ops k) cur)\<lparr>om_finalizers := fs\<rparr>"
  shows "cwp (both cell cat) (update_object (dk_ops k) (ob_with_meta (dk_ops k) cur m)) (\<lambda>r s'. r = None \<and> snd s' = snd s \<and>
    (if fs = [] \<and> \<not> IsZero (om_deletion_timestamp (ob_meta (dk_ops k) cur)) then fst s' = None
     else \<exists>obj'. fst s' = Some obj' \<and> same_object k spec cur obj' \<and> om_finalizers (ob_meta (dk_ops k) obj') = fs)) s"
proof -
  let ?o = "ob_with_meta (dk_ops k) cur m"
  have "om_namespace (ob_meta (dk_ops k) ?o) = om_namespace (ob_meta (dk_ops k) cur)"
    "om_name (ob_meta (dk_ops k) ?o) = om_name (ob_meta (dk_ops k) cur)"
    "om_finalizers (ob_meta (dk_ops k) ?o) = fs"
    by (simp_all add: with_meta assms(3))
  note fields = this
  have u: "fst (ob_update (dk_ops k) ?o e) = None \<and> cat (snd (ob_update (dk_ops k) ?o e)) = cat e \<and>
       (if fs = [] \<and> \<not> IsZero (om_deletion_timestamp (ob_meta (dk_ops k) cur))
        then cell (snd (ob_update (dk_ops k) ?o e)) = None
        else \<exists>obj' v. cell (snd (ob_update (dk_ops k) ?o e)) = Some obj' \<and> spec obj' = spec ?o \<and>
          status obj' = status cur \<and> ob_meta (dk_ops k) obj' = (ob_meta (dk_ops k) ?o)\<lparr>om_resource_version := v\<rparr>)"
    if "cell e = Some cur" for e
    using assms(1) that fields(1,2) unfolding object_home_def fields(3) [symmetric] by blast
  have same: "same_object k spec cur obj' \<and> om_finalizers (ob_meta (dk_ops k) obj') = fs"
    if "spec obj' = spec cur" "ob_meta (dk_ops k) obj' = m\<lparr>om_resource_version := v\<rparr>" for obj' v
    using that unfolding same_object_def by (auto simp: assms(3))
  show ?thesis
    unfolding update_object_def
    by (intro cwp_call, hypsubst) (use assms(2) u same in \<open>fastforce simp: with_meta split: if_splits\<close>)
qed

lemma home_patches:
  assumes "home old" "fst s = Some old"
  shows "cwp (both cell cat) (patch_status (dk_patch k) wrap old new) (\<lambda>r s'. r = None \<and> snd s' = snd s \<and>
    (\<exists>obj'. fst s' = Some obj' \<and> same_object k spec old obj' \<and> status obj' = status new \<and>
       om_finalizers (ob_meta (dk_ops k) obj') = om_finalizers (ob_meta (dk_ops k) old))) s"
proof -
  have p: "fst (dk_patch k old new e) = None \<and> cat (snd (dk_patch k old new e)) = cat e \<and>
       (\<exists>obj' v. cell (snd (dk_patch k old new e)) = Some obj' \<and> spec obj' = spec old \<and> status obj' = status new \<and>
          ob_meta (dk_ops k) obj' = (ob_meta (dk_ops k) old)\<lparr>om_resource_version := v\<rparr>)" if "cell e = Some old" for e
    using assms(1) that unfolding object_home_def by blast
  have same: "same_object k spec old obj' \<and> om_finalizers (ob_meta (dk_ops k) obj') = om_finalizers (ob_meta (dk_ops k) old)"
    if "spec obj' = spec old" "ob_meta (dk_ops k) obj' = (ob_meta (dk_ops k) old)\<lparr>om_resource_version := v\<rparr>" for obj' v
  proof -
    have "ob_meta (dk_ops k) obj' = (ob_meta (dk_ops k) old)
        \<lparr>om_finalizers := om_finalizers (ob_meta (dk_ops k) old), om_resource_version := v\<rparr>" using that by simp
    then show ?thesis unfolding same_object_def using that by fastforce
  qed
  show ?thesis
    unfolding patch_status_def
    by (intro cwp_call, hypsubst) (use assms(2) p same in fastforce)
qed

lemma run_enrols:
  assumes "home obj" "lifecycle_laws l" "fst s = Some obj"
    and "IsZero (om_deletion_timestamp (ob_meta (dk_ops k) obj))"
    and "\<not> contains_finalizer l (ob_meta (dk_ops k) obj) DependentFinalizer"
  shows "cwp (both cell cat) (run obj) (\<lambda>r s'. snd s' = snd s \<and> (\<exists>obj'. fst s' = Some obj' \<and> same_object k spec obj obj' \<and>
    contains_finalizer l (ob_meta (dk_ops k) obj') DependentFinalizer)) s"
proof -
  let ?m = "ob_meta (dk_ops k) obj"
  obtain fs where fs: "add_finalizer l ?m DependentFinalizer = ?m\<lparr>om_finalizers := fs\<rparr>"
    using assms(2) unfolding lifecycle_laws_def finalizer_frame_def by blast
  have member: "DependentFinalizer \<in> set fs"
    using finalizer_member(2) [OF assms(2), of ?m DependentFinalizer] by (simp add: fs)
  then have enrolled: "contains_finalizer l m DependentFinalizer" if "om_finalizers m = fs" for m
    using that by (simp add: finalizer_member(1) [OF assms(2)])
  have update: "cwp (both cell cat) (update_object (dk_ops k) (ob_with_meta (dk_ops k) obj (?m\<lparr>om_finalizers := fs\<rparr>)))
      (\<lambda>r s'. r = None \<and> snd s' = snd s \<and> (\<exists>obj'. fst s' = Some obj' \<and> same_object k spec obj obj' \<and>
        contains_finalizer l (ob_meta (dk_ops k) obj') DependentFinalizer)) s"
    by (rule cwp_weaken [OF home_updates [OF assms(1,3) refl]]) (use member enrolled in \<open>auto split: if_splits\<close>)
  show ?thesis
    unfolding dependent_reconcile_def ensureFinalizer_def Let_def
    by (rule cwp_bind, rule cwp_weaken [OF home_gets [OF assms(1)]])
      (use assms(3-5) in \<open>auto intro!: cwp_bind cwp_ret cwp_weaken [OF update] simp: fs\<close>)
qed

lemma run_settles:
  assumes "home obj" "lifecycle_laws l" "fit obj (snd s)" "fst s = Some obj"
    and "IsZero (om_deletion_timestamp (ob_meta (dk_ops k) obj))"
    and "contains_finalizer l (ob_meta (dk_ops k) obj) DependentFinalizer"
  shows "cwp (both cell cat) (run obj) (\<lambda>r s'. settled l k spec status obj (made obj (snd s)) s') s"
proof -
  let ?m = "ob_meta (dk_ops k) obj"
  have s: "s = (Some obj, snd s)" by (simp add: prod_eq_iff assms(4))
  note applied = applies [OF assms(2,3), of "Some obj", folded s]
  have stored: "settled l k spec status obj (made obj (snd s)) s2"
    if "dk_report k obj' None None = (changed, res)" "ob_meta (dk_ops k) obj' = ?m" "made obj (snd s) (snd s2)"
      "fst s2 = Some obj2" "same_object k spec obj obj2" "status obj2 = status changed"
      "om_finalizers (ob_meta (dk_ops k) obj2) = om_finalizers ?m"
    for obj' changed res s2 obj2
  proof -
    from reports [OF that(1)] that(2)
    have out: "outcome l (ds_conditions (status obj')) (om_generation ?m) None None = (ds_conditions (status changed), res)"
      and gen: "ds_observed_generation (status changed) = om_generation ?m" by simp_all
    have "condition_law l" using assms(2) by (simp add: lifecycle_laws_def)
    from outcome_claims(1) [OF this out]
    have "is_status_condition_true l (ds_conditions (status changed)) ConditionReady" by simp
    with that(3-7) gen assms(6) show ?thesis
      by (auto simp: settled_def finalizer_member(1) [OF assms(2)])
  qed
  have patched: "cwp (both cell cat) (patch_status (dk_patch k) (ob_wrap (dk_ops k)) obj changed)
      (\<lambda>r s2. r = None \<and> settled l k spec status obj (made obj (snd s)) s2) s1"
    if "dk_report k obj' None None = (changed, res)" "ob_meta (dk_ops k) obj' = ?m" "fst s1 = Some obj" "made obj (snd s) (snd s1)"
    for obj' changed res s1
    by (rule cwp_weaken [OF home_patches [OF assms(1) that(3)]]) (use stored [OF that(1,2)] that(4) in auto)
  have reported: "cwp (both cell cat) (case dk_report k obj' None None of (changed, result) \<Rightarrow>
      patch_status (dk_patch k) (ob_wrap (dk_ops k)) obj changed \<bind> (\<lambda>p. case p of
          Some e \<Rightarrow> ret (Done (no_requeue, Some (Wrap ''update status'' e))) | None \<Rightarrow> ret (Done (result, None))))
      (\<lambda>r s2. settled l k spec status obj (made obj (snd s)) s2) s1"
    if "ob_meta (dk_ops k) obj' = ?m" "fst s1 = Some obj" "made obj (snd s) (snd s1)" for obj' s1
    by (cases "dk_report k obj' None None")
      (use that in \<open>auto intro!: cwp_bind cwp_ret cwp_weaken [OF patched]\<close>)
  show ?thesis
    unfolding dependent_reconcile_def ensureFinalizer_def Let_def
    by (rule cwp_bind, rule cwp_weaken [OF home_gets [OF assms(1)]])
      (use assms(4-6) in \<open>auto intro!: cwp_bind cwp_ret cwp_weaken [OF applied] reported\<close>)
qed

lemma run_releases:
  assumes "home obj" "lifecycle_laws l" "fit obj (snd s)" "fst s = Some obj"
    and "\<not> IsZero (om_deletion_timestamp (ob_meta (dk_ops k) obj))"
    and "om_finalizers (ob_meta (dk_ops k) obj) = [DependentFinalizer]"
  shows "cwp (both cell cat) (run obj) (\<lambda>r s'. fst s' = None \<and>
    (if dk_drop k obj = None then snd s' = snd s else gone obj (snd s) (snd s'))) s"
proof -
  let ?m = "ob_meta (dk_ops k) obj"
  from fit_up [OF assms(3)] have world: "server_world cat d rt"
    and up: "cluster_up l cell d (om_namespace ?m) (dk_cluster k obj)" by simp_all
  obtain fs where fs: "remove_finalizer l ?m DependentFinalizer = ?m\<lparr>om_finalizers := fs\<rparr>"
    using assms(2) unfolding lifecycle_laws_def finalizer_frame_def by blast
  have "fs = []"
    using finalizer_member(3) [OF assms(2), of ?m DependentFinalizer] assms(6) by (simp add: fs)
  note fs = fs [unfolded this]
  have holds: "contains_finalizer l ?m DependentFinalizer"
    by (simp add: finalizer_member(1) [OF assms(2)] assms(6))
  have quiet: "cwp cat (clusterGone d ns n) (\<lambda>_ c'. c' = c) c" for ns n c
    unfolding clusterGone_def get_serenedb_def
    using world by (auto intro!: cwp_bind cwp_quiet cwp_ret cwp_intro simp: server_world_def)
  have present: "cwp (both cell cat) (clusterGone d (om_namespace ?m) (dk_cluster k obj)) (\<lambda>r s'. r = Inr False \<and> s' = s1) s1" for s1
    by (rule cwp_weaken [OF cwp_pair [OF cluster_up_present [OF up] quiet]]) (auto simp: prod_eq_iff)
  have opened: "cwp (both cell cat) (openSession l d (om_namespace ?m) (dk_cluster k obj))
      (\<lambda>r s'. (\<exists>t. r = Got t \<and> willing cell t \<and> server_law cat t) \<and> s' = s1) s1" for s1
    by (rule cwp_weaken [OF cwp_pair [OF cluster_up_session [OF up] cwp_openSession [OF world]]]) (auto simp: prod_eq_iff)
  have closed: "cwp (both cell cat) (close t) (\<lambda>_ s'. s' = s1) s1" if "willing cell t" "server_law cat t" for t s1
    by (rule cwp_weaken [OF cwp_pair [OF willing_session(3) [OF that(1)] cwp_close [OF that(2), of "\<lambda>_ c'. c' = snd s1"]]])
      (simp_all add: prod_eq_iff)
  have removed: "cwp (both cell cat) (update_object (dk_ops k) (ob_with_meta (dk_ops k) obj (?m\<lparr>om_finalizers := []\<rparr>)))
      (\<lambda>r s'. r = None \<and> fst s' = None \<and> snd s' = snd s1) s1" if "fst s1 = Some obj" for s1
    by (rule cwp_weaken [OF home_updates [OF assms(1) that refl]]) (use assms(5) in auto)
  show ?thesis
    unfolding dependent_reconcile_def
    by (rule cwp_bind, rule cwp_weaken [OF home_gets [OF assms(1)]])
      (use assms(3-5) holds in \<open>auto simp: finalize_def deferring_def Let_def fs intro!: cwp_bind cwp_ret
        cwp_weaken [OF present] cwp_weaken [OF opened] cwp_weaken [OF drops [OF assms(2)]] cwp_weaken [OF closed]
        cwp_weaken [OF removed] split: option.split\<close>)
qed

lemma run_absent:
  assumes "object_home k spec status cell cat ns n" "fst s = None"
  shows "cwp (both cell cat) (dependent_reconcile l d k ns n) (\<lambda>_ s'. s' = s) s"
  unfolding dependent_reconcile_def
  by (rule cwp_bind, rule cwp_weaken [OF home_gets [OF assms(1)]]) (use assms(2) in \<open>auto intro!: cwp_ret\<close>)

text \<open>Goals relate to the catalog at the start, so a settled object stays so.\<close>

lemma settled_weaken:
  "settled l k spec status obj' p s \<Longrightarrow> same_object k spec obj obj' \<Longrightarrow> (\<And>c. p c \<Longrightarrow> q c) \<Longrightarrow>
    settled l k spec status obj q s"
proof -
  assume settled: "settled l k spec status obj' p s" and same: "same_object k spec obj obj'" and pq: "\<And>c. p c \<Longrightarrow> q c"
  from settled obtain obj2 where obj2: "fst s = Some obj2" "same_object k spec obj' obj2"
    "contains_finalizer l (ob_meta (dk_ops k) obj2) DependentFinalizer"
    "is_status_condition_true l (ds_conditions (status obj2)) ConditionReady"
    "ds_observed_generation (status obj2) = om_generation (ob_meta (dk_ops k) obj')" and p: "p (snd s)"
    unfolding settled_def by blast
  show ?thesis
    unfolding settled_def
    using obj2(1,3-5) same_object_trans [OF same obj2(2)] same_object_facts(4) [OF same] pq [OF p] by auto
qed

lemma run_same:
  assumes "same_object k spec obj obj'"
  shows "run obj' = run obj" and "home obj' = home obj"
  unfolding same_object_facts(2,3) [OF assms] by (rule refl)+

lemma settled_again:
  assumes "home obj" "lifecycle_laws l" "fit obj c" "IsZero (om_deletion_timestamp (ob_meta (dk_ops k) obj))"
    and "settled l k spec status obj (made obj c) s"
  shows "cwp (both cell cat) (run obj) (\<lambda>_ s'. settled l k spec status obj (made obj c) s') s"
proof -
  from assms(5) obtain obj' where obj': "fst s = Some obj'" "same_object k spec obj obj'"
    "contains_finalizer l (ob_meta (dk_ops k) obj') DependentFinalizer" and made: "made obj c (snd s)"
    unfolding settled_def by blast
  note same = run_same [OF obj'(2)] same_object_facts(5) [OF obj'(2)] made_same [OF obj'(2)]
  have "fit obj' (snd s)" by (rule fit_same [OF obj'(2) fit_made [OF assms(3) made]])
  from run_settles [of obj' s, unfolded same, OF assms(1,2) this obj'(1) assms(4) obj'(3)] show ?thesis
    by (rule cwp_weaken) (erule settled_weaken [OF _ obj'(2)], rule made_again [OF made])
qed

lemma living_settles:
  assumes "home obj" "lifecycle_laws l" "fit obj (cat e)" "cell e = Some obj"
    and "IsZero (om_deletion_timestamp (ob_meta (dk_ops k) obj))"
  shows "settled l k spec status obj (made obj (cat e)) (both cell cat (reconciled (run obj) (n + 2) e))"
proof -
  let ?at = "\<lambda>n. both cell cat (reconciled (run obj) n e)"
  let ?done = "settled l k spec status obj (made obj (cat e))"
  have start: "fst (?at 0) = Some obj" "snd (?at 0) = cat e" by (simp_all add: assms(4))
  have again: "?done (?at (Suc n))" if "?done (?at n)" for n
    using reconciled_step [OF settled_again [OF assms(1-3,5) that]] by blast
  have "?done (?at 2)"
  proof (cases "contains_finalizer l (ob_meta (dk_ops k) obj) DependentFinalizer")
    case True
    from reconciled_step [OF run_settles [OF assms(1,2) _ start(1) assms(5) True]] assms(3)
    have "?done (?at 1)" unfolding start(2) by (simp del: reconciled.simps add: One_nat_def)
    from again [OF this] show ?thesis by (simp only: numeral_2_eq_2 One_nat_def)
  next
    case False
    from reconciled_step [OF run_enrols [OF assms(1,2) start(1) assms(5) False]]
    obtain obj' where obj': "snd (?at 1) = cat e" "fst (?at 1) = Some obj'" "same_object k spec obj obj'"
      "contains_finalizer l (ob_meta (dk_ops k) obj') DependentFinalizer"
      unfolding start(2) by (auto simp del: reconciled.simps simp add: One_nat_def)
    note same = run_same [OF obj'(3)] same_object_facts(5) [OF obj'(3)] made_same [OF obj'(3)]
    from run_settles [of obj' "?at 1", unfolded same obj'(1), OF assms(1,2) fit_same [OF obj'(3) assms(3)] obj'(2) assms(5) obj'(4)]
    have "cwp (both cell cat) (run obj) (\<lambda>_ s'. settled l k spec status obj' (made obj (cat e)) s') (?at 1)" .
    from reconciled_step [OF this] have "settled l k spec status obj' (made obj (cat e)) (?at 2)"
      by (simp only: numeral_2_eq_2 One_nat_def) blast
    then show ?thesis by (rule settled_weaken [OF _ obj'(3)])
  qed
  then show ?thesis by (induction n) (simp_all only: add_0 add_Suc again)
qed

lemma dying_goes:
  assumes "home obj" "lifecycle_laws l" "fit obj (cat e)" "cell e = Some obj"
    and "\<not> IsZero (om_deletion_timestamp (ob_meta (dk_ops k) obj))"
    and "om_finalizers (ob_meta (dk_ops k) obj) = [DependentFinalizer]"
  shows "cell (reconciled (run obj) (n + 1) e) = None \<and>
    (if dk_drop k obj = None then cat (reconciled (run obj) (n + 1) e) = cat e
     else gone obj (cat e) (cat (reconciled (run obj) (n + 1) e)))"
proof -
  let ?at = "\<lambda>n. both cell cat (reconciled (run obj) n e)"
  have start: "fst (?at 0) = Some obj" "snd (?at 0) = cat e" by (simp_all add: assms(4))
  have fit: "fit obj (snd (?at 0))" by (simp add: assms(3))
  have stays: "?at (Suc n) = ?at n" if "fst (?at n) = None" for n
    using reconciled_step [OF run_absent [OF assms(1) that]] by blast
  have first: "fst (?at (Suc 0)) = None \<and> (if dk_drop k obj = None then snd (?at (Suc 0)) = cat e
      else gone obj (cat e) (snd (?at (Suc 0))))"
    using reconciled_step [OF run_releases [OF assms(1,2) fit start(1) assms(5,6)]] unfolding start(2) by blast
  have "fst (?at (Suc n)) = None \<and> ?at (Suc n) = ?at (Suc 0)"
  proof (induction n)
    case 0
    show ?case using first by blast
  next
    case (Suc n)
    then show ?case using stays [of "Suc n"] by metis
  qed
  then have "fst (?at (Suc n)) = None" "snd (?at (Suc n)) = snd (?at (Suc 0))" by simp_all
  then show ?thesis
    using first unfolding Suc_eq_plus1 [symmetric] by (simp only: fst_conv snd_conv) blast
qed

text \<open>Both ends of an object's life.\<close>

lemma life:
  assumes "home obj" "lifecycle_laws l" "fit obj (cat e)" "cell e = Some obj"
    and "IsZero (om_deletion_timestamp (ob_meta (dk_ops k) obj)) \<or> om_finalizers (ob_meta (dk_ops k) obj) = [DependentFinalizer]"
  shows "if IsZero (om_deletion_timestamp (ob_meta (dk_ops k) obj))
    then settled l k spec status obj (made obj (cat e)) (both cell cat (reconciled (run obj) (n + 2) e))
    else cell (reconciled (run obj) (n + 1) e) = None \<and>
      (if dk_drop k obj = None then cat (reconciled (run obj) (n + 1) e) = cat e
       else gone obj (cat e) (cat (reconciled (run obj) (n + 1) e)))"
proof (cases "IsZero (om_deletion_timestamp (ob_meta (dk_ops k) obj))")
  case True
  show ?thesis unfolding if_P [OF True] by (rule living_settles [OF assms(1-4) True])
next
  case False
  with assms(5) have "om_finalizers (ob_meta (dk_ops k) obj) = [DependentFinalizer]" by blast
  then show ?thesis unfolding if_not_P [OF False] by (rule dying_goes [OF assms(1-4) False])
qed

end

end
