(* ===== verification/Lives.thy ===== *)
theory Lives
  imports Lifecycle
begin

text \<open>
  The three dependents as interpretations of \<open>dependent_lifecycle\<close>: what each needs around it, that
  its apply step and its drop succeed there and what they make of the catalog; then the life of
  a Database, a DatabaseRole and a ServerSecret, each under its own reconciler.
\<close>

section \<open>Sessions that take every statement\<close>

lemma cwp_exists_willing:
  assumes "willing cell s"
  shows "cwp cell (exists s q) (\<lambda>r c'. (\<exists>b. r = Inr b) \<and> c' = c) c"
  unfolding exists_def by (auto intro!: cwp_bind cwp_ret cwp_weaken [OF willing_session(2) [OF assms]])

lemma existence_queries_Inr:
  assumes "nul_free name"
  shows "\<exists>q. DatabaseExists name = Inr q" "\<exists>q. RoleExists name = Inr q" "\<exists>q. SecretExists name = Inr q"
    "\<exists>q. RoleMemberships name = Inr q"
  using assms by (simp_all add: DatabaseExists_def RoleExists_def SecretExists_def RoleMemberships_def Literal_eq)

lemma drop_succeeds:
  assumes "willing cell s" "nul_free name"
  shows "cwp cell (dropDatabase l name s) (\<lambda>r c'. r = None \<and> c' = c) c"
    and "cwp cell (dropRole l name s) (\<lambda>r c'. r = None \<and> c' = c) c"
    and "cwp cell (dropServerSecret l name s) (\<lambda>r c'. r = None \<and> c' = c) c"
proof -
  have drop: "cwp cell (case q of Inl err \<Rightarrow> ret (Some err)
      | Inr t \<Rightarrow> exists s t \<bind> (\<lambda>r. case r of Inl err \<Rightarrow> ret (Some err)
         | Inr present \<Rightarrow> if \<not> present then ret None else exec s stmt)) (\<lambda>r c'. r = None \<and> c' = c) c"
    if "\<exists>t. q = Inr t" for q stmt
    using that by (auto intro!: cwp_bind cwp_ret cwp_if cwp_weaken [OF cwp_exists_willing [OF assms(1)]]
        cwp_weaken [OF willing_session(1) [OF assms(1)]])
  show "cwp cell (dropDatabase l name s) (\<lambda>r c'. r = None \<and> c' = c) c"
    "cwp cell (dropRole l name s) (\<lambda>r c'. r = None \<and> c' = c) c"
    "cwp cell (dropServerSecret l name s) (\<lambda>r c'. r = None \<and> c' = c) c"
    unfolding dropDatabase_def dropRole_def dropServerSecret_def
    by (intro drop existence_queries_Inr [OF assms(2)])+
qed

lemma cwp_session_willing:
  assumes "cluster_up l cell d ns cluster"
    and "\<And>s. willing cell s \<Longrightarrow> cwp cell (body s) (\<lambda>r c'. P r \<and> c' = c) c"
  shows "cwp cell (openSession l d ns cluster \<bind> (\<lambda>s. case s of
        BlockedOn b \<Rightarrow> ret (onblocked b) | Failed err \<Rightarrow> ret (onerr err)
      | Got session \<Rightarrow> deferring (close session) (body session))) (\<lambda>r c'. P r \<and> c' = c) c"
  unfolding deferring_def
  by (auto intro!: cwp_bind cwp_ret cwp_weaken [OF cluster_up_session [OF assms(1)]] cwp_weaken [OF assms(2)]
      cwp_weaken [OF willing_session(3)])

lemma cwp_drop_both:
  assumes "cwp cell m (\<lambda>r x'. r = None \<and> x' = x) x" and "cwp cat m (\<lambda>r c'. r = None \<longrightarrow> Q c') c"
  shows "cwp (both cell cat) m (\<lambda>r s. r = None \<and> fst s = x \<and> Q (snd s)) (x, c)"
  by (rule cwp_weaken [OF cwp_both [where R = "\<lambda>_. Q", OF assms]]) auto

section \<open>Databases\<close>

abbreviation name_of_database :: "database \<Rightarrow> string" where
  "name_of_database da \<equiv> nameOrDefault (dbs_name (da_spec da)) (om_name (da_meta da))"

definition database_fit :: "lib \<Rightarrow> 'e runtime \<Rightarrow> 'e dependents \<Rightarrow> ('e \<Rightarrow> 'c) \<Rightarrow> ('e \<Rightarrow> catalog) \<Rightarrow> database \<Rightarrow> bool" where
  "database_fit l rt d cell cat da \<longleftrightarrow> server_world cat d rt \<and>
     cluster_up l cell d (om_namespace (da_meta da)) (cr_name (dbs_cluster (da_spec da))) \<and>
     nul_free (name_of_database da)"

text \<open>The database is there and nothing else has changed; it is gone and nothing else has changed.\<close>

definition database_made :: "database \<Rightarrow> catalog \<Rightarrow> catalog \<Rightarrow> bool" where
  "database_made da c c' \<longleftrightarrow> set (cat_databases c') = insert (name_of_database da) (set (cat_databases c)) \<and>
     cat_roles c' = cat_roles c \<and> cat_secrets c' = cat_secrets c \<and> cat_members c' = cat_members c"

definition database_gone :: "database \<Rightarrow> catalog \<Rightarrow> catalog \<Rightarrow> bool" where
  "database_gone da c c' \<longleftrightarrow> c' = c\<lparr>cat_databases := removeAll (name_of_database da) (cat_databases c)\<rparr>"

lemma database_apply_succeeds:
  assumes "database_fit l rt d cell cat da"
  shows "cwp cell (Database_apply l d da (name_of_database da)) (\<lambda>r c'. r = (None, None) \<and> c' = c) c"
proof -
  have nul: "nul_free (name_of_database da)" using assms by (simp add: database_fit_def)
  obtain q where q: "DatabaseExists (name_of_database da) = Inr q" using existence_queries_Inr(1) [OF nul] by blast
  have body: "cwp cell (database_session_body l (name_of_database da) s) (\<lambda>r c'. r = (None, None) \<and> c' = c) c"
    if "willing cell s" for s
    unfolding database_session_body_def q
    by (auto intro!: cwp_bind cwp_ret cwp_if cwp_weaken [OF cwp_exists_willing [OF that]]
        cwp_weaken [OF willing_session(1) [OF that]])
  show ?thesis
    unfolding Database_apply_eq
    by (rule cwp_session_willing [OF _ body]) (use assms in \<open>simp_all add: database_fit_def\<close>)
qed

lemma database_kind_fields [simp]:
  "ob_meta (dk_ops (database_kind l d)) = da_meta" "dk_cluster (database_kind l d) da = cr_name (dbs_cluster (da_spec da))"
  "ob_with_meta (dk_ops (database_kind l d)) da m = da\<lparr>da_meta := m\<rparr>"
  by (simp_all add: database_kind_def database_ops_def)

lemma same_database:
  assumes "same_object (database_kind l d) da_spec da da'"
  shows "da_spec da' = da_spec da" "om_namespace (da_meta da') = om_namespace (da_meta da)"
    "om_name (da_meta da') = om_name (da_meta da)"
  using same_object_facts [OF assms] by simp_all

lemma dk_drop_database: "dk_drop (database_kind l d) da = (if dbs_reclaim_policy (da_spec da) = ReclaimDelete
    then Some (dropDatabase l (name_of_database da)) else None)"
  by (simp add: database_kind_def)

interpretation database_life: dependent_lifecycle l rt d "database_kind l d" da_spec da_status cell cat
  "\<lambda>da c. database_fit l rt d cell cat da" database_made database_gone
proof unfold_locales
  fix obj obj' changed result m c c' c1 c2 x f s
  let ?k = "database_kind l d"
  show "ob_meta (dk_ops ?k) (ob_with_meta (dk_ops ?k) obj m) = m" "da_spec (ob_with_meta (dk_ops ?k) obj m) = da_spec obj"
    by simp_all
  show "dk_report ?k obj None None = (changed, result) \<Longrightarrow>
      outcome l (ds_conditions (da_status obj)) (om_generation (ob_meta (dk_ops ?k) obj)) None None =
        (ds_conditions (da_status changed), result) \<and>
      ds_observed_generation (da_status changed) = om_generation (ob_meta (dk_ops ?k) obj)"
    by (auto simp: database_kind_def database_ops_def split: prod.splits)
  show "same_object ?k da_spec obj obj' \<Longrightarrow> database_fit l rt d cell cat obj \<Longrightarrow> database_fit l rt d cell cat obj'"
    by (simp add: database_fit_def same_database)
  show "same_object ?k da_spec obj obj' \<Longrightarrow> database_made obj' = database_made obj"
    by (simp add: fun_eq_iff database_made_def same_database)
  show "database_made obj c c1 \<Longrightarrow> database_made obj c1 c2 \<Longrightarrow> database_made obj c c2"
    by (simp add: database_made_def)
  show "database_fit l rt d cell cat obj \<Longrightarrow> server_world cat d rt \<and>
      cluster_up l cell d (om_namespace (ob_meta (dk_ops ?k) obj)) (dk_cluster ?k obj)"
    by (simp add: database_fit_def)
  show "cwp (both cell cat) (dk_apply ?k obj) (\<lambda>r s. (\<exists>obj'. r = Done (obj', None, None) \<and>
      ob_meta (dk_ops ?k) obj' = ob_meta (dk_ops ?k) obj) \<and> fst s = x \<and> database_made obj c (snd s)) (x, c)"
    if "lifecycle_laws l" "database_fit l rt d cell cat obj"
  proof -
    from that have laws: "server_world cat d rt" "sanitize_law l" "nul_free (name_of_database obj)"
      by (simp_all add: lifecycle_laws_def database_fit_def)
    have "cwp (both cell cat) (Database_apply l d obj (name_of_database obj)) (\<lambda>r s. r = (None, None) \<and> fst s = x \<and>
        database_made obj c (snd s)) (x, c)"
      by (rule cwp_both [OF database_apply_succeeds [OF that(2)] cwp_Database_apply [OF laws]]) (simp add: database_made_def)
    then show ?thesis unfolding dk_Database_apply by (auto intro!: cwp_bind cwp_ret elim: cwp_weaken)
  qed
  show "cwp (both cell cat) (f s) (\<lambda>r s'. r = None \<and> fst s' = x \<and> database_gone obj c (snd s')) (x, c)"
    if "lifecycle_laws l" "database_fit l rt d cell cat obj" "dk_drop ?k obj = Some f" "willing cell s" "server_law cat s"
  proof -
    from that have f: "f = dropDatabase l (name_of_database obj)"
      and laws: "sanitize_law l" "nul_free (name_of_database obj)"
      by (simp_all add: dk_drop_database lifecycle_laws_def database_fit_def split: if_splits)
    show ?thesis
      unfolding f database_gone_def
      by (rule cwp_drop_both [OF drop_succeeds(1) [OF that(4) laws(2)] cwp_drops(1) [OF that(5) laws]])
  qed
qed

section \<open>Roles\<close>

abbreviation name_of_role :: "database_role \<Rightarrow> string" where
  "name_of_role dr \<equiv> nameOrDefault (ro_name (dr_spec dr)) (om_name (dr_meta dr))"

text \<open>A Secret that can be read and stays as it is.\<close>

definition readable :: "('e \<Rightarrow> 'c) \<Rightarrow> 'e dependents \<Rightarrow> string \<Rightarrow> string \<Rightarrow> secret \<Rightarrow> bool" where
  "readable cell d ns n secret \<longleftrightarrow> (\<forall>e. fst (k_get_secret (dep_client d) ns n e) = Inr secret \<and>
     cell (snd (k_get_secret (dep_client d) ns n e)) = cell e)"

text \<open>Choosing the order in which a map is visited changes nothing.\<close>

definition unordered :: "('e \<Rightarrow> 'c) \<Rightarrow> 'e runtime \<Rightarrow> bool" where
  "unordered cell rt \<longleftrightarrow> (\<forall>e. cell (snd (rt_range_choices rt e)) = cell e)"

text \<open>
  A role needs its password Secret, if it names one, and names and values without NUL bytes,
  also in the groups the server has it in so far.
\<close>

definition role_fit :: "lib \<Rightarrow> 'e runtime \<Rightarrow> 'e dependents \<Rightarrow> ('e \<Rightarrow> 'c) \<Rightarrow> ('e \<Rightarrow> catalog) \<Rightarrow> database_role \<Rightarrow> catalog \<Rightarrow> bool" where
  "role_fit l rt d cell cat dr c \<longleftrightarrow> server_world cat d rt \<and>
     cluster_up l cell d (om_namespace (dr_meta dr)) (cr_name (ro_cluster (dr_spec dr))) \<and>
     unordered cell rt \<and>
     nul_free (name_of_role dr) \<and> (\<forall>g \<in> set (ro_in_roles (dr_spec dr)) \<union> groups_of c (name_of_role dr). nul_free g) \<and>
     nul_free (ro_valid_until (dr_spec dr)) \<and>
     (case ro_password_secret (dr_spec dr) of None \<Rightarrow> True
      | Some ref \<Rightarrow> \<exists>secret pw. readable cell d (om_namespace (dr_meta dr)) (ps_name ref) secret \<and>
          map_of (sec_data secret) (nameOrDefault (ps_key ref) ''password'') = Some pw \<and> nul_free pw)"

text \<open>
  The role is there and in exactly its groups, no other membership and no other object has
  changed; it is gone with its memberships and nothing else has changed.
\<close>

definition role_made :: "database_role \<Rightarrow> catalog \<Rightarrow> catalog \<Rightarrow> bool" where
  "role_made dr c c' \<longleftrightarrow> cat_databases c' = cat_databases c \<and> cat_secrets c' = cat_secrets c \<and>
     set (cat_roles c') = insert (name_of_role dr) (set (cat_roles c)) \<and>
     set (cat_members c') = {(g, m) \<in> set (cat_members c). m \<noteq> name_of_role dr} \<union>
       {(g, name_of_role dr) |g. g \<in> set (ro_in_roles (dr_spec dr))}"

definition role_gone :: "database_role \<Rightarrow> catalog \<Rightarrow> catalog \<Rightarrow> bool" where
  "role_gone dr c c' \<longleftrightarrow> c' = (if name_of_role dr \<in> set (cat_roles c) then without_role (name_of_role dr) c else c)"

lemma grant_missing_willing:
  assumes "willing cell s"
  shows "cwp cell (grant_missing l s name current wanted desired) (\<lambda>r c'. (\<exists>ds. r = Inr ds) \<and> c' = c) c"
  by (induction wanted arbitrary: desired)
    (auto intro!: cwp_ret cwp_bind cwp_weaken [OF willing_session(1) [OF assms]] simp: Let_def)

lemma revoke_unlisted_willing:
  assumes "willing cell s"
  shows "cwp cell (revoke_unlisted l s name desired current) (\<lambda>r c'. r = None \<and> c' = c) c"
  by (induction current) (auto intro!: cwp_ret cwp_bind cwp_weaken [OF willing_session(1) [OF assms]])

lemma range_over_keeps:
  assumes "unordered cell rt"
  shows "cwp cell (range_over rt xs) (\<lambda>ys c'. mset ys = mset xs \<and> c' = c) c"
  unfolding range_over_def
  using assms by (intro cwp_bind cwp_quiet) (simp_all add: unordered_def cwp_ret mset_permute)

lemma converge_willing:
  assumes "willing cell s" "nul_free name" "unordered cell rt"
  shows "cwp cell (converge l rt s name wanted) (\<lambda>r c'. (r = Done None \<or> (\<exists>t. r = Panic t)) \<and> c' = c) c"
proof -
  obtain q where q: "RoleMemberships name = Inr q" using existence_queries_Inr(4) [OF assms(2)] by blast
  show ?thesis
    unfolding converge_def q
    by (auto intro!: cwp_ret cwp_bind cwp_go cwp_weaken [OF willing_session(2) [OF assms(1)]]
        cwp_weaken [OF grant_missing_willing [OF assms(1)]] cwp_weaken [OF range_over_keeps [OF assms(3)]]
        cwp_weaken [OF revoke_unlisted_willing [OF assms(1)]])
qed

lemma roleStatement_Inr: "attributes_ok attrs \<Longrightarrow> \<exists>stmt. roleStatement l name attrs present = Inr stmt"
  by (simp add: roleStatement_def AlterRole_def CreateRole_def render_eq)

definition role_written :: "database_role \<Rightarrow> (database_role \<times> blocked option \<times> go_error option) go \<Rightarrow> bool" where
  "role_written dr r \<longleftrightarrow> (\<exists>t. r = Panic t) \<or> (\<exists>dr'. r = Done (dr', None, None) \<and> dr_meta dr' = dr_meta dr)"

lemma role_session_body_willing:
  assumes "willing cell s" "nul_free name" "unordered cell rt"
    and "nul_free (ro_valid_until (dr_spec dr))" "pred_option nul_free password"
  shows "cwp cell (role_session_body l rt dr name password version s) (\<lambda>r c'. role_written dr r \<and> c' = c) c"
proof -
  obtain q where q: "RoleExists name = Inr q" using existence_queries_Inr(2) [OF assms(2)] by blast
  have attrs: "attributes_ok (roleAttributes (dr_spec dr))"
    "attributes_ok (roleAttributes (dr_spec dr)\<lparr>ra_password := password\<rparr>)"
    using assms(4,5) by (simp_all add: attributes_ok_def roleAttributes_def)
  have tail: "cwp cell (case roleStatement l name attrs present of
        Inl err \<Rightarrow> ret (Done (dr, Some \<lparr>reason = reasonInvalidSpec, message = error_text err\<rparr>, None))
      | Inr statement \<Rightarrow> exec s statement \<bind> (\<lambda>r. case r of
          Some err \<Rightarrow> ret (Done (dr, None, Some err))
        | None \<Rightarrow> converge l rt s name (ro_in_roles (dr_spec dr)) \<bind> (\<lambda>x. case x of
            Panic t \<Rightarrow> ret (Panic t)
          | Done (Some err) \<Rightarrow> ret (Done (dr, None, Some err))
          | Done None \<Rightarrow> ret (Done (dr\<lparr>dr_status := (dr_status dr)\<lparr>rs_password_secret_version := version\<rparr>\<rparr>, None, None)))))
      (\<lambda>r c'. role_written dr r \<and> c' = c) c" if "attributes_ok attrs" for attrs present
    using roleStatement_Inr [OF that, of l name present]
    by (auto intro!: cwp_ret cwp_bind cwp_weaken [OF willing_session(1) [OF assms(1)]]
        cwp_weaken [OF converge_willing [OF assms(1-3)]] simp: role_written_def)
  show ?thesis
    unfolding role_session_body_def q Let_def
    by (rule cwp_sum, simp, rule cwp_bind, rule cwp_weaken [OF cwp_exists_willing [OF assms(1)]])
      (use attrs in \<open>auto intro!: tail\<close>)
qed

lemma role_password_succeeds:
  assumes "role_fit l rt d cell cat dr c0"
  shows "cwp cell (role_password d dr) (\<lambda>r c'. (\<exists>pv. r = Got pv \<and> pred_option nul_free (fst pv)) \<and> c' = c) c"
proof (cases "ro_password_secret (dr_spec dr)")
  case None
  then show ?thesis by (simp add: role_password_def cwp_ret)
next
  case (Some ref)
  with assms obtain secret pw where r: "readable cell d (om_namespace (dr_meta dr)) (ps_name ref) secret"
    "map_of (sec_data secret) (nameOrDefault (ps_key ref) ''password'') = Some pw" "nul_free pw"
    unfolding role_fit_def by auto
  have "cwp cell (get_secret (dep_client d) (om_namespace (dr_meta dr)) (ps_name ref)) (\<lambda>x c'. x = Inr secret \<and> c' = c) c"
    unfolding get_secret_def using r(1) by (intro cwp_quietly) (simp add: readable_def)
  then show ?thesis
    unfolding role_password_def Some option.case
    by (rule cwp_bind [OF cwp_weaken]) (auto intro!: cwp_ret simp: r(2,3) Let_def)
qed

lemma role_apply_succeeds:
  assumes "role_fit l rt d cell cat dr c0"
  shows "cwp cell (Role_apply l rt d dr (name_of_role dr)) (\<lambda>r c'. role_written dr r \<and> c' = c) c"
proof -
  from assms have up: "cluster_up l cell d (om_namespace (dr_meta dr)) (cr_name (ro_cluster (dr_spec dr)))"
    and fit: "nul_free (name_of_role dr)" "unordered cell rt"
      "nul_free (ro_valid_until (dr_spec dr))"
    by (simp_all add: role_fit_def)
  show ?thesis
    unfolding Role_apply_eq
    by (rule cwp_bind, rule cwp_weaken [OF role_password_succeeds [OF assms]])
      (auto intro!: cwp_session_willing [OF up] role_session_body_willing fit)
qed

lemma role_kind_fields [simp]:
  "ob_meta (dk_ops (role_kind l rt d)) = dr_meta" "dk_cluster (role_kind l rt d) dr = cr_name (ro_cluster (dr_spec dr))"
  "ob_with_meta (dk_ops (role_kind l rt d)) dr m = dr\<lparr>dr_meta := m\<rparr>"
  "dk_apply (role_kind l rt d) dr = Role_apply l rt d dr (name_of_role dr)"
  by (simp_all add: role_kind_def role_ops_def)

lemma same_role:
  assumes "same_object (role_kind l rt d) dr_spec dr dr'"
  shows "dr_spec dr' = dr_spec dr" "om_namespace (dr_meta dr') = om_namespace (dr_meta dr)"
    "om_name (dr_meta dr') = om_name (dr_meta dr)"
  using same_object_facts [OF assms] by simp_all

lemma dk_drop_role: "dk_drop (role_kind l rt d) dr = (if ro_reclaim_policy (dr_spec dr) = ReclaimDelete
    then Some (dropRole l (name_of_role dr)) else None)"
  by (simp add: role_kind_def)

interpretation role_life: dependent_lifecycle l rt d "role_kind l rt d" dr_spec dr_status cell cat
  "role_fit l rt d cell cat" role_made role_gone
proof unfold_locales
  fix obj obj' changed result m c c' c1 c2 x f s
  let ?k = "role_kind l rt d"
  show "ob_meta (dk_ops ?k) (ob_with_meta (dk_ops ?k) obj m) = m" "dr_spec (ob_with_meta (dk_ops ?k) obj m) = dr_spec obj"
    by simp_all
  show "dk_report ?k obj None None = (changed, result) \<Longrightarrow>
      outcome l (ds_conditions (dr_status obj)) (om_generation (ob_meta (dk_ops ?k) obj)) None None =
        (ds_conditions (dr_status changed), result) \<and>
      ds_observed_generation (dr_status changed) = om_generation (ob_meta (dk_ops ?k) obj)"
    by (auto simp: role_kind_def role_ops_def split: prod.splits)
  show "same_object ?k dr_spec obj obj' \<Longrightarrow> role_fit l rt d cell cat obj c \<Longrightarrow> role_fit l rt d cell cat obj' c"
    by (simp add: role_fit_def same_role cong: option.case_cong)
  show "role_fit l rt d cell cat obj c \<Longrightarrow> role_made obj c c' \<Longrightarrow> role_fit l rt d cell cat obj c'"
    by (auto simp: role_fit_def role_made_def groups_of_def)
  show "same_object ?k dr_spec obj obj' \<Longrightarrow> role_made obj' = role_made obj"
    by (simp add: fun_eq_iff role_made_def same_role)
  show "role_made obj c c1 \<Longrightarrow> role_made obj c1 c2 \<Longrightarrow> role_made obj c c2"
    unfolding role_made_def by auto
  show "role_fit l rt d cell cat obj c \<Longrightarrow> server_world cat d rt \<and>
      cluster_up l cell d (om_namespace (ob_meta (dk_ops ?k) obj)) (dk_cluster ?k obj)"
    by (simp add: role_fit_def)
  show "cwp (both cell cat) (dk_apply ?k obj) (\<lambda>r s. (\<exists>obj'. r = Done (obj', None, None) \<and>
      ob_meta (dk_ops ?k) obj' = ob_meta (dk_ops ?k) obj) \<and> fst s = x \<and> role_made obj c (snd s)) (x, c)"
    if "lifecycle_laws l" "role_fit l rt d cell cat obj c"
  proof -
    from that have laws: "server_world cat d rt" "sanitize_law l" "nul_free (name_of_role obj)"
      and names: "\<forall>g \<in> set (ro_in_roles (dr_spec obj)). nul_free g" "\<forall>g \<in> groups_of c (name_of_role obj). nul_free g"
      by (simp_all add: lifecycle_laws_def role_fit_def)
    show ?thesis
      unfolding role_kind_fields
      by (rule cwp_weaken [OF cwp_pair [where c = "(x, c)", unfolded fst_conv snd_conv,
            OF role_apply_succeeds [OF that(2)] cwp_Role_apply [OF laws names]]])
        (auto simp: role_written_def role_made_def)
  qed
  show "cwp (both cell cat) (f s) (\<lambda>r s'. r = None \<and> fst s' = x \<and> role_gone obj c (snd s')) (x, c)"
    if "lifecycle_laws l" "role_fit l rt d cell cat obj c" "dk_drop ?k obj = Some f" "willing cell s" "server_law cat s"
  proof -
    from that have f: "f = dropRole l (name_of_role obj)"
      and laws: "sanitize_law l" "nul_free (name_of_role obj)"
      by (simp_all add: dk_drop_role lifecycle_laws_def role_fit_def split: if_splits)
    show ?thesis
      unfolding f role_gone_def
      by (rule cwp_drop_both [OF drop_succeeds(2) [OF that(4) laws(2)] cwp_drops(2) [OF that(5) laws]])
  qed
qed

section \<open>Server secrets\<close>

abbreviation name_of_server_secret :: "server_secret \<Rightarrow> string" where
  "name_of_server_secret se \<equiv> nameOrDefault (ss_name (se_spec se)) (om_name (se_meta se))"

definition options_allowed :: "gomap \<Rightarrow> bool" where
  "options_allowed options \<longleftrightarrow> (\<forall>(k, v) \<in> set options. optionName k \<and> nul_free v)"

text \<open>
  A server secret needs the Secret it takes values from, if it names one, option names that are
  plain identifiers, and names and values without NUL bytes.
\<close>

definition server_secret_fit :: "lib \<Rightarrow> 'e runtime \<Rightarrow> 'e dependents \<Rightarrow> ('e \<Rightarrow> 'c) \<Rightarrow> ('e \<Rightarrow> catalog) \<Rightarrow> server_secret \<Rightarrow> bool" where
  "server_secret_fit l rt d cell cat se \<longleftrightarrow> server_world cat d rt \<and>
     cluster_up l cell d (om_namespace (se_meta se)) (cr_name (ss_cluster (se_spec se))) \<and> unordered cell rt \<and>
     nul_free (name_of_server_secret se) \<and> nul_free (ss_scope (se_spec se)) \<and>
     ss_type (se_spec se) \<noteq> [] \<and> (\<forall>c \<in> set (ss_type (se_spec se)). word_char c) \<and>
     (case ss_values_from (se_spec se) of None \<Rightarrow> options_allowed (maps_Copy [] (ss_options (se_spec se)))
      | Some ref \<Rightarrow> \<exists>secret. readable cell d (om_namespace (se_meta se)) (lor_name ref) secret \<and>
          options_allowed (maps_Copy (maps_Copy [] (ss_options (se_spec se))) (sec_data secret)))"

definition server_secret_made :: "server_secret \<Rightarrow> catalog \<Rightarrow> catalog \<Rightarrow> bool" where
  "server_secret_made se c c' \<longleftrightarrow> set (cat_secrets c') = insert (name_of_server_secret se) (set (cat_secrets c)) \<and>
     cat_roles c' = cat_roles c \<and> cat_databases c' = cat_databases c \<and> cat_members c' = cat_members c"

definition server_secret_gone :: "server_secret \<Rightarrow> catalog \<Rightarrow> catalog \<Rightarrow> bool" where
  "server_secret_gone se c c' \<longleftrightarrow> c' = c\<lparr>cat_secrets := removeAll (name_of_server_secret se) (cat_secrets c)\<rparr>"

text \<open>The order in which the options are visited does not matter to the statement being formed.\<close>

lemma CreateSecret_allowed:
  assumes "options_allowed options" "mset visited = mset options" "nul_free scope"
  shows "\<exists>stmt. CreateSecret l name t scope visited = Inr stmt"
proof -
  have "set visited = set options" using assms(2) by (metis set_mset_mset)
  with assms(1) have each: "optionName k \<and> nul_free v" if "(k, v) \<in> set visited" for k v
    using that by (auto simp: options_allowed_def)
  have "optionName k \<and> nul_free (option_value visited k)" if k: "k \<in> fst ` set visited" for k
  proof -
    from k obtain v where v: "map_of visited k = Some v"
      by (cases "map_of visited k") (auto simp: map_of_eq_None_iff)
    show ?thesis using each [OF map_of_SomeD [OF v]] by (simp add: option_value_def v)
  qed
  then have "options_ok visited" by (simp add: options_ok_def)
  with assms(3) show ?thesis by (simp add: CreateSecret_Inr)
qed

lemma secret_options_succeed:
  assumes "server_secret_fit l rt d cell cat se"
  shows "cwp cell (secret_options d se) (\<lambda>r c'. (\<exists>ov. r = Got ov \<and> options_allowed (fst ov)) \<and> c' = c) c"
proof (cases "ss_values_from (se_spec se)")
  case None
  with assms show ?thesis by (simp add: secret_options_def cwp_ret server_secret_fit_def)
next
  case (Some ref)
  with assms obtain secret where r: "readable cell d (om_namespace (se_meta se)) (lor_name ref) secret"
    "options_allowed (maps_Copy (maps_Copy [] (ss_options (se_spec se))) (sec_data secret))"
    unfolding server_secret_fit_def by auto
  have "cwp cell (get_secret (dep_client d) (om_namespace (se_meta se)) (lor_name ref)) (\<lambda>x c'. x = Inr secret \<and> c' = c) c"
    unfolding get_secret_def using r(1) by (intro cwp_quietly) (simp add: readable_def)
  then show ?thesis
    unfolding secret_options_def Some Let_def option.case
    by (rule cwp_bind [OF cwp_weaken]) (auto intro!: cwp_ret simp: r(2))
qed

lemma secret_session_body_willing:
  assumes "willing cell s"
  shows "cwp cell (secret_session_body se version stmt s) (\<lambda>r c'. (\<exists>se'. r = (se', None, None) \<and> se_meta se' = se_meta se) \<and> c' = c) c"
  unfolding secret_session_body_def
  by (auto intro!: cwp_bind cwp_ret cwp_weaken [OF willing_session(1) [OF assms]])

lemma server_secret_apply_succeeds:
  assumes "server_secret_fit l rt d cell cat se"
  shows "cwp cell (ServerSecret_apply l rt d se (name_of_server_secret se))
    (\<lambda>r c'. (\<exists>se'. r = (se', None, None) \<and> se_meta se' = se_meta se) \<and> c' = c) c"
proof -
  from assms have up: "cluster_up l cell d (om_namespace (se_meta se)) (cr_name (ss_cluster (se_spec se)))"
    and fit: "unordered cell rt" "nul_free (ss_scope (se_spec se))"
    by (simp_all add: server_secret_fit_def)
  have visit: "cwp cell (case CreateSecret l (name_of_server_secret se) (ss_type (se_spec se)) (ss_scope (se_spec se)) visited of
         Inl err \<Rightarrow> ret (se, Some \<lparr>reason = reasonInvalidSpec, message = error_text err\<rparr>, None)
       | Inr statement \<Rightarrow>
         openSession l d (om_namespace (se_meta se)) (cr_name (ss_cluster (se_spec se))) \<bind> (\<lambda>s. case s of
           BlockedOn b \<Rightarrow> ret (se, Some b, None)
         | Failed err \<Rightarrow> ret (se, None, Some err)
         | Got session \<Rightarrow> deferring (close session) (secret_session_body se version statement session)))
      (\<lambda>r c'. (\<exists>se'. r = (se', None, None) \<and> se_meta se' = se_meta se) \<and> c' = c) c"
    if ok: "options_allowed options" "mset visited = mset options" for options visited version
  proof -
    obtain stmt where "CreateSecret l (name_of_server_secret se) (ss_type (se_spec se)) (ss_scope (se_spec se)) visited = Inr stmt"
      using CreateSecret_allowed [OF ok fit(2)] by blast
    then show ?thesis
      by (simp only: sum.case) (rule cwp_session_willing [OF up secret_session_body_willing])
  qed
  show ?thesis
    unfolding ServerSecret_apply_eq
    by (rule cwp_bind, rule cwp_weaken [OF secret_options_succeed [OF assms]], elim conjE exE, hypsubst, unfold attempt.case,
        rule cwp_bind, rule cwp_weaken [OF range_over_keeps [OF fit(1)]], elim conjE, hypsubst)
      (rule visit)
qed

lemma server_secret_kind_fields [simp]:
  "ob_meta (dk_ops (server_secret_kind l rt d)) = se_meta"
  "dk_cluster (server_secret_kind l rt d) se = cr_name (ss_cluster (se_spec se))"
  "ob_with_meta (dk_ops (server_secret_kind l rt d)) se m = se\<lparr>se_meta := m\<rparr>"
  "dk_apply (server_secret_kind l rt d) se =
     ServerSecret_apply l rt d se (name_of_server_secret se) \<bind> (\<lambda>r. ret (Done r))"
  "dk_drop (server_secret_kind l rt d) se = Some (dropServerSecret l (name_of_server_secret se))"
  by (simp_all add: server_secret_kind_def server_secret_ops_def)

lemma same_server_secret:
  assumes "same_object (server_secret_kind l rt d) se_spec se se'"
  shows "se_spec se' = se_spec se" "om_namespace (se_meta se') = om_namespace (se_meta se)"
    "om_name (se_meta se') = om_name (se_meta se)"
  using same_object_facts [OF assms] by simp_all

interpretation server_secret_life: dependent_lifecycle l rt d "server_secret_kind l rt d" se_spec se_status cell cat
  "\<lambda>se c. server_secret_fit l rt d cell cat se" server_secret_made server_secret_gone
proof unfold_locales
  fix obj obj' changed result m c c' c1 c2 x f s
  let ?k = "server_secret_kind l rt d"
  show "ob_meta (dk_ops ?k) (ob_with_meta (dk_ops ?k) obj m) = m" "se_spec (ob_with_meta (dk_ops ?k) obj m) = se_spec obj"
    by simp_all
  show "dk_report ?k obj None None = (changed, result) \<Longrightarrow>
      outcome l (ds_conditions (se_status obj)) (om_generation (ob_meta (dk_ops ?k) obj)) None None =
        (ds_conditions (se_status changed), result) \<and>
      ds_observed_generation (se_status changed) = om_generation (ob_meta (dk_ops ?k) obj)"
    by (auto simp: server_secret_kind_def server_secret_ops_def split: prod.splits)
  show "same_object ?k se_spec obj obj' \<Longrightarrow> server_secret_fit l rt d cell cat obj \<Longrightarrow> server_secret_fit l rt d cell cat obj'"
    by (simp add: server_secret_fit_def same_server_secret cong: option.case_cong)
  show "same_object ?k se_spec obj obj' \<Longrightarrow> server_secret_made obj' = server_secret_made obj"
    by (simp add: fun_eq_iff server_secret_made_def same_server_secret)
  show "server_secret_made obj c c1 \<Longrightarrow> server_secret_made obj c1 c2 \<Longrightarrow> server_secret_made obj c c2"
    by (simp add: server_secret_made_def)
  show "server_secret_fit l rt d cell cat obj \<Longrightarrow> server_world cat d rt \<and>
      cluster_up l cell d (om_namespace (ob_meta (dk_ops ?k) obj)) (dk_cluster ?k obj)"
    by (simp add: server_secret_fit_def)
  show "cwp (both cell cat) (dk_apply ?k obj) (\<lambda>r s. (\<exists>obj'. r = Done (obj', None, None) \<and>
      ob_meta (dk_ops ?k) obj' = ob_meta (dk_ops ?k) obj) \<and> fst s = x \<and> server_secret_made obj c (snd s)) (x, c)"
    if "lifecycle_laws l" "server_secret_fit l rt d cell cat obj"
  proof -
    from that have laws: "server_world cat d rt" "sanitize_law l" "nul_free (name_of_server_secret obj)"
      "ss_type (se_spec obj) \<noteq> []" "\<forall>c \<in> set (ss_type (se_spec obj)). word_char c"
      by (simp_all add: lifecycle_laws_def server_secret_fit_def)
    have "cwp (both cell cat) (ServerSecret_apply l rt d obj (name_of_server_secret obj))
        (\<lambda>r s. (\<exists>se'. r = (se', None, None) \<and> se_meta se' = se_meta obj) \<and> fst s = x \<and> server_secret_made obj c (snd s)) (x, c)"
      by (rule cwp_both [OF server_secret_apply_succeeds [OF that(2)] cwp_ServerSecret_apply [OF laws]])
        (auto simp: server_secret_made_def)
    then show ?thesis
      unfolding server_secret_kind_fields by (auto intro!: cwp_bind cwp_ret elim!: cwp_weaken)
  qed
  show "cwp (both cell cat) (f s) (\<lambda>r s'. r = None \<and> fst s' = x \<and> server_secret_gone obj c (snd s')) (x, c)"
    if "lifecycle_laws l" "server_secret_fit l rt d cell cat obj" "dk_drop ?k obj = Some f" "willing cell s" "server_law cat s"
  proof -
    from that have f: "f = dropServerSecret l (name_of_server_secret obj)"
      and laws: "sanitize_law l" "nul_free (name_of_server_secret obj)"
      by (simp_all add: lifecycle_laws_def server_secret_fit_def)
    show ?thesis
      unfolding f server_secret_gone_def
      by (rule cwp_drop_both [OF drop_succeeds(3) [OF that(4) laws(2)] cwp_drops(3) [OF that(5) laws]])
  qed
qed

section \<open>The three lives\<close>

text \<open>C3. Take an API server that stores what is written, a SereneDB that is up and a server that
  carries out what it is sent. A Database is settled after two reconciles and after every
  further one, whatever state it was in: it carries the finalizer, reports Ready for its
  generation, its spec is untouched, and the server has the databases it had and this one. A
  Database that is being deleted is gone after one reconcile and stays gone; its database is
  dropped under the policy Delete and kept under Retain, and nothing else on the server changes.\<close>

theorem database_settles:
  assumes "object_home (database_kind l d) da_spec da_status cell cat (om_namespace (da_meta da)) (om_name (da_meta da))"
    and "database_fit l rt d cell cat da" and "lifecycle_laws l" and "cell e = Some da"
    and "IsZero (om_deletion_timestamp (da_meta da)) \<or> om_finalizers (da_meta da) = [DependentFinalizer]"
    and "run = Database_Reconcile l d (om_namespace (da_meta da)) (om_name (da_meta da))"
  shows "if IsZero (om_deletion_timestamp (da_meta da))
    then settled l (database_kind l d) da_spec da_status da (database_made da (cat e))
      (both cell cat (reconciled run (i + 2) e))
    else cell (reconciled run (i + 1) e) = None \<and> cat (reconciled run (i + 1) e) =
      (if dbs_reclaim_policy (da_spec da) = ReclaimDelete
       then (cat e)\<lparr>cat_databases := removeAll (name_of_database da) (cat_databases (cat e))\<rparr> else cat e)"
  using database_life.life [of l d cell cat da rt e i] assms(1-5)
  unfolding assms(6) Database_Reconcile_shape
  by (simp add: dk_drop_database database_gone_def cong: if_cong)

text \<open>C4. The same for a DatabaseRole, whose password Secret can be read: after two reconciles it is
  settled and stays so, and on the server the role is a member of exactly the groups listed,
  every other membership, role, database and secret being as before. A role being deleted is
  gone after one reconcile, and the policy decides whether the server loses it, with its
  memberships.\<close>

theorem role_settles:
  assumes "object_home (role_kind l rt d) dr_spec dr_status cell cat (om_namespace (dr_meta dr)) (om_name (dr_meta dr))"
    and "role_fit l rt d cell cat dr (cat e)" and "lifecycle_laws l" and "cell e = Some dr"
    and "IsZero (om_deletion_timestamp (dr_meta dr)) \<or> om_finalizers (dr_meta dr) = [DependentFinalizer]"
    and "run = Role_Reconcile l rt d (om_namespace (dr_meta dr)) (om_name (dr_meta dr))"
  shows "if IsZero (om_deletion_timestamp (dr_meta dr))
    then settled l (role_kind l rt d) dr_spec dr_status dr (role_made dr (cat e))
      (both cell cat (reconciled run (i + 2) e))
    else cell (reconciled run (i + 1) e) = None \<and> cat (reconciled run (i + 1) e) =
      (if ro_reclaim_policy (dr_spec dr) = ReclaimDelete \<and> name_of_role dr \<in> set (cat_roles (cat e))
       then without_role (name_of_role dr) (cat e) else cat e)"
  using role_life.life [of l rt d cell cat dr e i] assms(1-5)
  unfolding assms(6) Role_Reconcile_shape
  by (simp add: dk_drop_role role_gone_def split: if_splits)

text \<open>C5. The same for a ServerSecret, whose values Secret can be read and whose options form a
  statement: after two reconciles it is settled and stays so, with the secret on the server and
  nothing else there changed. One being deleted is gone after one reconcile and its secret
  dropped: there is no policy to keep it.\<close>

theorem server_secret_settles:
  assumes "object_home (server_secret_kind l rt d) se_spec se_status cell cat (om_namespace (se_meta se)) (om_name (se_meta se))"
    and "server_secret_fit l rt d cell cat se" and "lifecycle_laws l" and "cell e = Some se"
    and "IsZero (om_deletion_timestamp (se_meta se)) \<or> om_finalizers (se_meta se) = [DependentFinalizer]"
    and "run = ServerSecret_Reconcile l rt d (om_namespace (se_meta se)) (om_name (se_meta se))"
  shows "if IsZero (om_deletion_timestamp (se_meta se))
    then settled l (server_secret_kind l rt d) se_spec se_status se (server_secret_made se (cat e))
      (both cell cat (reconciled run (i + 2) e))
    else cell (reconciled run (i + 1) e) = None \<and> cat (reconciled run (i + 1) e) =
      (cat e)\<lparr>cat_secrets := removeAll (name_of_server_secret se) (cat_secrets (cat e))\<rparr>"
  using server_secret_life.life [of l rt d cell cat se e i] assms(1-5)
  unfolding assms(6) ServerSecret_Reconcile_shape
  by (simp add: server_secret_gone_def cong: if_cong)

section \<open>An API server and a SQL server\<close>

text \<open>
  The environment is the stored object and the catalog; the session runs the tokens of a
  statement on the catalog, the client serves the object and reads the rest from the stock.
\<close>

definition home_session :: "('o option \<times> catalog) session" where
  "home_session = \<lparr>
     s_exec = (\<lambda>stmt e. (None, (fst e, case sql_tokens stmt of None \<Rightarrow> snd e | Some ts \<Rightarrow> sql_effect ts (snd e)))),
     s_query = (\<lambda>q e. (Inr (case sql_tokens q of None \<Rightarrow> [] | Some ts \<Rightarrow> catalog_answer ts (snd e)), e)),
     s_close = (\<lambda>e. (None, e))\<rparr>"

definition home_read :: "string \<Rightarrow> string \<Rightarrow> 'o option \<times> catalog \<Rightarrow> (go_error + 'o) \<times> 'o option \<times> catalog" where
  "home_read ns n e = (case fst e of None \<Rightarrow> Inl (not_found n) | Some obj \<Rightarrow> Inr obj, e)"

text \<open>\<open>keep obj st\<close> is \<open>obj\<close> with the status of \<open>st\<close>.\<close>

definition home_update :: "('o \<Rightarrow> object_meta) \<Rightarrow> ('o \<Rightarrow> 'o \<Rightarrow> 'o) \<Rightarrow> 'o \<Rightarrow> 'o option \<times> catalog \<Rightarrow>
    go_error option \<times> 'o option \<times> catalog" where
  "home_update meta keep obj e = (case fst e of
     None \<Rightarrow> (Some (not_found (om_name (meta obj))), e)
   | Some cur \<Rightarrow> (None, (if om_finalizers (meta obj) = [] \<and> \<not> IsZero (om_deletion_timestamp (meta cur))
       then None else Some (keep obj cur), snd e)))"

definition home_patch :: "('o \<Rightarrow> 'o \<Rightarrow> 'o) \<Rightarrow> 'o \<Rightarrow> 'o \<Rightarrow> 'o option \<times> catalog \<Rightarrow> go_error option \<times> 'o option \<times> catalog" where
  "home_patch keep old new e = (None, (Some (keep old new), snd e))"

lemma home_is_home:
  assumes "dk_get k = home_read" "ob_update (dk_ops k) = home_update (ob_meta (dk_ops k)) keep" "dk_patch k = home_patch keep"
    and "\<And>a b. ob_meta (dk_ops k) (keep a b) = ob_meta (dk_ops k) a" "\<And>a b. spec (keep a b) = spec a"
      "\<And>a b. status (keep a b) = status b"
  shows "object_home k spec status fst snd ns n"
proof -
  have "\<exists>v. m = m\<lparr>om_resource_version := v\<rparr>" for m :: object_meta
    by (rule exI [where x = "om_resource_version m"]) simp
  then show ?thesis
    unfolding object_home_def assms(1-3)
    by (auto simp: home_read_def home_update_def home_patch_def not_found_def assms(4-6) split: option.splits)
qed

definition home_bed :: "(('o option \<times> catalog) client \<Rightarrow> ('o option \<times> catalog) client) \<Rightarrow> ('o option \<times> catalog) dependents" where
  "home_bed own = \<lparr>dep_client = own (static_client bed_stock), dep_connector = (\<lambda>_ e. (Inr home_session, e))\<rparr>"

text \<open>A client that serves an object of one kind reads SereneDBs and Secrets as before.\<close>

definition reads_stock :: "(('o option \<times> catalog) client \<Rightarrow> ('o option \<times> catalog) client) \<Rightarrow> bool" where
  "reads_stock own \<longleftrightarrow> k_get_serenedb (own (static_client bed_stock)) = k_get_serenedb (static_client bed_stock) \<and>
     k_get_secret (own (static_client bed_stock)) = k_get_secret (static_client bed_stock)"

lemma home_bed_up:
  assumes "reads_stock own"
  shows "cluster_up plain_lib fst (home_bed own) ''prod'' ''mydb''"
proof -
  have reads: "k_get_serenedb (dep_client (home_bed own)) ''prod'' ''mydb'' e = (Inr ready_db, e)"
    "k_get_secret (dep_client (home_bed own)) ''prod'' ''mydb'' e = (Inr superuser_secret, e)" for e
    using assms by (simp_all add: reads_stock_def home_bed_def static_client_def stocked_def bed_stock_def empty_stock_def
        ready_db_def sample_db_def superuser_secret_def)
  have "willing fst home_session" by (simp add: willing_def home_session_def)
  with ready_db_facts reads show ?thesis
    unfolding cluster_up_def
    by (intro conjI exI [where x = ready_db] exI [where x = superuser_secret] exI [where x = "''s3cret''"])
      (simp_all add: home_bed_def)
qed

lemma home_bed_world:
  assumes "reads_stock own"
  shows "server_world snd (home_bed own) (still_runtime 0)"
proof -
  have "server_law snd home_session"
    by (auto simp: server_law_def home_session_def catalog_answer_reply)
  then show ?thesis
    using assms by (simp add: reads_stock_def server_world_def home_bed_def static_client_def stocked_def still_runtime_def
        split: option.splits)
qed

lemma still_unordered: "unordered cell (still_runtime t)"
  by (simp add: unordered_def still_runtime_def)

lemma plain_lib_lifecycle: "lifecycle_laws plain_lib"
proof -
  have "finalizer_frame plain_lib"
    unfolding finalizer_frame_def by (intro allI conjI) (simp add: plain_lib_def, intro exI, rule refl)+
  then show ?thesis
    by (simp add: lifecycle_laws_def plain_lib_sanitize plain_lib_condition plain_lib_finalizer)
qed

text \<open>A new Database.\<close>

definition database_home :: "(database option \<times> catalog) dependents" where
  "database_home = home_bed (\<lambda>c. c\<lparr>k_get_database := home_read,
     k_update_database := home_update da_meta (\<lambda>a b. a\<lparr>da_status := da_status b\<rparr>),
     k_patch_database_status := home_patch (\<lambda>a b. a\<lparr>da_status := da_status b\<rparr>)\<rparr>)"

definition new_database :: database where
  "new_database = living_database\<lparr>da_meta := (da_meta living_database)\<lparr>om_name := ''new'', om_finalizers := []\<rparr>\<rparr>"

lemma new_database_facts:
  "om_namespace (da_meta new_database) = ''prod''" "om_name (da_meta new_database) = ''new''"
  "cr_name (dbs_cluster (da_spec new_database)) = ''mydb''" "name_of_database new_database = ''new''"
  "IsZero (om_deletion_timestamp (da_meta new_database))" "nameOrDefault (dbs_name (da_spec new_database)) ''new'' = ''new''"
  by (simp_all add: new_database_def living_database_def dying_database_def nameOrDefault_def IsZero_def)

lemma database_home_facts:
  "object_home (database_kind plain_lib database_home) da_spec da_status fst snd ns n"
  "database_fit plain_lib (still_runtime 0) database_home fst snd new_database"
proof -
  show "object_home (database_kind plain_lib database_home) da_spec da_status fst snd ns n"
    by (rule home_is_home [where keep = "\<lambda>a b. a\<lparr>da_status := da_status b\<rparr>"])
      (simp_all add: database_kind_def database_ops_def database_home_def home_bed_def)
  have "reads_stock (\<lambda>c. c\<lparr>k_get_database := home_read,
     k_update_database := home_update da_meta (\<lambda>a b. a\<lparr>da_status := da_status b\<rparr>),
     k_patch_database_status := home_patch (\<lambda>a b. a\<lparr>da_status := da_status b\<rparr>)\<rparr>)"
    by (simp add: reads_stock_def)
  from home_bed_up [OF this] home_bed_world [OF this] app_nul_free(5)
  show "database_fit plain_lib (still_runtime 0) database_home fst snd new_database"
    unfolding database_fit_def database_home_def new_database_facts by blast
qed

theorem database_settles_witness:
  "database_fit plain_lib (still_runtime 0) database_home fst snd new_database \<and> lifecycle_laws plain_lib \<and>
   settled plain_lib (database_kind plain_lib database_home) da_spec da_status new_database
     (\<lambda>c. set (cat_databases c) = {''new'', ''app''})
     (reconciled (Database_Reconcile plain_lib database_home ''prod'' ''new'') 2 (Some new_database, some_catalog))"
proof -
  have "settled plain_lib (database_kind plain_lib database_home) da_spec da_status new_database
      (database_made new_database some_catalog)
      (reconciled (Database_Reconcile plain_lib database_home ''prod'' ''new'') 2 (Some new_database, some_catalog))"
    using database_settles [OF database_home_facts plain_lib_lifecycle _ _ refl, of "(Some new_database, some_catalog)" 0]
    unfolding new_database_facts(1,2) if_P [OF new_database_facts(5)] by (simp add: new_database_facts(5) numeral_2_eq_2)
  moreover have "database_made new_database some_catalog c \<Longrightarrow> set (cat_databases c) = {''new'', ''app''}" for c
    by (simp add: database_made_def new_database_facts some_catalog_def)
  ultimately show ?thesis
    using database_home_facts(2) plain_lib_lifecycle unfolding settled_def by blast
qed

text \<open>A new DatabaseRole for a role the server has already, with a password.\<close>

definition role_home :: "(database_role option \<times> catalog) dependents" where
  "role_home = home_bed (\<lambda>c. c\<lparr>k_get_role := home_read,
     k_update_role := home_update dr_meta (\<lambda>a b. a\<lparr>dr_status := dr_status b\<rparr>),
     k_patch_role_status := home_patch (\<lambda>a b. a\<lparr>dr_status := dr_status b\<rparr>)\<rparr>)"

definition new_role :: database_role where
  "new_role = sample_role\<lparr>dr_meta := (dr_meta sample_role)\<lparr>om_finalizers := []\<rparr>,
     dr_spec := (dr_spec sample_role)\<lparr>ro_password_secret := Some \<lparr>ps_name = ''mydb'', ps_key = ''postgres-password''\<rparr>\<rparr>\<rparr>"

lemma new_role_facts:
  "om_namespace (dr_meta new_role) = ''prod''" "om_name (dr_meta new_role) = ''app''"
  "cr_name (ro_cluster (dr_spec new_role)) = ''mydb''" "IsZero (om_deletion_timestamp (dr_meta new_role))"
  "nameOrDefault (ro_name (dr_spec new_role)) ''app'' = ''app''" "ro_valid_until (dr_spec new_role) = []"
  "ro_in_roles (dr_spec new_role) = [''readers'', ''writers'']"
  "ro_password_secret (dr_spec new_role) = Some \<lparr>ps_name = ''mydb'', ps_key = ''postgres-password''\<rparr>"
  by (simp_all add: new_role_def sample_role_def nameOrDefault_def IsZero_def empty_meta_def)

lemma role_home_facts:
  "object_home (role_kind plain_lib (still_runtime 0) role_home) dr_spec dr_status fst snd ns n"
  "role_fit plain_lib (still_runtime 0) role_home fst snd new_role some_catalog"
proof -
  show "object_home (role_kind plain_lib (still_runtime 0) role_home) dr_spec dr_status fst snd ns n"
    by (rule home_is_home [where keep = "\<lambda>a b. a\<lparr>dr_status := dr_status b\<rparr>"])
      (simp_all add: role_kind_def role_ops_def role_home_def home_bed_def)
  have "reads_stock (\<lambda>c. c\<lparr>k_get_role := home_read,
     k_update_role := home_update dr_meta (\<lambda>a b. a\<lparr>dr_status := dr_status b\<rparr>),
     k_patch_role_status := home_patch (\<lambda>a b. a\<lparr>dr_status := dr_status b\<rparr>)\<rparr>)"
    by (simp add: reads_stock_def)
  note bed = home_bed_up [OF this] home_bed_world [OF this]
  have "readable fst role_home ''prod'' ''mydb'' superuser_secret"
    by (simp add: readable_def role_home_def home_bed_def static_client_def stocked_def bed_stock_def empty_stock_def
        superuser_secret_def)
  moreover have "map_of (sec_data superuser_secret) (nameOrDefault ''postgres-password'' ''password'') = Some ''s3cret''"
    by (simp add: superuser_secret_def nameOrDefault_def)
  moreover have "groups_of some_catalog ''app'' = {''old'', ''readers''}"
    by (auto simp: groups_of_def some_catalog_def)
  moreover have "nul_free ''s3cret''" by (simp add: nul_free_def)
  ultimately show "role_fit plain_lib (still_runtime 0) role_home fst snd new_role some_catalog"
    using bed still_unordered app_nul_free
    by (auto simp: role_fit_def role_home_def new_role_facts)
qed

theorem role_settles_witness:
  "role_fit plain_lib (still_runtime 0) role_home fst snd new_role some_catalog \<and> lifecycle_laws plain_lib \<and>
   settled plain_lib (role_kind plain_lib (still_runtime 0) role_home) dr_spec dr_status new_role
     (\<lambda>c. groups_of c ''app'' = {''readers'', ''writers''} \<and> groups_of c ''other'' = {''old''})
     (reconciled (Role_Reconcile plain_lib (still_runtime 0) role_home ''prod'' ''app'') 2 (Some new_role, some_catalog))"
proof -
  have "role_fit plain_lib (still_runtime 0) role_home fst snd new_role (snd (Some new_role, some_catalog))"
    by (simp add: role_home_facts(2))
  from role_settles [OF role_home_facts(1) this plain_lib_lifecycle _ _ refl, of 0]
  have "settled plain_lib (role_kind plain_lib (still_runtime 0) role_home) dr_spec dr_status new_role
      (role_made new_role some_catalog)
      (reconciled (Role_Reconcile plain_lib (still_runtime 0) role_home ''prod'' ''app'') 2 (Some new_role, some_catalog))"
    unfolding new_role_facts(1,2) if_P [OF new_role_facts(4)] by (simp add: new_role_facts(4) numeral_2_eq_2)
  moreover have "role_made new_role some_catalog c \<Longrightarrow>
      groups_of c ''app'' = {''readers'', ''writers''} \<and> groups_of c ''other'' = {''old''}" for c
    by (auto simp: role_made_def groups_of_def new_role_facts some_catalog_def)
  ultimately show ?thesis
    using role_home_facts(2) plain_lib_lifecycle unfolding settled_def by blast
qed

text \<open>A ServerSecret that is being deleted.\<close>

definition server_secret_home :: "(server_secret option \<times> catalog) dependents" where
  "server_secret_home = home_bed (\<lambda>c. c\<lparr>k_get_server_secret := home_read,
     k_update_server_secret := home_update se_meta (\<lambda>a b. a\<lparr>se_status := se_status b\<rparr>),
     k_patch_server_secret_status := home_patch (\<lambda>a b. a\<lparr>se_status := se_status b\<rparr>)\<rparr>)"

definition dying_server_secret :: server_secret where
  "dying_server_secret = sample_server_secret\<lparr>se_meta := (se_meta sample_server_secret)\<lparr>om_deletion_timestamp := Some 1\<rparr>\<rparr>"

lemma dying_server_secret_facts:
  "om_namespace (se_meta dying_server_secret) = ''prod''" "om_name (se_meta dying_server_secret) = ''lake''"
  "se_spec dying_server_secret = se_spec sample_server_secret"
  "\<not> IsZero (om_deletion_timestamp (se_meta dying_server_secret))"
  "om_finalizers (se_meta dying_server_secret) = [DependentFinalizer]"
  "nameOrDefault (ss_name (se_spec sample_server_secret)) ''lake'' = ''lake''"
  by (simp_all add: dying_server_secret_def sample_server_secret_def nameOrDefault_def IsZero_def zero_time_def)

lemma server_secret_home_facts:
  "object_home (server_secret_kind plain_lib (still_runtime 0) server_secret_home) se_spec se_status fst snd ns n"
  "server_secret_fit plain_lib (still_runtime 0) server_secret_home fst snd dying_server_secret"
proof -
  show "object_home (server_secret_kind plain_lib (still_runtime 0) server_secret_home) se_spec se_status fst snd ns n"
    by (rule home_is_home [where keep = "\<lambda>a b. a\<lparr>se_status := se_status b\<rparr>"])
      (simp_all add: server_secret_kind_def server_secret_ops_def server_secret_home_def home_bed_def)
  have "reads_stock (\<lambda>c. c\<lparr>k_get_server_secret := home_read,
     k_update_server_secret := home_update se_meta (\<lambda>a b. a\<lparr>se_status := se_status b\<rparr>),
     k_patch_server_secret_status := home_patch (\<lambda>a b. a\<lparr>se_status := se_status b\<rparr>)\<rparr>)"
    by (simp add: reads_stock_def)
  note bed = home_bed_up [OF this] home_bed_world [OF this]
  have "options_allowed sample_options"
    by (simp add: options_allowed_def sample_options_def nul_free_def word_char_code is_digit_code)
  then show "server_secret_fit plain_lib (still_runtime 0) server_secret_home fst snd dying_server_secret"
    using bed still_unordered sample_server_secret_facts
    by (simp add: server_secret_fit_def server_secret_home_def dying_server_secret_facts)
qed

theorem server_secret_settles_witness:
  "server_secret_fit plain_lib (still_runtime 0) server_secret_home fst snd dying_server_secret \<and> lifecycle_laws plain_lib \<and>
   reconciled (ServerSecret_Reconcile plain_lib (still_runtime 0) server_secret_home ''prod'' ''lake'') 1
     (Some dying_server_secret, some_catalog\<lparr>cat_secrets := [''lake'', ''sea'']\<rparr>) =
   (None, some_catalog\<lparr>cat_secrets := [''sea'']\<rparr>)"
proof -
  let ?e = "(Some dying_server_secret, some_catalog\<lparr>cat_secrets := [''lake'', ''sea'']\<rparr>)"
  from server_secret_settles [OF server_secret_home_facts plain_lib_lifecycle _ _ refl, of ?e 0]
  have "fst (reconciled (ServerSecret_Reconcile plain_lib (still_runtime 0) server_secret_home ''prod'' ''lake'') 1 ?e) = None \<and>
      snd (reconciled (ServerSecret_Reconcile plain_lib (still_runtime 0) server_secret_home ''prod'' ''lake'') 1 ?e) =
        some_catalog\<lparr>cat_secrets := [''sea'']\<rparr>"
    unfolding dying_server_secret_facts(1,2) if_not_P [OF dying_server_secret_facts(4)]
    by (simp add: dying_server_secret_facts One_nat_def)
  then show ?thesis
    using server_secret_home_facts(2) plain_lib_lifecycle by (simp add: prod_eq_iff)
qed

end
