(* ===== verification/BackupController.thy ===== *)
theory BackupController
  imports Dependent TestBed
begin

text \<open>
  internal/controller/backup_controller.go: a Backup goes from Pending over Running to Completed
  or Failed; the snapshot is requested after a CHECKPOINT and then watched. The persisted
  status is a state machine, given as an inductive relation with its reachable states; two
  monitors tie the code's writes to it.
\<close>

section \<open>The code\<close>

definition pending :: "backup \<Rightarrow> string \<Rightarrow> backup" where
  "pending b msg = b\<lparr>bk_status := (bk_status b)\<lparr>bt_phase := BackupPhasePending, bt_error := msg\<rparr>\<rparr>"

definition fail :: "backup \<Rightarrow> string \<Rightarrow> backup" where
  "fail b msg = b\<lparr>bk_status := (bk_status b)\<lparr>bt_phase := BackupPhaseFailed, bt_error := msg\<rparr>\<rparr>"

definition checkpoint :: string where "checkpoint = ''CHECKPOINT''"

text \<open>\<open>snapshot.GetName()\<close>: the field \<open>metadata.name\<close>.\<close>

definition GetName :: "unstructured \<Rightarrow> string" where
  "GetName u = (case json_path (un_object u) [''metadata'', ''name''] of Some (JString s) \<Rightarrow> s | _ \<Rightarrow> [])"

definition create_snapshot :: "'e client \<Rightarrow> unstructured \<Rightarrow> ('e, go_error option) eff" where
  "create_snapshot c u = call (k_create_snapshot c u) (CreatedSnapshot u)"

definition get_snapshot :: "'e client \<Rightarrow> string \<Rightarrow> string \<Rightarrow> ('e, go_error + unstructured) eff" where
  "get_snapshot c ns n = call (k_get_snapshot c ns n) (GotSnapshot ns n)"

text \<open>The part of \<open>start\<close> that runs on the open session, whose deferred close follows.\<close>

definition request_snapshot :: "lib \<Rightarrow> 'e runtime \<Rightarrow> 'e dependents \<Rightarrow> backup \<Rightarrow> serenedb \<Rightarrow> 'e session \<Rightarrow>
    ('e, backup \<times> reconcile_result) eff" where
  "request_snapshot l rt d b db session = exec session checkpoint \<bind> (\<lambda>r. case r of
     Some err \<Rightarrow> ret (pending b (''checkpoint: '' @ error_text err),
       \<lparr>requeue_after = missingDependencyRequeue\<rparr>, None)
   | None \<Rightarrow> now rt \<bind> (\<lambda>started.
       case set_controller_reference_u l (bk_meta b) (VolumeSnapshot b (DataClaimName db)) of
         Inl err \<Rightarrow> ret (b, no_requeue, Some (Wrap ''set snapshot owner'' err))
       | Inr snapshot \<Rightarrow> create_snapshot (dep_client d) snapshot \<bind> (\<lambda>r.
           let running = b\<lparr>bk_status := (bk_status b)\<lparr>bt_phase := BackupPhaseRunning,
                 bt_started_at := Some started, bt_snapshot_name := GetName snapshot, bt_error := []\<rparr>\<rparr>;
               polled = (running, \<lparr>requeue_after = snapshotPollInterval\<rparr>, None)
           in case r of
             Some err \<Rightarrow>
               if \<not> is_already_exists err then
                 if is_not_found err \<or> isNoKindMatch err then
                   ret (fail b ''the cluster has no VolumeSnapshot API; install a CSI snapshot controller'',
                     no_requeue, None)
                 else ret (b, no_requeue, Some (Wrap ''create volumesnapshot'' err))
               else ret polled
           | None \<Rightarrow> ret polled)))"

definition start :: "lib \<Rightarrow> 'e runtime \<Rightarrow> 'e dependents \<Rightarrow> backup \<Rightarrow> ('e, backup \<times> reconcile_result) eff" where
  "start l rt d b =
     (if ba_method (bk_spec b) \<noteq> [] \<and> ba_method (bk_spec b) \<noteq> BackupMethodVolumeSnapshot then
        ret (fail b (''unsupported method '' @ fmt_q (ba_method (bk_spec b))), no_requeue, None)
      else get_serenedb (dep_client d) (om_namespace (bk_meta b)) (cr_name (ba_cluster (bk_spec b))) \<bind> (\<lambda>r. case r of
          Inl err \<Rightarrow>
            if is_not_found err then
              ret (pending b (''serenedb '' @ fmt_q (cr_name (ba_cluster (bk_spec b))) @ '' not found''),
                \<lparr>requeue_after = missingDependencyRequeue\<rparr>, None)
            else ret (b, no_requeue, Some (Wrap ''get serenedb'' err))
        | Inr db \<Rightarrow>
            openSession l d (om_namespace (bk_meta b)) (cr_name (ba_cluster (bk_spec b))) \<bind> (\<lambda>s. case s of
                Failed err \<Rightarrow> ret (b, no_requeue, Some err)
              | BlockedOn bl \<Rightarrow> ret (pending b (message bl), \<lparr>requeue_after = missingDependencyRequeue\<rparr>, None)
              | Got session \<Rightarrow> deferring (close session) (request_snapshot l rt d b db session))))"

definition observe :: "lib \<Rightarrow> 'e runtime \<Rightarrow> 'e dependents \<Rightarrow> backup \<Rightarrow> ('e, backup \<times> reconcile_result) eff" where
  "observe l rt d b =
     get_snapshot (dep_client d) (om_namespace (bk_meta b)) (bt_snapshot_name (bk_status b)) \<bind> (\<lambda>r. case r of
       Inl err \<Rightarrow>
         if is_not_found err then
           ret (fail b (''volumesnapshot '' @ fmt_q (bt_snapshot_name (bk_status b)) @ '' disappeared''), no_requeue, None)
         else ret (b, no_requeue, Some (Wrap ''get volumesnapshot'' err))
     | Inr snapshot \<Rightarrow>
         (case SnapshotOutcome l snapshot of (ready, failure) \<Rightarrow>
            if failure \<noteq> [] then ret (fail b failure, no_requeue, None)
            else if \<not> ready then ret (b, \<lparr>requeue_after = snapshotPollInterval\<rparr>, None)
            else now rt \<bind> (\<lambda>t. ret (b\<lparr>bk_status := (bk_status b)\<lparr>bt_phase := BackupPhaseCompleted,
              bt_completed_at := Some t\<rparr>\<rparr>, no_requeue, None))))"

definition Backup_Reconcile :: "lib \<Rightarrow> 'e runtime \<Rightarrow> 'e dependents \<Rightarrow> string \<Rightarrow> string \<Rightarrow> ('e, reconcile_result) eff" where
  "Backup_Reconcile l rt d ns n =
     get_object (k_get_backup (dep_client d)) BackupObject ns n \<bind> (\<lambda>r. case r of
       Inl err \<Rightarrow> ret (no_requeue, ignore_not_found (Some err))
     | Inr b \<Rightarrow>
         if \<not> IsZero (om_deletion_timestamp (bk_meta b)) then ret (no_requeue, None)
         else if bt_phase (bk_status b) = BackupPhaseCompleted \<or> bt_phase (bk_status b) = BackupPhaseFailed then
           ret (no_requeue, None)
         else (if bt_phase (bk_status b) = BackupPhaseRunning then observe l rt d b else start l rt d b)
           \<bind> (\<lambda>(changed, result, err). case err of
               Some e \<Rightarrow> ret (no_requeue, Some e)
             | None \<Rightarrow> patch_status (k_patch_backup_status (dep_client d)) BackupObject b changed \<bind> (\<lambda>p. case p of
                   Some e \<Rightarrow> ret (no_requeue, Some (Wrap ''update status'' e))
                 | None \<Rightarrow> ret (result, None))))"

section \<open>The state machine\<close>

inductive backup_transition :: "backup_status \<Rightarrow> backup_status \<Rightarrow> bool" where
  wait: "bt_phase s \<notin> {BackupPhaseRunning, BackupPhaseCompleted, BackupPhaseFailed} \<Longrightarrow>
    backup_transition s (s\<lparr>bt_phase := BackupPhasePending, bt_error := msg\<rparr>)"
| request: "bt_phase s \<notin> {BackupPhaseRunning, BackupPhaseCompleted, BackupPhaseFailed} \<Longrightarrow>
    backup_transition s (s\<lparr>bt_phase := BackupPhaseRunning, bt_started_at := Some t,
      bt_snapshot_name := n, bt_error := []\<rparr>)"
| poll: "bt_phase s = BackupPhaseRunning \<Longrightarrow> backup_transition s s"
| complete: "bt_phase s = BackupPhaseRunning \<Longrightarrow>
    backup_transition s (s\<lparr>bt_phase := BackupPhaseCompleted, bt_completed_at := Some t\<rparr>)"
| give_up: "bt_phase s \<notin> {BackupPhaseCompleted, BackupPhaseFailed} \<Longrightarrow>
    backup_transition s (s\<lparr>bt_phase := BackupPhaseFailed, bt_error := msg\<rparr>)"

inductive_cases backup_transitionE: "backup_transition s s'"

inductive backup_reachable :: "backup_status \<Rightarrow> bool" where
  fresh: "backup_reachable empty_backup_status"
| step: "backup_reachable s \<Longrightarrow> backup_transition s s' \<Longrightarrow> backup_reachable s'"

text \<open>What a reader of a Backup's status may rely on.\<close>

definition backup_consistent :: "backup_status \<Rightarrow> bool" where
  "backup_consistent s \<longleftrightarrow>
     bt_phase s \<in> {[], BackupPhasePending, BackupPhaseRunning, BackupPhaseCompleted, BackupPhaseFailed} \<and>
     (bt_phase s \<in> {BackupPhaseRunning, BackupPhaseCompleted} \<longrightarrow> bt_started_at s \<noteq> None \<and> bt_error s = []) \<and>
     (bt_completed_at s \<noteq> None \<longleftrightarrow> bt_phase s = BackupPhaseCompleted) \<and>
     (bt_phase s \<in> {[], BackupPhasePending} \<longrightarrow> bt_started_at s = None \<and> bt_snapshot_name s = [])"

lemma transition_consistent:
  "backup_transition s s' \<Longrightarrow> backup_consistent s \<Longrightarrow> backup_consistent s'"
  by (induction rule: backup_transition.induct) (auto simp: backup_consistent_def phase_defs)

lemma reachable_consistent: "backup_reachable s \<Longrightarrow> backup_consistent s"
proof (induction rule: backup_reachable.induct)
  case fresh
  then show ?case by (simp add: backup_consistent_def empty_backup_status_def phase_defs)
next
  case (step s s')
  then show ?case using transition_consistent by blast
qed

section \<open>The rule of the writes\<close>

text \<open>
  The monitor reads off the log the backup as fetched, the first SereneDB read, whether a
  CHECKPOINT has been taken on the open session, whether the API has taken the snapshot (or
  had one of that name), and the snapshot last read.
\<close>

record backup_watch =
  bw_backup :: "backup option"
  bw_db :: "serenedb option"
  bw_checked :: bool
  bw_requested :: bool
  bw_seen :: "unstructured option"

definition backup_watch_start :: backup_watch where
  "backup_watch_start = \<lparr>bw_backup = None, bw_db = None, bw_checked = False, bw_requested = False, bw_seen = None\<rparr>"

definition backup_write_ok :: "lib \<Rightarrow> backup_watch \<Rightarrow> backup \<Rightarrow> backup \<Rightarrow> bool" where
  "backup_write_ok l w old new \<longleftrightarrow>
     bw_backup w = Some old \<and> IsZero (om_deletion_timestamp (bk_meta old)) \<and>
     bk_meta new = bk_meta old \<and> bk_spec new = bk_spec old \<and>
     backup_transition (bk_status old) (bk_status new) \<and>
     (bt_phase (bk_status new) = BackupPhaseRunning \<longrightarrow>
        bt_phase (bk_status old) = BackupPhaseRunning \<or> bw_requested w) \<and>
     (bt_phase (bk_status new) = BackupPhaseCompleted \<longrightarrow>
        (case bw_seen w of None \<Rightarrow> False | Some u \<Rightarrow> SnapshotOutcome l u = (True, [])))"

definition backup_rule :: "lib \<Rightarrow> backup_watch \<Rightarrow> event \<Rightarrow> backup_watch option" where
  "backup_rule l w e = (case e of
     GotObject _ _ r \<Rightarrow> Some (backup_watch_start\<lparr>bw_backup := (case r of Inr (BackupObject b) \<Rightarrow> Some b | _ \<Rightarrow> None)\<rparr>)
   | GotSereneDB _ _ r \<Rightarrow> Some (case bw_db w of
       None \<Rightarrow> w\<lparr>bw_db := (case r of Inl _ \<Rightarrow> None | Inr db \<Rightarrow> Some db)\<rparr> | Some _ \<Rightarrow> w)
   | Executed stmt r \<Rightarrow> Some (if stmt = checkpoint \<and> r = None then w\<lparr>bw_checked := True\<rparr> else w)
   | Closed \<Rightarrow> Some (w\<lparr>bw_checked := False\<rparr>)
   | CreatedSnapshot u r \<Rightarrow> (case (bw_backup w, bw_db w) of
       (Some b, Some db) \<Rightarrow>
         if bw_checked w \<and> set_controller_reference_u l (bk_meta b) (VolumeSnapshot b (DataClaimName db)) = Inr u
         then Some (w\<lparr>bw_requested := (case r of None \<Rightarrow> True | Some err \<Rightarrow> is_already_exists err)\<rparr>) else None
     | _ \<Rightarrow> None)
   | GotSnapshot ns n r \<Rightarrow> Some (case bw_backup w of None \<Rightarrow> w | Some b \<Rightarrow>
       w\<lparr>bw_seen := (if ns = om_namespace (bk_meta b) \<and> n = bt_snapshot_name (bk_status b)
         then (case r of Inl _ \<Rightarrow> None | Inr u \<Rightarrow> Some u) else None)\<rparr>)
   | PatchedStatus (BackupObject old) (BackupObject new) _ \<Rightarrow> if backup_write_ok l w old new then Some w else None
   | _ \<Rightarrow> Some w)"

lemma openSession_backup:
  assumes "bw_db w \<noteq> None"
  shows "wp (backup_rule l) (openSession l d ns n) (\<lambda>_ w'. w' = w) w"
  unfolding openSession_def superuserPassword_def call_defs
  using assms by (auto intro!: wp_intro simp: backup_rule_def)

definition backup_result_ok :: "lib \<Rightarrow> backup \<Rightarrow> backup \<times> reconcile_result \<Rightarrow> backup_watch \<Rightarrow> bool" where
  "backup_result_ok l b r w \<longleftrightarrow> (snd (snd r) = None \<longrightarrow> backup_write_ok l w b (fst r))"

lemma request_snapshot_rule:
  assumes "bw_backup w = Some b" "bw_db w = Some db" "IsZero (om_deletion_timestamp (bk_meta b))"
    "bt_phase (bk_status b) \<notin> {BackupPhaseRunning, BackupPhaseCompleted, BackupPhaseFailed}"
  shows "wp (backup_rule l) (deferring (close session) (request_snapshot l rt d b db session))
    (\<lambda>r w'. backup_result_ok l b r w') w"
proof -
  have phases: "BackupPhasePending \<noteq> BackupPhaseRunning" "BackupPhasePending \<noteq> BackupPhaseCompleted"
    "BackupPhaseFailed \<noteq> BackupPhaseRunning" "BackupPhaseFailed \<noteq> BackupPhaseCompleted"
    "BackupPhaseRunning \<noteq> BackupPhaseCompleted"
    by (simp_all add: phase_defs)
  show ?thesis
    unfolding request_snapshot_def close_def exec_def now_def create_snapshot_def Let_def
    using assms phases
    by (auto intro!: wp_deferring wp_intro backup_transition.intros
        simp: backup_rule_def backup_result_ok_def backup_write_ok_def pending_def fail_def)
qed

lemma phases_differ:
  "BackupPhasePending \<noteq> BackupPhaseRunning" "BackupPhasePending \<noteq> BackupPhaseCompleted"
  "BackupPhaseFailed \<noteq> BackupPhaseRunning" "BackupPhaseFailed \<noteq> BackupPhaseCompleted"
  "BackupPhaseRunning \<noteq> BackupPhaseCompleted" "BackupPhaseCompleted \<noteq> BackupPhaseFailed"
  "BackupPhaseRunning \<noteq> BackupPhaseFailed"
  by (simp_all add: phase_defs)

lemma start_rule:
  assumes "bw_backup w = Some b" "bw_db w = None" "IsZero (om_deletion_timestamp (bk_meta b))"
    "bt_phase (bk_status b) \<notin> {BackupPhaseRunning, BackupPhaseCompleted, BackupPhaseFailed}"
  shows "wp (backup_rule l) (start l rt d b) (\<lambda>r w'. backup_result_ok l b r w') w"
proof -
  have waiting: "backup_result_ok l b (pending b m, res, None) w'" if "bw_backup w' = Some b" for m res w'
    using that assms(3,4) phases_differ
    by (auto simp: backup_result_ok_def backup_write_ok_def pending_def intro: backup_transition.intros)
  have given_up: "backup_result_ok l b (fail b m, res, None) w'" if "bw_backup w' = Some b" for m res w'
    using that assms(3,4) phases_differ
    by (auto simp: backup_result_ok_def backup_write_ok_def fail_def intro: backup_transition.intros)
  have failed: "backup_result_ok l b (b, res, Some err) w'" for res err w'
    by (simp add: backup_result_ok_def)
  have opened: "wp (backup_rule l) (openSession l d ns n) (\<lambda>_ w'. w' = w\<lparr>bw_db := Some db\<rparr>) (w\<lparr>bw_db := Some db\<rparr>)"
    for ns n db by (rule openSession_backup) simp
  have request: "wp (backup_rule l) (deferring (close session) (request_snapshot l rt d b db session))
      (\<lambda>r w'. backup_result_ok l b r w') (w\<lparr>bw_db := Some db\<rparr>)" for db session
    by (rule request_snapshot_rule) (use assms in simp_all)
  show ?thesis
    unfolding start_def get_serenedb_def
    using assms(1,2)
    by (auto intro!: wp_intro wp_weaken [OF opened] request waiting given_up failed simp: backup_rule_def)
qed

lemma observe_rule:
  assumes "bw_backup w = Some b" "IsZero (om_deletion_timestamp (bk_meta b))"
    "bt_phase (bk_status b) = BackupPhaseRunning"
  shows "wp (backup_rule l) (observe l rt d b) (\<lambda>r w'. backup_result_ok l b r w') w"
  unfolding observe_def get_snapshot_def now_def
  using assms phases_differ
  by (auto intro!: wp_intro backup_transition.intros
      simp: backup_rule_def backup_result_ok_def backup_write_ok_def fail_def)

lemma Backup_Reconcile_rule: "wp (backup_rule l) (Backup_Reconcile l rt d ns n) (\<lambda>_ _. True) w"
proof -
  have tail: "wp (backup_rule l) (case x of (changed, result, err) \<Rightarrow> (case err of
               Some e \<Rightarrow> ret (no_requeue, Some e)
             | None \<Rightarrow> patch_status (k_patch_backup_status (dep_client d)) BackupObject b changed \<bind> (\<lambda>p. case p of
                   Some e \<Rightarrow> ret (no_requeue, Some (Wrap ''update status'' e))
                 | None \<Rightarrow> ret (result, None)))) (\<lambda>_ _. True) w'"
    if "backup_result_ok l b x w'" for x b w'
    using that unfolding patch_status_def
    by (cases x) (auto intro!: wp_intro simp: backup_rule_def backup_result_ok_def)
  have got: "wp (backup_rule l) (get_object f BackupObject ns n)
      (\<lambda>r w'. \<forall>b. r = Inr b \<longrightarrow> w' = backup_watch_start\<lparr>bw_backup := Some b\<rparr>) w" for f
    unfolding get_object_def by (rule wp_call) (simp add: backup_rule_def)
  have running: "wp (backup_rule l) (if bt_phase (bk_status b) = BackupPhaseRunning then observe l rt d b else start l rt d b)
      (\<lambda>r w'. backup_result_ok l b r w') (backup_watch_start\<lparr>bw_backup := Some b\<rparr>)"
    if "\<not> (bt_phase (bk_status b) = BackupPhaseCompleted \<or> bt_phase (bk_status b) = BackupPhaseFailed)"
      "IsZero (om_deletion_timestamp (bk_meta b))" for b
    using that by (auto intro: start_rule observe_rule simp: backup_watch_start_def)
  show ?thesis
    unfolding Backup_Reconcile_def
    apply (rule wp_bind, rule wp_weaken [OF got], rule wp_sum, simp add: wp_ret)
    apply (rule wp_if, simp add: wp_ret, rule wp_if, simp add: wp_ret)
    apply (simp only: not_not, rule wp_bind, rule wp_weaken [OF running])
      apply (assumption, simp, erule tail)
    done
qed

text \<open>C15. Every status a backup reconcile persists is a step of the phase machine from the status
  just fetched, on a backup that is not being deleted and with nothing else changed; the
  snapshot is created only after the server has taken a CHECKPOINT on a session still open,
  from the claim of the SereneDB read and owned by the backup; Running is persisted only after
  the API has taken the snapshot or has one of that name; and Completed only when the snapshot
  the status names has just been read as ready and without an error.\<close>

theorem backup_writes_follow_rule:
  "complies (backup_rule l) backup_watch_start (trace_of (Backup_Reconcile l rt d ns n) e)"
  by (rule wp_complies [OF Backup_Reconcile_rule])

text \<open>
  The statuses a Backup can have had: it is created without one, and the operator, the only
  writer of the status, changes it by the patches of its reconciles.
\<close>

inductive backup_history :: "lib \<Rightarrow> 'e runtime \<Rightarrow> 'e dependents \<Rightarrow> backup_status \<Rightarrow> bool" for l rt d where
  created: "backup_history l rt d empty_backup_status"
| patched: "backup_history l rt d (bk_status old) \<Longrightarrow>
    PatchedStatus (BackupObject old) (BackupObject new) r \<in> set (trace_of (Backup_Reconcile l rt d ns n) e) \<Longrightarrow>
    backup_history l rt d (bk_status new)"

lemma patched_transition:
  assumes "PatchedStatus (BackupObject old) (BackupObject new) r \<in> set (trace_of (Backup_Reconcile l rt d ns n) e)"
  shows "backup_transition (bk_status old) (bk_status new)"
proof -
  from wpD [OF Backup_Reconcile_rule, where s = backup_watch_start and e = e]
  obtain w where "watch (backup_rule l) backup_watch_start (trace_of (Backup_Reconcile l rt d ns n) e) = Some w" by blast
  from watch_event [OF this assms] obtain w w' where
    "backup_rule l w (PatchedStatus (BackupObject old) (BackupObject new) r) = Some w'" by blast
  then have "backup_write_ok l w old new" by (simp add: backup_rule_def split: if_splits)
  then show ?thesis by (simp add: backup_write_ok_def)
qed

text \<open>The history of a Backup runs through the phase machine.\<close>

lemma history_reachable: "backup_history l rt d s \<Longrightarrow> backup_reachable s"
proof (induction rule: backup_history.induct)
  case created
  show ?case by (rule fresh)
next
  case (patched old new r ns n e)
  show ?case by (rule backup_reachable.step [OF patched.IH patched_transition [OF patched.hyps(2)]])
qed

text \<open>C19. Every status a Backup has had is consistent, however its reconciles went: the phase is one
  of the four or empty, there is a start time and no error while Running or Completed, a
  completion time exactly when Completed, no snapshot name before Running; and Completed and
  Failed are final: no reconcile writes a status over them.\<close>

theorem backup_status_consistent:
  assumes "backup_history l rt d s"
  shows "backup_consistent s \<and> (bt_phase s \<in> {BackupPhaseCompleted, BackupPhaseFailed} \<longrightarrow> bk_status old = s \<longrightarrow>
    PatchedStatus (BackupObject old) (BackupObject new) r \<notin> set (trace_of (Backup_Reconcile l rt d ns n) e))"
  using reachable_consistent [OF history_reachable [OF assms]] phases_differ
    patched_transition [of old new r l rt d ns n e]
  by (auto elim!: backup_transitionE)

text \<open>How far a Backup has come.\<close>

definition phase_rank :: "string \<Rightarrow> nat" where
  "phase_rank p = (if p = BackupPhasePending then 1 else if p = BackupPhaseRunning then 2
     else if p \<in> {BackupPhaseCompleted, BackupPhaseFailed} then 3 else 0)"

text \<open>A history with the number of changes of the phase in it.\<close>

inductive backup_changes :: "lib \<Rightarrow> 'e runtime \<Rightarrow> 'e dependents \<Rightarrow> nat \<Rightarrow> backup_status \<Rightarrow> bool" for l rt d where
  unchanged: "backup_changes l rt d 0 empty_backup_status"
| changed: "backup_changes l rt d k (bk_status old) \<Longrightarrow>
    PatchedStatus (BackupObject old) (BackupObject new) r \<in> set (trace_of (Backup_Reconcile l rt d ns n) e) \<Longrightarrow>
    backup_changes l rt d (if bt_phase (bk_status new) = bt_phase (bk_status old) then k else Suc k) (bk_status new)"

lemma changes_history: "backup_changes l rt d k s \<Longrightarrow> backup_history l rt d s"
  by (induction rule: backup_changes.induct) (auto intro: backup_history.intros)

lemma transition_rank:
  "backup_transition s s' \<Longrightarrow> bt_phase s' = bt_phase s \<or> phase_rank (bt_phase s) < phase_rank (bt_phase s')"
  by (induction rule: backup_transition.induct) (auto simp: phase_rank_def phase_defs)

lemma changes_rank: "backup_changes l rt d k s \<Longrightarrow> k \<le> phase_rank (bt_phase s)"
proof (induction rule: backup_changes.induct)
  case (changed k old new r ns n e)
  with transition_rank [OF patched_transition [OF changed.hyps(2)]] show ?case by auto
qed simp

text \<open>C20. The phase of a Backup changes at most three times, however its reconciles go and whatever
  the environment answers; once it has changed three times or the Backup has failed, no
  reconcile writes the status any more.\<close>

theorem backup_phases_end:
  assumes "backup_changes l rt d k s"
  shows "k \<le> 3 \<and> (k = 3 \<or> bt_phase s = BackupPhaseFailed \<longrightarrow> bk_status old = s \<longrightarrow>
    PatchedStatus (BackupObject old) (BackupObject new) r \<notin> set (trace_of (Backup_Reconcile l rt d ns n) e))"
proof -
  have "phase_rank p \<le> 3" "phase_rank p = 3 \<Longrightarrow> p \<in> {BackupPhaseCompleted, BackupPhaseFailed}" for p
    by (auto simp: phase_rank_def split: if_splits)
  with changes_rank [OF assms] have k: "k \<le> 3" "k = 3 \<Longrightarrow> bt_phase s \<in> {BackupPhaseCompleted, BackupPhaseFailed}"
    by (force simp: order.trans, meson le_antisym)
  show ?thesis
    using k phases_differ patched_transition [of old new r l rt d ns n e] by (auto elim!: backup_transitionE)
qed

definition tape_backup :: backup where
  "tape_backup = \<lparr>bk_meta = empty_meta\<lparr>om_name := ''b'', om_namespace := ''prod''\<rparr>,
     bk_spec = \<lparr>ba_cluster = \<lparr>cr_name = ''mydb''\<rparr>, ba_method = ''tape'', ba_volume_snapshot_class_name = None\<rparr>,
     bk_status = empty_backup_status\<rparr>"

definition tape_bed :: "fake dependents" where
  "tape_bed = \<lparr>dep_client = static_client (empty_stock\<lparr>sk_backups := [tape_backup]\<rparr>), dep_connector = fake_connector\<rparr>"

lemma tape_run: "trace_of (Backup_Reconcile plain_lib (still_runtime 0) tape_bed ''prod'' ''b'') NewFake =
  [GotObject ''prod'' ''b'' (Inr (BackupObject tape_backup)),
   PatchedStatus (BackupObject tape_backup) (BackupObject (fail tape_backup (''unsupported method '' @ fmt_q ''tape''))) None]"
proof -
  have got: "k_get_backup (dep_client tape_bed) ''prod'' ''b'' e = (Inr tape_backup, e)"
    "k_patch_backup_status (dep_client tape_bed) old new e = (None, e)" for e old new
    by (simp_all add: tape_bed_def static_client_def stocked_def empty_stock_def tape_backup_def)
  have facts: "IsZero (om_deletion_timestamp (bk_meta tape_backup))" "bt_phase (bk_status tape_backup) = []"
    "ba_method (bk_spec tape_backup) = ''tape''"
    by (simp_all add: tape_backup_def IsZero_def empty_meta_def empty_backup_status_def)
  show ?thesis
    by (simp add: trace_of_def Backup_Reconcile_def get_object_def call_def got facts start_def patch_status_def
        phase_defs BackupMethodVolumeSnapshot_def)
qed

theorem backup_status_consistent_witness:
  "\<exists>s. backup_history plain_lib (still_runtime 0) tape_bed s \<and> bt_phase s = BackupPhaseFailed \<and> backup_consistent s"
proof -
  have "backup_history plain_lib (still_runtime 0) tape_bed (bk_status tape_backup)"
    using created by (simp add: tape_backup_def)
  then have "backup_history plain_lib (still_runtime 0) tape_bed
      (bk_status (fail tape_backup (''unsupported method '' @ fmt_q ''tape'')))"
    by (rule patched [where ns = "''prod''" and n = "''b''" and e = NewFake and r = None]) (simp add: tape_run)
  from backup_status_consistent [OF this] this show ?thesis
    by (intro exI [where x = "bk_status (fail tape_backup (''unsupported method '' @ fmt_q ''tape''))"]) (simp add: fail_def)
qed

theorem backup_phases_end_witness:
  "\<exists>s. backup_changes plain_lib (still_runtime 0) tape_bed 1 s \<and> bt_phase s = BackupPhaseFailed \<and>
    PatchedStatus (BackupObject (tape_backup\<lparr>bk_status := s\<rparr>)) (BackupObject tape_backup) None \<notin>
      set (trace_of (Backup_Reconcile plain_lib (still_runtime 0) tape_bed ''prod'' ''b'') NewFake)"
proof -
  let ?failed = "fail tape_backup (''unsupported method '' @ fmt_q ''tape'')"
  have "backup_changes plain_lib (still_runtime 0) tape_bed 0 (bk_status tape_backup)"
    using unchanged by (simp add: tape_backup_def)
  then have "backup_changes plain_lib (still_runtime 0) tape_bed
      (if bt_phase (bk_status ?failed) = bt_phase (bk_status tape_backup) then 0 else Suc 0) (bk_status ?failed)"
    by (rule changed [where ns = "''prod''" and n = "''b''" and e = NewFake and r = None]) (simp add: tape_run)
  moreover have "bt_phase (bk_status ?failed) = BackupPhaseFailed" "bt_phase (bk_status tape_backup) = []"
    by (simp_all add: fail_def tape_backup_def empty_backup_status_def)
  ultimately have run: "backup_changes plain_lib (still_runtime 0) tape_bed 1 (bk_status ?failed)"
    by (simp add: phase_defs)
  from backup_phases_end [OF run, of "tape_backup\<lparr>bk_status := bk_status ?failed\<rparr>" tape_backup None "''prod''" "''b''" NewFake] run
  show ?thesis by (intro exI [where x = "bk_status ?failed"]) (simp add: fail_def)
qed

end
