(* ===== verification/GoTime.thy ===== *)
theory GoTime
  imports ApiTypes
begin

text \<open>
  The parts of package \<open>time\<close> the scheduler uses: the civil date of a time in UTC, the two
  layouts it is printed in, and the difference of two times as a \<open>Duration\<close>. Times are
  nanoseconds since the Unix epoch, and days are counted from 1 January of the year 1, as
  Go counts its absolute days.
\<close>

section \<open>Civil dates\<close>

definition is_leap :: "int \<Rightarrow> bool" where
  "is_leap y \<longleftrightarrow> y mod 4 = 0 \<and> (y mod 100 \<noteq> 0 \<or> y mod 400 = 0)"

definition unix_seconds :: "time \<Rightarrow> int" where
  "unix_seconds t = t div 10 ^ 9"

definition year1_seconds :: int where "year1_seconds = 62135596800"

definition day_number :: "time \<Rightarrow> int" where
  "day_number t = (unix_seconds t + year1_seconds) div 86400"

text \<open>
  The year and the day of the year, by the cycles of 400, 100, 4 and 1 years; the last century
  of a cycle and the last year of four take the leap day.
\<close>

definition year_and_day :: "int \<Rightarrow> int \<times> int" where
  "year_and_day d =
     (let n = d div 146097; d = d mod 146097;
          c = min (d div 36524) 3; d = d - 36524 * c;
          q = d div 1461; d = d mod 1461;
          r = min (d div 365) 3; d = d - 365 * r
      in (1 + 400 * n + 100 * c + 4 * q + r, d))"

definition days_before :: "int list" where
  "days_before = [0, 31, 59, 90, 120, 151, 181, 212, 243, 273, 304, 334]"

text \<open>Month and day of a month from the day of the year, counted from 0.\<close>

definition month_and_day :: "bool \<Rightarrow> int \<Rightarrow> int \<times> int" where
  "month_and_day leap yday =
     (if leap \<and> yday = 59 then (2, 29)
      else let day = (if leap \<and> yday > 59 then yday - 1 else yday);
               passed = filter (\<lambda>b. b \<le> day) days_before
           in (int (length passed), day - last passed + 1))"

definition civil_date :: "time \<Rightarrow> int \<times> int \<times> int" where
  "civil_date t = (case year_and_day (day_number t) of (y, yday) \<Rightarrow>
     case month_and_day (is_leap y) yday of (m, d) \<Rightarrow> (y, m, d))"

definition clock_of :: "time \<Rightarrow> int \<times> int \<times> int" where
  "clock_of t = (let s = unix_seconds t mod 86400 in (s div 3600, s mod 3600 div 60, s mod 60))"

text \<open>\<open>appendInt\<close>: decimal digits, padded with zeros to a width.\<close>

definition pad_int :: "nat \<Rightarrow> int \<Rightarrow> string" where
  "pad_int width i =
     (let s = show_nat (nat \<bar>i\<bar>) in (if i < 0 then ''-'' else []) @ replicate (width - length s) (CHR ''0'') @ s)"

text \<open>\<open>t.UTC().Format("20060102-150405")\<close> and \<open>t.UTC().Format(time.RFC3339)\<close>.\<close>

definition format_stamp :: "time \<Rightarrow> string" where
  "format_stamp t = (case civil_date t of (y, m, d) \<Rightarrow> case clock_of t of (hour, minute, second) \<Rightarrow>
     pad_int 4 y @ pad_int 2 m @ pad_int 2 d @ ''-'' @ pad_int 2 hour @ pad_int 2 minute @ pad_int 2 second)"

definition format_RFC3339 :: "time \<Rightarrow> string" where
  "format_RFC3339 t = (case civil_date t of (y, m, d) \<Rightarrow> case clock_of t of (hour, minute, second) \<Rightarrow>
     pad_int 4 y @ ''-'' @ pad_int 2 m @ ''-'' @ pad_int 2 d @ ''T'' @
     pad_int 2 hour @ '':'' @ pad_int 2 minute @ '':'' @ pad_int 2 second @ ''Z'')"

section \<open>Reading a date back\<close>

definition days_before_year :: "int \<Rightarrow> int" where
  "days_before_year y = (let p = y - 1 in 365 * p + p div 4 - p div 100 + p div 400)"

definition day_of_year :: "bool \<Rightarrow> int \<Rightarrow> int \<Rightarrow> int" where
  "day_of_year leap m d = days_before ! nat (m - 1) + d - 1 + (if leap \<and> m > 2 then 1 else 0)"

definition read_stamp :: "string \<Rightarrow> int" where
  "read_stamp s =
     (let field = (\<lambda>i n. int (nat_of_digits (take n (drop i s))));
          y = field 0 4; m = field 4 2; d = field 6 2;
          hour = field 9 2; minute = field 11 2; second = field 13 2
      in (days_before_year y + day_of_year (is_leap y) m d) * 86400 - year1_seconds
         + hour * 3600 + minute * 60 + second)"

text \<open>A cycle of \<open>k\<close> days repeated at most \<open>m\<close> times, the last one a day longer.\<close>

lemma last_longer:
  assumes "0 \<le> d" "d \<le> k * (m + 1)" "0 < k" "0 \<le> m" "c = min (d div k) (m :: int)"
  shows "0 \<le> c \<and> c \<le> m \<and> 0 \<le> d - k * c \<and> d - k * c \<le> k \<and> (d - k * c = k \<longrightarrow> c = m \<and> d = k * (m + 1))"
proof (cases "d div k \<le> m")
  case True
  then have c: "c = d div k" using assms(5) by simp
  have "0 \<le> c" unfolding c using assms(1,3) by (simp add: pos_imp_zdiv_nonneg_iff)
  moreover have "d - k * c = d mod k" unfolding c by (simp add: minus_mult_div_eq_mod)
  moreover have "0 \<le> d mod k" "d mod k < k" using assms(3) by simp_all
  ultimately show ?thesis using True c by simp
next
  case False
  then have c: "c = m" and m: "m + 1 \<le> d div k" using assms(5) by simp_all
  have "k * (m + 1) \<le> k * (d div k)" using m assms(3) by (simp add: mult_left_mono)
  also have "k * (d div k) \<le> d" using mult_div_mod_eq [of k d] pos_mod_sign [OF assms(3), of d] by linarith
  finally have "d = k * (m + 1)" using assms(2) by simp
  then show ?thesis using c assms(3,4) by (simp add: algebra_simps)
qed

lemma year_and_day_cycles:
  assumes "year_and_day d = (y, yday)"
  obtains n c q r where "y = 1 + 400 * n + 100 * c + 4 * q + r"
    "d = 146097 * n + 36524 * c + 1461 * q + 365 * r + yday"
    "0 \<le> c" "c \<le> 3" "0 \<le> q" "q \<le> 24" "0 \<le> r" "r \<le> 3" "0 \<le> yday"
    "yday \<le> 365" "yday = 365 \<Longrightarrow> r = 3 \<and> (q = 24 \<longrightarrow> c = 3)"
proof -
  define n where "n = d div 146097"
  define d1 where "d1 = d mod 146097"
  define c where "c = min (d1 div 36524) 3"
  define d2 where "d2 = d1 - 36524 * c"
  define q where "q = d2 div 1461"
  define d3 where "d3 = d2 mod 1461"
  define r where "r = min (d3 div 365) 3"
  have y: "y = 1 + 400 * n + 100 * c + 4 * q + r" and yday: "yday = d3 - 365 * r"
    using assms unfolding year_and_day_def Let_def n_def [symmetric] d1_def [symmetric] c_def [symmetric]
      d2_def [symmetric] q_def [symmetric] d3_def [symmetric] r_def [symmetric] by simp_all
  have d1: "0 \<le> d1" "d1 < 146097" "d = 146097 * n + d1" by (simp_all add: d1_def n_def)
  have c: "0 \<le> c" "c \<le> 3" "0 \<le> d2" "d2 \<le> 36524" "d2 = 36524 \<Longrightarrow> c = 3"
    using last_longer [OF _ _ _ _ c_def] d1(1,2) by (simp_all add: d2_def)
  have d2: "d2 = 1461 * q + d3" "0 \<le> d3" "d3 < 1461" by (simp_all add: q_def d3_def)
  have q: "0 \<le> q" "q \<le> 24" "q = 24 \<Longrightarrow> d3 = 1460 \<Longrightarrow> c = 3" using c d2 by linarith+
  have r: "0 \<le> r" "r \<le> 3" "0 \<le> yday" "yday \<le> 365" "yday = 365 \<Longrightarrow> r = 3 \<and> d3 = 1460"
    using last_longer [OF _ _ _ _ r_def] d2(2,3) by (simp_all add: yday)
  show ?thesis
  proof (rule that [of n c q r])
    show "d = 146097 * n + 36524 * c + 1461 * q + 365 * r + yday"
      using d1(3) d2(1) by (simp add: d2_def yday)
    show "yday = 365 \<Longrightarrow> r = 3 \<and> (q = 24 \<longrightarrow> c = 3)" using q(3) r(5) by blast
  qed (fact y c q r)+
qed

lemma div_rest: "0 \<le> s \<Longrightarrow> s < k \<Longrightarrow> (s + k * x) div k = (x :: int)"
  by simp

lemma mod_end: "1 \<le> s \<Longrightarrow> s \<le> k \<Longrightarrow> (s + k * x) mod k = 0 \<longleftrightarrow> s = (k :: int)"
  by (cases "s = k") simp_all

text \<open>The cycles determine the number of days before the year and whether it is a leap year.\<close>

lemma cycles_year:
  assumes "y = 1 + 400 * n + 100 * c + 4 * q + r"
    "0 \<le> c" "c \<le> 3" "0 \<le> q" "q \<le> 24" "0 \<le> r" "r \<le> 3"
  shows "days_before_year y = 146097 * n + 36524 * c + 1461 * q + 365 * r"
    "is_leap y \<longleftrightarrow> r = 3 \<and> (q = 24 \<longrightarrow> c = 3)"
proof -
  note bounds = assms(2-7)
  have "(y - 1) div 4 = 100 * n + 25 * c + q"
    using div_rest [of r 4 "100 * n + 25 * c + q"] bounds by (simp add: assms(1))
  moreover have "(y - 1) div 100 = 4 * n + c"
    using div_rest [of "4 * q + r" 100 "4 * n + c"] bounds by (simp add: assms(1))
  moreover have "(y - 1) div 400 = n"
    using div_rest [of "100 * c + 4 * q + r" 400 n] bounds by (simp add: assms(1))
  ultimately show "days_before_year y = 146097 * n + 36524 * c + 1461 * q + 365 * r"
    unfolding days_before_year_def Let_def by (simp add: assms(1))
  have cycles: "y = (1 + r) + 4 * (100 * n + 25 * c + q)" "y = (1 + 4 * q + r) + 100 * (4 * n + c)"
    "y = (1 + 100 * c + 4 * q + r) + 400 * n" by (simp_all add: assms(1))
  have "y mod 4 = 0 \<longleftrightarrow> 1 + r = 4"
    unfolding cycles(1) by (rule mod_end) (use bounds in linarith)+
  then have four: "y mod 4 = 0 \<longleftrightarrow> r = 3" by simp
  have "y mod 100 = 0 \<longleftrightarrow> 1 + 4 * q + r = 100"
    unfolding cycles(2) by (rule mod_end) (use bounds in linarith)+
  moreover have "1 + 4 * q + r = 100 \<longleftrightarrow> q = 24 \<and> r = 3"
  proof
    assume "1 + 4 * q + r = 100"
    then show "q = 24 \<and> r = 3" using bounds by (intro conjI) linarith+
  qed simp
  ultimately have hundred: "y mod 100 = 0 \<longleftrightarrow> q = 24 \<and> r = 3" by simp
  have "y mod 400 = 0 \<longleftrightarrow> 1 + 100 * c + 4 * q + r = 400"
    unfolding cycles(3) by (rule mod_end) (use bounds in linarith)+
  moreover have "1 + 100 * c + 4 * q + r = 400 \<longleftrightarrow> c = 3 \<and> q = 24 \<and> r = 3"
  proof
    assume "1 + 100 * c + 4 * q + r = 400"
    then show "c = 3 \<and> q = 24 \<and> r = 3" using bounds by (intro conjI) linarith+
  qed simp
  ultimately have "y mod 400 = 0 \<longleftrightarrow> c = 3 \<and> q = 24 \<and> r = 3" by simp
  with four hundred show "is_leap y \<longleftrightarrow> r = 3 \<and> (q = 24 \<longrightarrow> c = 3)"
    unfolding is_leap_def by (cases "r = 3"; cases "q = 24"; simp)
qed

lemma year_roundtrip:
  assumes "year_and_day d = (y, yday)"
  shows "days_before_year y + yday = d \<and> 0 \<le> yday \<and> yday < 365 + (if is_leap y then 1 else 0)"
proof (rule year_and_day_cycles [OF assms])
  fix n c q r
  assume y: "y = 1 + 400 * n + 100 * c + 4 * q + r"
    and d: "d = 146097 * n + 36524 * c + 1461 * q + 365 * r + yday"
    and bounds: "0 \<le> c" "c \<le> 3" "0 \<le> q" "q \<le> 24" "0 \<le> r" "r \<le> 3"
    and yday: "0 \<le> yday" "yday \<le> 365" "yday = 365 \<Longrightarrow> r = 3 \<and> (q = 24 \<longrightarrow> c = 3)"
  note year = cycles_year [OF y bounds]
  have "yday < 365 + (if is_leap y then 1 else 0)"
  proof (cases "yday = 365")
    case True
    then show ?thesis using yday(3) year(2) by simp
  next
    case False
    then show ?thesis using yday(2) by simp
  qed
  then show ?thesis using year(1) d yday(1) by simp
qed

lemma month_table:
  "list_all (\<lambda>leap. list_all (\<lambda>yday. yday = 365 \<and> \<not> leap \<or>
      (case month_and_day leap yday of (m, d) \<Rightarrow>
        1 \<le> m \<and> m \<le> 12 \<and> 1 \<le> d \<and> d \<le> 31 \<and> day_of_year leap m d = yday)) [0..365]) [True, False]"
  by code_simp

lemma month_roundtrip:
  assumes "0 \<le> yday" "yday < 365 + (if leap then 1 else 0)" "month_and_day leap yday = (m, d)"
  shows "day_of_year leap m d = yday" "1 \<le> m" "m \<le> 12" "1 \<le> d" "d \<le> 31"
proof -
  have "leap \<in> set [True, False]" "yday \<in> set [0..365]" "\<not> (yday = 365 \<and> \<not> leap)"
    using assms(1,2) by (auto split: if_splits)
  with month_table assms(3)
  have "1 \<le> m \<and> m \<le> 12 \<and> 1 \<le> d \<and> d \<le> 31 \<and> day_of_year leap m d = yday"
    unfolding list_all_iff by fastforce
  then show "day_of_year leap m d = yday" "1 \<le> m" "m \<le> 12" "1 \<le> d" "d \<le> 31" by blast+
qed

text \<open>Padded fields read back.\<close>

lemma length_show_nat: "n < 10 ^ Suc k \<Longrightarrow> length (show_nat n) \<le> Suc k"
proof (induction k arbitrary: n)
  case 0
  then show ?case by (subst show_nat.simps) simp
next
  case (Suc k)
  then have "n div 10 < 10 ^ Suc k" by (simp add: less_mult_imp_div_less)
  with Suc.IH show ?case by (subst show_nat.simps) simp
qed

lemma nat_of_digits_pad: "nat_of_digits (replicate k (CHR ''0'') @ s) = nat_of_digits s"
  by (induction k) (simp_all add: nat_of_digits_def)

lemma pad_int:
  assumes "0 \<le> i" "i < 10 ^ Suc k"
  shows "length (pad_int (Suc k) i) = Suc k" "int (nat_of_digits (pad_int (Suc k) i)) = i"
proof -
  have "nat i < 10 ^ Suc k" using assms by (simp add: nat_less_iff)
  then have "length (show_nat (nat i)) \<le> Suc k" by (rule length_show_nat)
  with assms(1) show "length (pad_int (Suc k) i) = Suc k" "int (nat_of_digits (pad_int (Suc k) i)) = i"
    by (simp_all add: pad_int_def Let_def nat_of_digits_pad nat_of_digits_show)
qed

lemma pad_widths:
  "0 \<le> i \<Longrightarrow> i < 100 \<Longrightarrow> length (pad_int 2 i) = 2 \<and> int (nat_of_digits (pad_int 2 i)) = i"
  "0 \<le> i \<Longrightarrow> i < 10000 \<Longrightarrow> length (pad_int 4 i) = 4 \<and> int (nat_of_digits (pad_int 4 i)) = i"
  using pad_int [of i 1] pad_int [of i 3] by (simp_all add: numeral_2_eq_2 eval_nat_numeral)

text \<open>The stamp, read back, is the second it was made in, for the years 1 to 9999.\<close>

lemma stamp_roundtrip:
  assumes "zero_time \<le> t" "t < 253402300800 * 10 ^ 9"
  shows "read_stamp (format_stamp t) = unix_seconds t"
proof -
  obtain y yday where yd: "year_and_day (day_number t) = (y, yday)" by fastforce
  obtain m d where md: "month_and_day (is_leap y) yday = (m, d)" by fastforce
  obtain hour minute second where clock: "clock_of t = (hour, minute, second)" by (metis prod_cases3)
  have year: "days_before_year y + yday = day_number t" "0 \<le> yday" "yday < 365 + (if is_leap y then 1 else 0)"
    using year_roundtrip [OF yd] by blast+
  note month = month_roundtrip [OF year(2,3) md]
  have days: "0 \<le> day_number t" "day_number t < 3652059"
    using assms by (simp_all add: day_number_def unix_seconds_def year1_seconds_def zero_time_def)
  have "0 \<le> y \<and> y < 10000"
    by (rule year_and_day_cycles [OF yd]) (use days in linarith)
  then have y: "length (pad_int 4 y) = 4" "int (nat_of_digits (pad_int 4 y)) = y" by (simp_all add: pad_widths)
  have m: "length (pad_int 2 m) = 2" "int (nat_of_digits (pad_int 2 m)) = m"
    and d: "length (pad_int 2 d) = 2" "int (nat_of_digits (pad_int 2 d)) = d"
    using month by (simp_all add: pad_widths)
  define sod where "sod = unix_seconds t mod 86400"
  have sod: "0 \<le> sod" "sod < 86400" by (simp_all add: sod_def)
  have parts: "hour = sod div 3600" "minute = sod mod 3600 div 60" "second = sod mod 60"
    using clock by (simp_all add: clock_of_def Let_def sod_def)
  have range: "0 \<le> hour" "hour < 100" "0 \<le> minute" "minute < 100" "0 \<le> second" "second < 100"
    unfolding parts using sod by linarith+
  have h: "length (pad_int 2 hour) = 2" "int (nat_of_digits (pad_int 2 hour)) = hour"
    and mi: "length (pad_int 2 minute) = 2" "int (nat_of_digits (pad_int 2 minute)) = minute"
    and se: "length (pad_int 2 second) = 2" "int (nat_of_digits (pad_int 2 second)) = second"
    using pad_widths(1) [OF range(1,2)] pad_widths(1) [OF range(3,4)] pad_widths(1) [OF range(5,6)] by blast+
  have time: "hour * 3600 + minute * 60 + second = sod"
  proof -
    have "sod mod 3600 mod 60 = sod mod 60" by (rule mod_mod_cancel) simp
    then show ?thesis
      unfolding parts using div_mult_mod_eq [of sod 3600] div_mult_mod_eq [of "sod mod 3600" 60] by linarith
  qed
  have total: "day_number t * 86400 - year1_seconds + sod = unix_seconds t"
  proof -
    have "(unix_seconds t + 719162 * 86400) mod 86400 = sod" unfolding sod_def by (rule mod_mult_self1)
    then show ?thesis
      unfolding day_number_def year1_seconds_def
      using div_mult_mod_eq [of "unix_seconds t + 62135596800" 86400] by simp
  qed
  have stamp: "format_stamp t = pad_int 4 y @ pad_int 2 m @ pad_int 2 d @ ''-'' @ pad_int 2 hour @
      pad_int 2 minute @ pad_int 2 second"
    by (simp add: format_stamp_def civil_date_def yd md clock)
  have "read_stamp (format_stamp t) = (days_before_year y + yday) * 86400 - year1_seconds + sod"
    unfolding stamp read_stamp_def Let_def
    using y m d h mi se month(1) time by (simp add: drop_append)
  then show ?thesis using year(1) total by simp
qed

text \<open>So stamps tell seconds apart.\<close>

lemma format_stamp_inject:
  assumes "zero_time \<le> t" "t < 253402300800 * 10 ^ 9" "zero_time \<le> u" "u < 253402300800 * 10 ^ 9"
  shows "format_stamp t = format_stamp u \<longleftrightarrow> unix_seconds t = unix_seconds u"
proof
  assume "format_stamp t = format_stamp u"
  then show "unix_seconds t = unix_seconds u"
    using stamp_roundtrip [OF assms(1,2)] stamp_roundtrip [OF assms(3,4)] by simp
next
  assume "unix_seconds t = unix_seconds u"
  then show "format_stamp t = format_stamp u"
    by (simp add: format_stamp_def civil_date_def day_number_def clock_of_def)
qed

section \<open>Durations\<close>

text \<open>\<open>t.Sub(u)\<close>: the difference in nanoseconds, clipped to the range of \<open>int64\<close>.\<close>

definition time_Sub :: "time \<Rightarrow> time \<Rightarrow> int64" where
  "time_Sub t u = word_of_int (max (- (2 ^ 63)) (min (2 ^ 63 - 1) (t - u)))"

lemma sint_time_Sub: "sint (time_Sub t u) = max (- (2 ^ 63)) (min (2 ^ 63 - 1) (t - u))"
proof -
  have "- (2 ^ 63) \<le> max (- (2 ^ 63)) (min (2 ^ 63 - 1) (t - u))"
    "max (- (2 ^ 63)) (min (2 ^ 63 - 1) (t - u)) < (2 ^ 63 :: int)" by auto
  then show ?thesis
    unfolding time_Sub_def by (simp add: sint_sbintrunc' signed_take_bit_int_eq_self_iff)
qed

end
