(* ===== verification/ScheduledBackupController.thy ===== *)
theory ScheduledBackupController
  imports GoTime TestBed
begin

text \<open>
  internal/controller/scheduledbackup_controller.go: on every activation of a cron expression a
  Backup is created and the completed ones beyond \<open>spec.keep\<close> are deleted, oldest first. The
  cron parser is a parameter; a schedule is its \<open>Next\<close> method. A monitor states the rule the
  calls of a reconcile follow; the retention is compared with its declarative reading; and a
  schedule is shown to wake up when, and not before, its next Backup is due.
\<close>

section \<open>The code\<close>

definition reasonScheduled :: string where "reasonScheduled = ''Scheduled''"
definition reasonSuspended :: string where "reasonSuspended = ''Suspended''"
definition reasonInvalidSchedule :: string where "reasonInvalidSchedule = ''InvalidSchedule''"

text \<open>The reconciler: the API client and the optional clock \<open>Now\<close>.\<close>

record 'e scheduler =
  sr_client :: "'e client"
  sr_now :: "('e \<Rightarrow> time \<times> 'e) option"

definition schedule_now :: "'e runtime \<Rightarrow> 'e scheduler \<Rightarrow> ('e, time) eff" where
  "schedule_now rt r = (case sr_now r of Some f \<Rightarrow> call f ReadClock | None \<Rightarrow> now rt)"

definition schedule_setReady :: "lib \<Rightarrow> scheduled_backup \<Rightarrow> string \<Rightarrow> string \<Rightarrow> string \<Rightarrow> scheduled_backup" where
  "schedule_setReady l s status rsn msg = s\<lparr>sd_status := (sd_status s)\<lparr>su_conditions :=
     set_status_condition l (su_conditions (sd_status s)) \<lparr>c_type = ConditionReady, c_status = status,
       c_reason = rsn, c_message = msg, c_observed_generation = om_generation (sd_meta s)\<rparr>\<rparr>\<rparr>"

text \<open>\<open>!now.Before(t)\<close> is \<open>t \<le> now\<close>.\<close>

definition due :: "scheduled_backup \<Rightarrow> cron_schedule \<Rightarrow> time \<Rightarrow> bool" where
  "due s next t = (case su_last_schedule_time (sd_status s) of
     None \<Rightarrow> if sb_immediate (sd_spec s) then True else next (om_creation_timestamp (sd_meta s)) \<le> t
   | Some prev \<Rightarrow> next prev \<le> t)"

text \<open>The Backup built by \<open>createBackup\<close>.\<close>

definition scheduled_object :: "scheduled_backup \<Rightarrow> time \<Rightarrow> backup" where
  "scheduled_object s t = \<lparr>
     bk_meta = empty_meta\<lparr>om_name := om_name (sd_meta s) @ ''-'' @ format_stamp t,
       om_namespace := om_namespace (sd_meta s), om_labels := [(ScheduledBackupLabel, om_name (sd_meta s))]\<rparr>,
     bk_spec = \<lparr>ba_cluster = sb_cluster (sd_spec s), ba_method = sb_method (sd_spec s),
       ba_volume_snapshot_class_name = sb_volume_snapshot_class_name (sd_spec s)\<rparr>,
     bk_status = empty_backup_status\<rparr>"

definition createBackup :: "'e scheduler \<Rightarrow> scheduled_backup \<Rightarrow> time \<Rightarrow>
    ('e, scheduled_backup \<times> go_error option) eff" where
  "createBackup r s t =
     (let b = scheduled_object s t;
          done = s\<lparr>sd_status := (sd_status s)\<lparr>su_last_schedule_time := Some t, su_last_backup := om_name (bk_meta b)\<rparr>\<rparr>
      in call (k_create_backup (sr_client r) b) (CreatedBackup b) \<bind> (\<lambda>err. case err of
           Some e \<Rightarrow> if \<not> is_already_exists e then ret (s, Some (Wrap ''create backup'' e)) else ret (done, None)
         | None \<Rightarrow> ret (done, None)))"

text \<open>
  The order of \<open>sort.Slice\<close> in \<open>prune\<close>, as a linear order on the creation time and the name:
  the smaller is the newer, ties broken by the greater name.
\<close>

datatype age = Age time string

instantiation age :: linorder
begin

fun less_eq_age :: "age \<Rightarrow> age \<Rightarrow> bool" where
  "less_eq_age (Age t n) (Age u m) \<longleftrightarrow> u < t \<or> u = t \<and> m \<le> n"

fun less_age :: "age \<Rightarrow> age \<Rightarrow> bool" where
  "less_age (Age t n) (Age u m) \<longleftrightarrow> u < t \<or> u = t \<and> m < n"

instance
proof
  fix x y z :: age
  show "x < y \<longleftrightarrow> x \<le> y \<and> \<not> y \<le> x" by (cases x; cases y) auto
  show "x \<le> x" by (cases x) simp
  show "x \<le> y \<Longrightarrow> y \<le> z \<Longrightarrow> x \<le> z" by (cases x; cases y; cases z) auto
  show "x \<le> y \<Longrightarrow> y \<le> x \<Longrightarrow> x = y" by (cases x; cases y) auto
  show "x \<le> y \<or> y \<le> x" by (cases x; cases y) auto
qed

end

definition backup_age :: "backup \<Rightarrow> age" where
  "backup_age b = Age (om_creation_timestamp (bk_meta b)) (om_name (bk_meta b))"

definition completed :: "backup list \<Rightarrow> backup list" where
  "completed items = filter (\<lambda>b. bt_phase (bk_status b) = BackupPhaseCompleted) items"

text \<open>The loop \<open>for i := keep; i < len(completed); i++\<close> over the tail of the sorted slice.\<close>

fun delete_backups :: "'e scheduler \<Rightarrow> backup list \<Rightarrow> ('e, go_error option) eff" where
  "delete_backups r [] = ret None"
| "delete_backups r (b # bs) = call (k_delete_backup (sr_client r) b) (DeletedBackup b) \<bind> (\<lambda>err.
     case ignore_not_found err of
       Some _ \<Rightarrow> ret (map_option (Wrap (''delete backup '' @ om_name (bk_meta b))) err)
     | None \<Rightarrow> delete_backups r bs)"

text \<open>
  A negative \<open>keep\<close> makes the first iteration index the slice out of range. Backups of one
  namespace have different names, so the sort has no ties to leave open.
\<close>

definition prune :: "'e scheduler \<Rightarrow> scheduled_backup \<Rightarrow> ('e, go_error option go) eff" where
  "prune r s = (case sb_keep (sd_spec s) of
     None \<Rightarrow> ret (Done None)
   | Some keep \<Rightarrow>
       call (k_list_backups (sr_client r) (om_namespace (sd_meta s)) ScheduledBackupLabel (om_name (sd_meta s)))
         (ListedBackups (om_namespace (sd_meta s)) ScheduledBackupLabel (om_name (sd_meta s))) \<bind> (\<lambda>items. case items of
           Inl err \<Rightarrow> ret (Done (Some (Wrap ''list backups'' err)))
         | Inr bs \<Rightarrow>
             if sint keep < 0 then ret (Panic ''index out of range'')
             else delete_backups r (drop (nat (sint keep)) (sort_key backup_age (completed bs)))
               \<bind> (\<lambda>err. ret (Done err))))"

definition tick :: "lib \<Rightarrow> 'e runtime \<Rightarrow> 'e scheduler \<Rightarrow> scheduled_backup \<Rightarrow>
    ('e, (scheduled_backup \<times> reconcile_result) go) eff" where
  "tick l rt r s = (case cron_parse_standard l (sb_schedule (sd_spec s)) of
     Inl err \<Rightarrow>
       let s = schedule_setReady l s ConditionFalse reasonInvalidSchedule (error_text err)
       in ret (Done (s\<lparr>sd_status := (sd_status s)\<lparr>su_next_schedule_time := None\<rparr>\<rparr>, no_requeue, None))
   | Inr parsed \<Rightarrow>
       if sb_suspend (sd_spec s) then
         let s = schedule_setReady l s ConditionTrue reasonSuspended ''no new backups are created while suspended''
         in ret (Done (s\<lparr>sd_status := (sd_status s)\<lparr>su_next_schedule_time := None\<rparr>\<rparr>, no_requeue, None))
       else schedule_now rt r \<bind> (\<lambda>t.
         (if due s parsed t then
            createBackup r s t \<bind> (\<lambda>(s, err). case err of
              Some e \<Rightarrow> ret (Done (s, Some e))
            | None \<Rightarrow> prune r s \<bind> (\<lambda>p. case p of
                Panic m \<Rightarrow> ret (Panic m)
              | Done err \<Rightarrow> ret (Done (s, err))))
          else ret (Done (s, None))) \<bind> (\<lambda>step. case step of
            Panic m \<Rightarrow> ret (Panic m)
          | Done (s, err) \<Rightarrow> (case err of
              Some e \<Rightarrow> ret (Done (s, no_requeue, Some e))
            | None \<Rightarrow>
                let next = parsed t;
                    s = s\<lparr>sd_status := (sd_status s)\<lparr>su_next_schedule_time := Some next\<rparr>\<rparr>;
                    s = schedule_setReady l s ConditionTrue reasonScheduled (''next backup at '' @ format_RFC3339 next)
                in ret (Done (s, \<lparr>requeue_after = time_Sub next t + Second\<rparr>, None))))))"

definition ScheduledBackup_Reconcile :: "lib \<Rightarrow> 'e runtime \<Rightarrow> 'e scheduler \<Rightarrow> string \<Rightarrow> string \<Rightarrow>
    ('e, reconcile_result go) eff" where
  "ScheduledBackup_Reconcile l rt r ns n =
     get_object (k_get_scheduled_backup (sr_client r)) ScheduleObject ns n \<bind> (\<lambda>got. case got of
       Inl err \<Rightarrow> ret (Done (no_requeue, ignore_not_found (Some err)))
     | Inr s \<Rightarrow>
         if \<not> IsZero (om_deletion_timestamp (sd_meta s)) then ret (Done (no_requeue, None))
         else tick l rt r s \<bind> (\<lambda>step. case step of
             Panic m \<Rightarrow> ret (Panic m)
           | Done (changed, result, err) \<Rightarrow> (case err of
               Some e \<Rightarrow> ret (Done (no_requeue, Some e))
             | None \<Rightarrow>
                 patch_status (k_patch_scheduled_backup_status (sr_client r)) ScheduleObject s changed \<bind> (\<lambda>p. case p of
                   Some e \<Rightarrow> ret (Done (no_requeue, Some (Wrap ''update status'' e)))
                 | None \<Rightarrow> ret (Done (result, None))))))"

section \<open>Retention\<close>

lemma set_completed [simp]:
  "b \<in> set (completed bs) \<longleftrightarrow> b \<in> set bs \<and> bt_phase (bk_status b) = BackupPhaseCompleted"
  by (auto simp: completed_def)

text \<open>How many of the listed completed backups are at least as new as a given one.\<close>

definition as_new :: "backup list \<Rightarrow> backup \<Rightarrow> nat" where
  "as_new bs b = length (filter (\<lambda>c. backup_age c \<le> backup_age b) (completed bs))"

lemma filter_sort_key_length:
  "length (filter P (sort_key f xs)) = length (filter P xs)"
  by (metis mset_filter mset_sort size_mset)

lemma dropped_as_new:
  assumes "b \<in> set (drop k (sort_key backup_age (completed bs)))"
  shows "k < as_new bs b"
proof -
  let ?xs = "sort_key backup_age (completed bs)"
  from assms obtain i where "i < length (drop k ?xs)" "drop k ?xs ! i = b"
    unfolding in_set_conv_nth by blast
  then have i: "k + i < length ?xs" "?xs ! (k + i) = b" by simp_all
  have older: "backup_age c \<le> backup_age b" if "c \<in> set (take (Suc (k + i)) ?xs)" for c
  proof -
    from that obtain j where j: "j \<le> k + i" "?xs ! j = c"
      by (auto simp: in_set_conv_nth less_Suc_eq_le)
    have "sorted (map backup_age ?xs)" by simp
    from sorted_nth_mono [OF this j(1)] i(1) j show ?thesis by (simp add: i(2))
  qed
  have "Suc (k + i) = length (filter (\<lambda>c. backup_age c \<le> backup_age b) (take (Suc (k + i)) ?xs))"
    using i(1) older by (simp add: filter_id_conv)
  also have "\<dots> \<le> length (filter (\<lambda>c. backup_age c \<le> backup_age b)
      (take (Suc (k + i)) ?xs @ drop (Suc (k + i)) ?xs))"
    by (simp only: filter_append length_append le_add1)
  also have "\<dots> = as_new bs b"
    by (simp only: append_take_drop_id as_new_def filter_sort_key_length)
  finally show ?thesis by simp
qed

text \<open>The wanted number is met exactly: what is kept are the newest.\<close>

lemma kept_and_dropped:
  "mset (take k (sort_key backup_age xs)) + mset (drop k (sort_key backup_age xs)) = mset xs"
  by (metis append_take_drop_id mset_append mset_sort)

lemma kept_newer:
  assumes "b \<in> set (drop k (sort_key backup_age xs))" "c \<in> set (take k (sort_key backup_age xs))"
  shows "backup_age c \<le> backup_age b"
proof -
  have "sorted (map backup_age (take k (sort_key backup_age xs)) @ map backup_age (drop k (sort_key backup_age xs)))"
    by (metis append_take_drop_id map_append sorted_sort_key)
  with assms show ?thesis by (auto simp: sorted_append)
qed

section \<open>The rule of a reconcile\<close>

record schedule_watch =
  sw_schedule :: "scheduled_backup option"
  sw_clock :: "time option"
  sw_created :: "(backup \<times> bool) option"
  sw_listed :: "backup list option"
  sw_failed :: bool
  sw_recorded :: bool

definition schedule_watch_start :: schedule_watch where
  "schedule_watch_start = \<lparr>sw_schedule = None, sw_clock = None, sw_created = None, sw_listed = None,
     sw_failed = False, sw_recorded = False\<rparr>"

definition creation_ok :: "lib \<Rightarrow> schedule_watch \<Rightarrow> backup \<Rightarrow> bool" where
  "creation_ok l w b = (case (sw_schedule w, sw_clock w) of
     (Some s, Some t) \<Rightarrow> IsZero (om_deletion_timestamp (sd_meta s)) \<and> \<not> sb_suspend (sd_spec s) \<and>
       (case cron_parse_standard l (sb_schedule (sd_spec s)) of Inl _ \<Rightarrow> False | Inr next \<Rightarrow> due s next t) \<and>
       sw_created w = None \<and> b = scheduled_object s t
   | _ \<Rightarrow> False)"

definition deletion_ok :: "schedule_watch \<Rightarrow> backup \<Rightarrow> bool" where
  "deletion_ok w b = (case (sw_schedule w, sw_listed w) of
     (Some s, Some bs) \<Rightarrow> map_option snd (sw_created w) = Some True \<and> \<not> sw_failed w \<and> b \<in> set bs \<and>
       bt_phase (bk_status b) = BackupPhaseCompleted \<and>
       (case sb_keep (sd_spec s) of None \<Rightarrow> False | Some keep \<Rightarrow> sint keep < int (as_new bs b))
   | _ \<Rightarrow> False)"

text \<open>
  The status written agrees with what the run did: a Backup taken is recorded, none is made up,
  and no call of the prune has failed.
\<close>

definition recorded :: "schedule_watch \<Rightarrow> scheduled_backup \<Rightarrow> scheduled_backup \<Rightarrow> bool" where
  "recorded w old new \<longleftrightarrow> sw_schedule w = Some old \<and> sd_meta new = sd_meta old \<and> sd_spec new = sd_spec old \<and>
     \<not> sw_failed w \<and> (case sw_created w of
        None \<Rightarrow> su_last_schedule_time (sd_status new) = su_last_schedule_time (sd_status old) \<and>
          su_last_backup (sd_status new) = su_last_backup (sd_status old)
      | Some (b, taken) \<Rightarrow> taken \<and> su_last_schedule_time (sd_status new) = sw_clock w \<and>
          su_last_backup (sd_status new) = om_name (bk_meta b))"

definition status_ok :: "schedule_watch \<Rightarrow> scheduled_backup \<Rightarrow> scheduled_backup \<Rightarrow> bool" where
  "status_ok w old new \<longleftrightarrow> IsZero (om_deletion_timestamp (sd_meta old)) \<and> recorded w old new"

definition schedule_rule :: "lib \<Rightarrow> schedule_watch \<Rightarrow> event \<Rightarrow> schedule_watch option" where
  "schedule_rule l w e = (case e of
     GotObject _ _ r \<Rightarrow> Some (schedule_watch_start\<lparr>sw_schedule :=
       (case r of Inr (ScheduleObject s) \<Rightarrow> Some s | _ \<Rightarrow> None)\<rparr>)
   | ReadClock t \<Rightarrow> Some (w\<lparr>sw_clock := Some t\<rparr>)
   | CreatedBackup b r \<Rightarrow> if creation_ok l w b then Some (w\<lparr>sw_created := Some (b, accepted r)\<rparr>) else None
   | ListedBackups ns k v r \<Rightarrow> (case sw_schedule w of
       Some s \<Rightarrow> if (ns, k, v) = (om_namespace (sd_meta s), ScheduledBackupLabel, om_name (sd_meta s))
         then Some (w\<lparr>sw_listed := (case r of Inl _ \<Rightarrow> None | Inr bs \<Rightarrow> Some bs), sw_failed := \<exists>err. r = Inl err\<rparr>)
         else None
     | None \<Rightarrow> None)
   | DeletedBackup b r \<Rightarrow> if deletion_ok w b then Some (w\<lparr>sw_failed := ignore_not_found r \<noteq> None\<rparr>) else None
   | PatchedStatus (ScheduleObject old) (ScheduleObject new) r \<Rightarrow>
       if status_ok w old new \<and> \<not> sw_recorded w then Some (w\<lparr>sw_recorded := r = None\<rparr>) else None
   | _ \<Rightarrow> None)"

definition same_run :: "schedule_watch \<Rightarrow> schedule_watch \<Rightarrow> bool" where
  "same_run w w' \<longleftrightarrow> sw_schedule w' = sw_schedule w \<and> sw_clock w' = sw_clock w \<and> sw_created w' = sw_created w"

lemma delete_backups_rule:
  assumes "\<forall>b \<in> set bs. deletion_ok w b" "\<not> sw_failed w"
  shows "wp (schedule_rule l) (delete_backups r bs) (\<lambda>err w'. same_run w w' \<and> (err = None \<longrightarrow> \<not> sw_failed w')) w"
  using assms(1)
proof (induction bs)
  case (Cons b bs)
  have same: "w\<lparr>sw_failed := False\<rparr> = w" using assms(2) by simp
  show ?case
    unfolding delete_backups.simps
  proof (rule wp_bind, rule wp_call)
    show "case schedule_rule l w (DeletedBackup b a) of None \<Rightarrow> False
      | Some w1 \<Rightarrow> wp (schedule_rule l) (case ignore_not_found a of
            Some _ \<Rightarrow> ret (map_option (Wrap (''delete backup '' @ om_name (bk_meta b))) a)
          | None \<Rightarrow> delete_backups r bs) (\<lambda>err w'. same_run w w' \<and> (err = None \<longrightarrow> \<not> sw_failed w')) w1" for a
    proof -
      have deleted: "schedule_rule l w (DeletedBackup b a) = Some (w\<lparr>sw_failed := ignore_not_found a \<noteq> None\<rparr>)"
        using Cons.prems by (simp add: schedule_rule_def)
      have "a \<noteq> None" if "ignore_not_found a \<noteq> None" using that by (cases a) (simp_all add: ignore_not_found_def)
      then show ?thesis
        using Cons by (cases "ignore_not_found a") (auto intro!: wp_ret simp: deleted same same_run_def)
    qed
  qed
qed (simp add: wp_ret assms(2) same_run_def)

lemma prune_rule:
  assumes "sw_schedule w = Some s0" "map_option snd (sw_created w) = Some True"
    and "sd_meta s = sd_meta s0" "sd_spec s = sd_spec s0" "\<not> sw_failed w"
  shows "wp (schedule_rule l) (prune r s) (\<lambda>p w'. same_run w w' \<and> (p = Done None \<longrightarrow> \<not> sw_failed w')) w"
proof -
  let ?post = "\<lambda>p w'. same_run w w' \<and> (p = Done None \<longrightarrow> \<not> sw_failed w')"
  have deleted: "wp (schedule_rule l) (delete_backups r (drop (nat (sint keep)) (sort_key backup_age (completed bs)))
      \<bind> (\<lambda>err. ret (Done err))) ?post (w\<lparr>sw_listed := Some bs\<rparr>)"
    if "sb_keep (sd_spec s) = Some keep" "\<not> sint keep < 0" for keep bs
  proof (rule wp_bind, rule wp_weaken [OF delete_backups_rule], rule ballI)
    fix b
    assume b: "b \<in> set (drop (nat (sint keep)) (sort_key backup_age (completed bs)))"
    from in_set_dropD [OF b] dropped_as_new [OF b] that assms
    show "deletion_ok (w\<lparr>sw_listed := Some bs\<rparr>) b"
      by (simp add: deletion_ok_def nat_less_iff)
  next
    fix err w'
    assume "same_run (w\<lparr>sw_listed := Some bs\<rparr>) w' \<and> (err = None \<longrightarrow> \<not> sw_failed w')"
    then show "wp (schedule_rule l) (ret (Done err)) ?post w'"
      by (simp add: wp_ret same_run_def)
  qed (simp add: assms(5))
  have listed: "schedule_rule l w (ListedBackups (om_namespace (sd_meta s)) ScheduledBackupLabel (om_name (sd_meta s)) r)
      = Some (w\<lparr>sw_listed := (case r of Inl _ \<Rightarrow> None | Inr bs \<Rightarrow> Some bs), sw_failed := \<exists>err. r = Inl err\<rparr>)" for r
    using assms by (simp add: schedule_rule_def)
  have same: "w\<lparr>sw_listed := x, sw_failed := False\<rparr> = w\<lparr>sw_listed := x\<rparr>" for x
    using assms(5) by simp
  show ?thesis
    unfolding prune_def
  proof (rule wp_option, goal_cases)
    case 1
    show ?case by (rule wp_ret) (simp add: same_run_def assms(5))
  next
    case (2 keep)
    show ?case
    proof (rule wp_bind, rule wp_call, simp only: listed option.case, rule wp_sum, goal_cases)
      case (1 items e)
      show ?case by (rule wp_ret) (simp add: same_run_def)
    next
      case (2 items bs)
      show ?case
        by (rule wp_if) (use deleted [OF \<open>sb_keep (sd_spec s) = Some keep\<close>, of bs] 2 same in
          \<open>auto intro!: wp_ret simp: same_run_def\<close>)
    qed
  qed
qed

lemma tick_rule:
  assumes "w = schedule_watch_start\<lparr>sw_schedule := Some s\<rparr>" "IsZero (om_deletion_timestamp (sd_meta s))"
  shows "wp (schedule_rule l) (tick l rt r s)
    (\<lambda>step w'. \<forall>s' result. step = Done (s', result, None) \<longrightarrow> status_ok w' s s') w"
proof -
  have clock: "wp (schedule_rule l) (schedule_now rt r) (\<lambda>t w'. w' = w\<lparr>sw_clock := Some t\<rparr>) w"
    unfolding schedule_now_def now_def by (auto intro!: wp_intro simp: schedule_rule_def)
  have created: "wp (schedule_rule l) (createBackup r s t)
      (\<lambda>(s', err) w'. err = None \<longrightarrow> recorded w' s s' \<and> map_option snd (sw_created w') = Some True) (w\<lparr>sw_clock := Some t\<rparr>)"
    if "cron_parse_standard l (sb_schedule (sd_spec s)) = Inr parsed" "\<not> sb_suspend (sd_spec s)" "due s parsed t"
    for t parsed
    unfolding createBackup_def Let_def
    using that assms
    by (auto intro!: wp_intro simp: schedule_rule_def creation_ok_def schedule_watch_start_def accepted_def recorded_def ex_bool_eq)
  have body: "wp (schedule_rule l)
      (if due s parsed t then
            createBackup r s t \<bind> (\<lambda>(s, err). case err of
              Some e \<Rightarrow> ret (Done (s, Some e))
            | None \<Rightarrow> prune r s \<bind> (\<lambda>p. case p of
                Panic m \<Rightarrow> ret (Panic m)
              | Done err \<Rightarrow> ret (Done (s, err))))
          else ret (Done (s, None)))
      (\<lambda>step w'. \<forall>s'. step = Done (s', None) \<longrightarrow> recorded w' s s') (w\<lparr>sw_clock := Some t\<rparr>)"
    if parsed: "cron_parse_standard l (sb_schedule (sd_spec s)) = Inr parsed" "\<not> sb_suspend (sd_spec s)" for t parsed
  proof (rule wp_if)
    assume "due s parsed t"
    show "wp (schedule_rule l) (createBackup r s t \<bind> (\<lambda>(s, err). case err of
              Some e \<Rightarrow> ret (Done (s, Some e))
            | None \<Rightarrow> prune r s \<bind> (\<lambda>p. case p of
                Panic m \<Rightarrow> ret (Panic m)
              | Done err \<Rightarrow> ret (Done (s, err)))))
      (\<lambda>step w'. \<forall>s'. step = Done (s', None) \<longrightarrow> recorded w' s s') (w\<lparr>sw_clock := Some t\<rparr>)"
    proof (rule wp_bind, rule wp_weaken [OF created [OF parsed \<open>due s parsed t\<close>]], clarify)
      fix s' :: scheduled_backup and err :: "go_error option" and w'
      assume ok: "err = None \<longrightarrow> recorded w' s s' \<and> map_option snd (sw_created w') = Some True"
      show "wp (schedule_rule l) (case err of
              Some e \<Rightarrow> ret (Done (s', Some e))
            | None \<Rightarrow> prune r s' \<bind> (\<lambda>p. case p of
                Panic m \<Rightarrow> ret (Panic m)
              | Done err \<Rightarrow> ret (Done (s', err))))
          (\<lambda>step w'. \<forall>s'. step = Done (s', None) \<longrightarrow> recorded w' s s') w'"
      proof (rule wp_option, goal_cases)
        case 1
        have pruned: "wp (schedule_rule l) (prune r s')
            (\<lambda>p w''. same_run w' w'' \<and> (p = Done None \<longrightarrow> \<not> sw_failed w'')) w'"
          by (rule prune_rule [of _ s]) (use ok 1 in \<open>auto simp: recorded_def\<close>)
        show ?case
        proof (rule wp_bind, rule wp_weaken [OF pruned])
          fix p w''
          assume "same_run w' w'' \<and> (p = Done None \<longrightarrow> \<not> sw_failed w'')"
          then have "p = Done None \<Longrightarrow> recorded w'' s s'" using ok 1
            by (auto simp: same_run_def recorded_def split: option.splits)
          then show "wp (schedule_rule l) (case p of Panic m \<Rightarrow> ret (Panic m) | Done err \<Rightarrow> ret (Done (s', err)))
              (\<lambda>step w'. \<forall>s'. step = Done (s', None) \<longrightarrow> recorded w' s s') w''"
            by (cases p) (auto intro!: wp_ret)
        qed
      next
        case (2 e)
        then show ?case by (simp add: wp_ret)
      qed
    qed
  next
    show "wp (schedule_rule l) (ret (Done (s, None))) (\<lambda>step w'. \<forall>s'. step = Done (s', None) \<longrightarrow> recorded w' s s')
        (w\<lparr>sw_clock := Some t\<rparr>)"
      by (rule wp_ret) (simp add: assms schedule_watch_start_def recorded_def)
  qed
  have final: "status_ok w' s (schedule_setReady l (s'\<lparr>sd_status := (sd_status s')\<lparr>su_next_schedule_time := n\<rparr>\<rparr>) c rsn m)"
    if "recorded w' s s'" for w' s' n c rsn m
    using that assms(2)
    by (auto simp: status_ok_def recorded_def schedule_setReady_def split: option.splits)
  show ?thesis
    unfolding tick_def
  proof (rule wp_sum, goal_cases)
    case (1 err)
    show ?case using assms
      by (auto intro!: wp_ret simp: Let_def status_ok_def recorded_def schedule_setReady_def schedule_watch_start_def)
  next
    case (2 parsed)
    show ?case
    proof (rule wp_if, goal_cases)
      case 1
      show ?case using assms
        by (auto intro!: wp_ret simp: Let_def status_ok_def recorded_def schedule_setReady_def schedule_watch_start_def)
    next
      case running: 2
      show ?case
      proof (rule wp_bind, rule wp_weaken [OF clock], simp only:, rule wp_bind,
          rule wp_weaken [OF body [OF \<open>cron_parse_standard l (sb_schedule (sd_spec s)) = Inr parsed\<close> running]])
        fix t step w'
        assume ok: "\<forall>s'. step = Done (s', None) \<longrightarrow> recorded w' s s'"
        show "wp (schedule_rule l) (case step of
            Panic m \<Rightarrow> ret (Panic m)
          | Done (s, err) \<Rightarrow> (case err of
              Some e \<Rightarrow> ret (Done (s, no_requeue, Some e))
            | None \<Rightarrow>
                let next = parsed t;
                    s = s\<lparr>sd_status := (sd_status s)\<lparr>su_next_schedule_time := Some next\<rparr>\<rparr>;
                    s = schedule_setReady l s ConditionTrue reasonScheduled (''next backup at '' @ format_RFC3339 next)
                in ret (Done (s, \<lparr>requeue_after = time_Sub next t + Second\<rparr>, None))))
          (\<lambda>step w'. \<forall>s' result. step = Done (s', result, None) \<longrightarrow> status_ok w' s s') w'"
        proof (cases step)
          case (Done x)
          obtain s' err where "x = (s', err)" by (cases x)
          with Done ok final [of w' s'] show ?thesis
            by (cases err) (auto intro!: wp_ret simp: Let_def)
        qed (simp add: wp_ret)
      qed
    qed
  qed
qed

text \<open>A tick writes no status.\<close>

fun tick_event :: "event \<Rightarrow> bool" where
  "tick_event (ReadClock _) = True"
| "tick_event (CreatedBackup _ _) = True"
| "tick_event (ListedBackups _ _ _ _) = True"
| "tick_event (DeletedBackup _ _) = True"
| "tick_event _ = False"

lemma delete_backups_events: "emits (delete_backups r bs) (\<lambda>_ es. list_all tick_event es)"
  by (induction bs) (auto intro!: emits_intro)

lemma tick_events: "emits (tick l rt r s) (\<lambda>_ es. list_all tick_event es)"
  unfolding tick_def createBackup_def prune_def schedule_now_def now_def Let_def
  by (auto intro!: emits_intro emits_weaken [OF delete_backups_events])

lemma tick_event_keeps:
  "tick_event e \<Longrightarrow> schedule_rule l w e = Some w' \<Longrightarrow>
    sw_recorded w' = sw_recorded w \<and> sw_schedule w' = sw_schedule w"
  by (cases e) (auto simp: schedule_rule_def split: if_splits option.splits)

lemma tick_events_keep:
  "list_all tick_event es \<Longrightarrow> watch (schedule_rule l) w es = Some w' \<Longrightarrow>
    sw_recorded w' = sw_recorded w \<and> sw_schedule w' = sw_schedule w"
proof (induction es arbitrary: w)
  case (Cons e es)
  then obtain w1 where "schedule_rule l w e = Some w1" "watch (schedule_rule l) w1 es = Some w'"
    by (auto split: option.splits)
  with Cons tick_event_keeps [of e l w w1] show ?case by simp
qed simp

lemma wp_tick_keeps:
  assumes "wp (schedule_rule l) (tick l' rt r s) Q w"
  shows "wp (schedule_rule l) (tick l' rt r s)
    (\<lambda>step w'. Q step w' \<and> sw_recorded w' = sw_recorded w \<and> sw_schedule w' = sw_schedule w) w"
  unfolding wp_def
proof (rule emits_weaken [OF iffD2 [OF emits_conj, OF conjI [OF assms [unfolded wp_def] tick_events]]], elim conjE exE)
  fix step es w'
  assume "list_all tick_event es" "watch (schedule_rule l) w es = Some w'" "Q step w'"
  with tick_events_keep [OF this(1,2)] show "\<exists>w'. watch (schedule_rule l) w es = Some w' \<and> Q step w' \<and>
      sw_recorded w' = sw_recorded w \<and> sw_schedule w' = sw_schedule w"
    by (intro exI [where x = w']) blast
qed

text \<open>How a run ends: a status is written, and taken, exactly by a run on a live schedule that
  returns no error.\<close>

definition schedule_ended :: "reconcile_result go \<Rightarrow> schedule_watch \<Rightarrow> bool" where
  "schedule_ended r w \<longleftrightarrow> sw_recorded w =
     ((case r of Done (_, None) \<Rightarrow> True | _ \<Rightarrow> False) \<and>
      (case sw_schedule w of Some s \<Rightarrow> IsZero (om_deletion_timestamp (sd_meta s)) | None \<Rightarrow> False))"

lemma ScheduledBackup_Reconcile_rule:
  "wp (schedule_rule l) (ScheduledBackup_Reconcile l rt r ns n) schedule_ended w"
proof -
  have got: "wp (schedule_rule l) (get_object f ScheduleObject ns n)
      (\<lambda>x w'. w' = schedule_watch_start\<lparr>sw_schedule := (case x of Inl _ \<Rightarrow> None | Inr s \<Rightarrow> Some s)\<rparr>) w" for f
    unfolding get_object_def by (rule wp_call) (simp add: schedule_rule_def split: sum.splits)
  have patched: "wp (schedule_rule l) (patch_status f ScheduleObject s s') (\<lambda>p w2.
        w2 = w'\<lparr>sw_recorded := p = None\<rparr>) w'"
    if "status_ok w' s s'" "\<not> sw_recorded w'" for f s s' w'
    unfolding patch_status_def by (rule wp_call) (simp add: schedule_rule_def that)
  show ?thesis
    unfolding ScheduledBackup_Reconcile_def
  proof (rule wp_bind, rule wp_weaken [OF got], rule wp_sum, goal_cases)
    case (1 x w' e)
    then show ?case by (auto intro!: wp_ret simp: schedule_ended_def schedule_watch_start_def split: option.splits)
  next
    case (2 x w' s)
    then have w': "w' = schedule_watch_start\<lparr>sw_schedule := Some s\<rparr>" by simp
    have start: "\<not> sw_recorded w'" "sw_schedule w' = Some s" by (simp_all add: w' schedule_watch_start_def)
    show ?case
    proof (rule wp_if, goal_cases)
      case 1
      with start show ?case by (auto intro!: wp_ret simp: schedule_ended_def)
    next
      case live: 2
      then have zero: "IsZero (om_deletion_timestamp (sd_meta s))" by simp
      show ?case
      proof (rule wp_bind, rule wp_weaken [OF wp_tick_keeps [OF tick_rule [OF w' zero]]])
        fix step :: "(scheduled_backup \<times> reconcile_result) go" and w''
        assume "(\<forall>s' result. step = Done (s', result, None) \<longrightarrow> status_ok w'' s s') \<and>
          sw_recorded w'' = sw_recorded w' \<and> sw_schedule w'' = sw_schedule w'"
        then have ok: "step = Done (s', result, None) \<Longrightarrow> status_ok w'' s s'" "\<not> sw_recorded w''"
          "sw_schedule w'' = Some s" for s' result
          using start by auto
        show "wp (schedule_rule l) (case step of
               Panic m \<Rightarrow> ret (Panic m)
             | Done (changed, result, err) \<Rightarrow> (case err of
                 Some e \<Rightarrow> ret (Done (no_requeue, Some e))
               | None \<Rightarrow>
                   patch_status (k_patch_scheduled_backup_status (sr_client r)) ScheduleObject s changed \<bind> (\<lambda>p. case p of
                     Some e \<Rightarrow> ret (Done (no_requeue, Some (Wrap ''update status'' e)))
                   | None \<Rightarrow> ret (Done (result, None))))) schedule_ended w''"
          using ok zero
          by (auto intro!: wp_go wp_prod wp_option wp_ret wp_bind wp_weaken [OF patched] simp: schedule_ended_def)
      qed
    qed
  qed
qed

text \<open>C21. A reconcile of a schedule creates a Backup only when the schedule read is not being
  deleted, not suspended, parses, and is due at the clock reading taken; at most one, and exactly
  the one the schedule describes. It deletes only after that creation was taken, and only
  completed Backups of the schedule's own list that have at least \<open>keep\<close> completed ones at
  least as new besides themselves, none after a deletion that failed. It writes at most one
  status, only when no call of the prune failed; the status records the Backup taken and its
  time, and changes neither when none was. And the status is taken by the API exactly in the
  runs on a live schedule that return no error: a run that created a Backup and then failed
  to prune or to write the status returns an error, or panics, and leaves it unrecorded.\<close>

theorem schedule_follows_rule:
  "\<exists>w. watch (schedule_rule l) schedule_watch_start (trace_of (ScheduledBackup_Reconcile l rt r ns n) e) = Some w \<and>
    schedule_ended (result_of (ScheduledBackup_Reconcile l rt r ns n) e) w"
  by (rule wpD [OF ScheduledBackup_Reconcile_rule])

section \<open>What a prune leaves\<close>

definition deleted_in :: "event list \<Rightarrow> backup list" where
  "deleted_in es = concat (map (\<lambda>ev. case ev of DeletedBackup b _ \<Rightarrow> [b] | _ \<Rightarrow> []) es)"

definition listed_in :: "event list \<Rightarrow> backup list list" where
  "listed_in es = concat (map (\<lambda>ev. case ev of ListedBackups _ _ _ (Inr bs) \<Rightarrow> [bs] | _ \<Rightarrow> []) es)"

lemma events_in_append [simp]:
  "deleted_in (es @ fs) = deleted_in es @ deleted_in fs" "listed_in (es @ fs) = listed_in es @ listed_in fs"
  by (simp_all add: deleted_in_def listed_in_def)

lemma emits_delete_backups:
  "emits (delete_backups r bs) (\<lambda>err es. listed_in es = [] \<and> (\<exists>k. deleted_in es = take k bs) \<and>
     (err = None \<longrightarrow> deleted_in es = bs))"
proof (induction bs)
  case Nil
  show ?case by (simp add: emits_ret deleted_in_def listed_in_def)
next
  case (Cons b bs)
  show ?case
    unfolding delete_backups.simps
  proof (intro emits_bind emits_call, rule emits_option)
    fix r' :: "go_error option"
    show "emits (delete_backups r bs) (\<lambda>err es. listed_in ([DeletedBackup b r'] @ es) = [] \<and>
        (\<exists>k. deleted_in ([DeletedBackup b r'] @ es) = take k (b # bs)) \<and>
        (err = None \<longrightarrow> deleted_in ([DeletedBackup b r'] @ es) = b # bs))"
      by (rule emits_weaken [OF Cons.IH])
        (auto simp: deleted_in_def listed_in_def intro: exI [where x = "Suc k" for k])
  next
    fix r' :: "go_error option" and e
    assume "ignore_not_found r' = Some e"
    then have "r' \<noteq> None" by (cases r') auto
    then show "emits (ret (map_option (Wrap (''delete backup '' @ om_name (bk_meta b))) r'))
        (\<lambda>err es. listed_in ([DeletedBackup b r'] @ es) = [] \<and>
          (\<exists>k. deleted_in ([DeletedBackup b r'] @ es) = take k (b # bs)) \<and>
          (err = None \<longrightarrow> deleted_in ([DeletedBackup b r'] @ es) = b # bs))"
      by (auto intro!: emits_ret exI [where x = 1] simp: deleted_in_def listed_in_def)
  qed
qed

definition pruned_ok :: "scheduled_backup \<Rightarrow> backup list \<Rightarrow> backup list \<Rightarrow> bool" where
  "pruned_ok s bs gone \<longleftrightarrow> (case sb_keep (sd_spec s) of
     None \<Rightarrow> gone = []
   | Some keep \<Rightarrow> (\<exists>kept. mset kept + mset gone = mset (completed bs) \<and>
       length kept = min (nat (sint keep)) (length (completed bs)) \<and>
       list_all (\<lambda>b. list_all (\<lambda>c. backup_age c \<le> backup_age b) kept) gone))"

lemma prune_result:
  "emits (prune r s) (\<lambda>res es. res = Done None \<longrightarrow>
     (sb_keep (sd_spec s) = None \<and> es = []) \<or> (\<exists>bs. listed_in es = [bs] \<and> pruned_ok s bs (deleted_in es)))"
  unfolding prune_def
proof (rule emits_option, goal_cases)
  case 1
  then show ?case by (simp add: emits_ret)
next
  case (2 keep)
  have ok: "pruned_ok s bs (drop (nat (sint keep)) (sort_key backup_age (completed bs)))" for bs
    unfolding pruned_ok_def 2 option.case
    by (rule exI [where x = "take (nat (sint keep)) (sort_key backup_age (completed bs))"])
      (auto simp: kept_and_dropped list_all_iff kept_newer)
  show ?case
  proof (intro emits_bind emits_call, rule emits_sum, simp add: emits_ret, rule emits_if, simp add: emits_ret,
      rule emits_bind, rule emits_weaken [OF emits_delete_backups], rule emits_ret, goal_cases)
    case (1 items bs err es)
    then show ?case using ok [of bs] by (auto simp: listed_in_def deleted_in_def)
  qed
qed

text \<open>C11. A prune that ends without an error has deleted all but the newest \<open>keep\<close> of the completed
  Backups it listed: those kept and those deleted make up the completed ones, exactly \<open>keep\<close>
  are kept (all of them when there are fewer), and every kept one is at least as new as every
  deleted one. Without \<open>keep\<close> nothing is listed and nothing deleted.\<close>

theorem prune_keeps_newest:
  assumes "result_of (prune r s) e = Done None"
  shows "(sb_keep (sd_spec s) = None \<and> trace_of (prune r s) e = []) \<or>
    (\<exists>bs. listed_in (trace_of (prune r s) e) = [bs] \<and> pruned_ok s bs (deleted_in (trace_of (prune r s) e)))"
  using emitsD [OF prune_result, of r s e] assms by blast

section \<open>Waking up\<close>

text \<open>
  What \<open>Next\<close> promises of an expression that always fires again: the result is later than the
  argument, and it is the next one, so no time in between has another.
\<close>

definition activation_law :: "cron_schedule \<Rightarrow> bool" where
  "activation_law next \<longleftrightarrow> (\<forall>t. t < next t) \<and> (\<forall>t u. t \<le> u \<longrightarrow> u < next t \<longrightarrow> next u = next t)"

text \<open>The times a schedule counts from: its last run, or its creation.\<close>

definition counts_from :: "scheduled_backup \<Rightarrow> time" where
  "counts_from s = (case su_last_schedule_time (sd_status s) of
     None \<Rightarrow> om_creation_timestamp (sd_meta s) | Some prev \<Rightarrow> prev)"

lemma createBackup_status:
  "emits (createBackup r s t) (\<lambda>(s', err) es. err = None \<longrightarrow>
     sd_meta s' = sd_meta s \<and> sd_spec s' = sd_spec s \<and> su_last_schedule_time (sd_status s') = Some t)"
  unfolding createBackup_def Let_def by (auto intro!: emits_intro)

definition ticked :: "scheduled_backup \<Rightarrow> cron_schedule \<Rightarrow> time \<Rightarrow> scheduled_backup \<Rightarrow> ctrl_result \<Rightarrow> bool" where
  "ticked s next t s' res \<longleftrightarrow> sd_meta s' = sd_meta s \<and> sd_spec s' = sd_spec s \<and>
     su_last_schedule_time (sd_status s') = (if due s next t then Some t else su_last_schedule_time (sd_status s)) \<and>
     su_next_schedule_time (sd_status s') = Some (next t) \<and> res = \<lparr>requeue_after = time_Sub (next t) t + Second\<rparr>"

lemma tick_status:
  assumes "cron_parse_standard l (sb_schedule (sd_spec s)) = Inr next" "\<not> sb_suspend (sd_spec s)"
  shows "emits (tick l rt r s) (\<lambda>step es. \<forall>s' res. step = Done (s', res, None) \<longrightarrow>
    (\<exists>t. hd es = ReadClock t \<and> ticked s next t s' res))"
proof -
  let ?s = "\<lambda>s t. schedule_setReady l (s\<lparr>sd_status := (sd_status s)\<lparr>su_next_schedule_time := Some (next t)\<rparr>\<rparr>)
      ConditionTrue reasonScheduled (''next backup at '' @ format_RFC3339 (next t))"
  have clock: "emits (schedule_now rt r) (\<lambda>t es. es = [ReadClock t])"
    unfolding schedule_now_def by (auto intro!: emits_intro)
  have body: "emits (if due s next t then
            createBackup r s t \<bind> (\<lambda>(s, err). case err of
              Some e \<Rightarrow> ret (Done (s, Some e))
            | None \<Rightarrow> prune r s \<bind> (\<lambda>p. case p of
                Panic m \<Rightarrow> ret (Panic m)
              | Done err \<Rightarrow> ret (Done (s, err))))
          else ret (Done (s, None)))
      (\<lambda>step es. \<forall>s'. step = Done (s', None) \<longrightarrow> sd_meta s' = sd_meta s \<and> sd_spec s' = sd_spec s \<and>
        su_last_schedule_time (sd_status s') = (if due s next t then Some t else su_last_schedule_time (sd_status s)))" for t
  proof (rule emits_if, goal_cases)
    case 1
    have pruned: "emits (prune r s') (\<lambda>_ _. True)" for s'
      by (rule emits_weaken [OF prune_result]) simp
    show ?case
      using 1 by (auto intro!: emits_bind emits_weaken [OF createBackup_status] emits_option emits_ret
        emits_weaken [OF pruned] emits_go)
  next
    case 2
    then show ?case by (simp add: emits_ret)
  qed
  have last: "ticked s next t (?s s' t) \<lparr>requeue_after = time_Sub (next t) t + Second\<rparr>"
    if "sd_meta s' = sd_meta s \<and> sd_spec s' = sd_spec s \<and>
        su_last_schedule_time (sd_status s') = (if due s next t then Some t else su_last_schedule_time (sd_status s))" for s' t
    using that by (simp add: ticked_def schedule_setReady_def)
  show ?thesis
    unfolding tick_def assms(1) sum.case Let_def if_not_P [OF assms(2)]
    by (rule emits_bind, rule emits_weaken [OF clock], simp only:, rule emits_bind, rule emits_weaken [OF body])
      (auto intro!: emits_go emits_prod emits_option emits_ret last)
qed

text \<open>C10. A schedule that ran wakes up for its next Backup and not before: when its expression
  always fires again, after a tick at clock reading \<open>t\<close> no time before the next activation is
  due, the time of the requeue is, and the status names the activation, provided the schedule
  was not counting from the future and the activation is within 146 years.\<close>

theorem schedule_wakes_when_due:
  assumes "cron_parse_standard l (sb_schedule (sd_spec s)) = Inr next" "activation_law next"
    and "\<not> sb_suspend (sd_spec s)" "result_of (tick l rt r s) e = Done (s', res, None)"
    and "hd (trace_of (tick l rt r s) e) = ReadClock t" "counts_from s \<le> t" "next t - t < 2 ^ 62"
  shows "\<not> (t \<le> u \<and> u < next t \<and> due s' next u) \<and> due s' next (t + sint (requeue_after res)) \<and>
    t < t + sint (requeue_after res) \<and> su_next_schedule_time (sd_status s') = Some (next t)"
proof -
  have tick: "ticked s next t s' res"
    using emitsD [OF tick_status [OF assms(1,3)], of rt r e] assms(4,5) by auto
  have later: "t < next t" and same: "\<And>p. p \<le> t \<Longrightarrow> t < next p \<Longrightarrow> next t = next p"
    using assms(2) unfolding activation_law_def by blast+
  have bounds: "- (2 ^ 63) \<le> next t - t + 10 ^ 9" "next t - t + 10 ^ 9 < (2 ^ 63 :: int)"
    using later assms(7) by simp_all
  have after: "requeue_after res = word_of_int (next t - t + 10 ^ 9)"
    using tick later assms(7) by (simp add: ticked_def time_Sub_def Second_def max_def min_def)
  have requeue: "sint (requeue_after res) = next t - t + 10 ^ 9"
    unfolding after sint_sbintrunc' by (rule signed_take_bit_int_eq_self) (use bounds in simp_all)
  have due: "due s' next v \<longleftrightarrow> next t \<le> v" if "t \<le> v" for v
  proof (cases "due s next t")
    case True
    then show ?thesis using tick by (simp add: ticked_def due_def)
  next
    case False
    then have "t < next (counts_from s)" "\<not> (su_last_schedule_time (sd_status s) = None \<and> sb_immediate (sd_spec s))"
      by (auto simp: due_def counts_from_def split: option.splits if_splits)
    with same [OF assms(6)] False tick show ?thesis
      by (auto simp: ticked_def due_def counts_from_def split: option.splits)
  qed
  show ?thesis
    using due [of u] due [of "t + sint (requeue_after res)"] requeue later tick by (auto simp: ticked_def)
qed

text \<open>C39. An expression that never fires again, for which \<open>Next\<close> answers the zero time, is due at
  every clock reading, before and after a tick, and the tick asks for a negative requeue: each
  reconcile creates one more Backup.\<close>

theorem never_firing_always_due:
  assumes "cron_parse_standard l (sb_schedule (sd_spec s)) = Inr (\<lambda>_. zero_time)"
    and "\<not> sb_suspend (sd_spec s)" "result_of (tick l rt r s) e = Done (s', res, None)"
    and "hd (trace_of (tick l rt r s) e) = ReadClock t" "0 \<le> t" "0 \<le> u"
  shows "due s (\<lambda>_. zero_time) t \<and> su_last_schedule_time (sd_status s') = Some t \<and>
    due s' (\<lambda>_. zero_time) u \<and> sint (requeue_after res) < 0"
proof -
  have tick: "ticked s (\<lambda>_. zero_time) t s' res"
    using emitsD [OF tick_status [OF assms(1,2)], of rt r e] assms(3,4) by auto
  have due: "due s (\<lambda>_. zero_time) v" if "0 \<le> v" for s v
    using that by (simp add: due_def zero_time_def split: option.splits)
  have "time_Sub zero_time t = word_of_int (- (2 ^ 63))"
    using assms(5) by (simp add: time_Sub_def zero_time_def)
  then have "requeue_after res = word_of_int (- (2 ^ 63) + 10 ^ 9)"
    using tick by (simp add: ticked_def Second_def)
  then have "sint (requeue_after res) = - (2 ^ 63) + 10 ^ 9"
    by (simp add: sint_sbintrunc' signed_take_bit_int_eq_self_iff)
  then show ?thesis using due assms(5,6) tick by (simp add: ticked_def)
qed

text \<open>C32. The name of a scheduled Backup gives the second it was made in, so Backups of one schedule
  made in different seconds, in the years 1 to 9999, have different names.\<close>

theorem scheduled_names:
  assumes "zero_time \<le> t" "t < 253402300800 * 10 ^ 9" "zero_time \<le> u" "u < 253402300800 * 10 ^ 9"
  shows "read_stamp (drop (Suc (length (om_name (sd_meta s)))) (om_name (bk_meta (scheduled_object s t)))) = unix_seconds t \<and>
    (om_name (bk_meta (scheduled_object s t)) = om_name (bk_meta (scheduled_object s u)) \<longleftrightarrow> unix_seconds t = unix_seconds u)"
  using stamp_roundtrip [OF assms(1,2)] format_stamp_inject [OF assms] by (simp add: scheduled_object_def)

section \<open>Concrete runs\<close>

definition sample_schedule :: scheduled_backup where
  "sample_schedule = \<lparr>
     sd_meta = empty_meta\<lparr>om_name := ''nightly'', om_namespace := ''prod''\<rparr>,
     sd_spec = \<lparr>sb_cluster = \<lparr>cr_name = ''mydb''\<rparr>, sb_schedule = ''0 * * * *'', sb_suspend = False,
       sb_immediate = True, sb_keep = Some 1, sb_method = [], sb_volume_snapshot_class_name = None\<rparr>,
     sd_status = \<lparr>su_last_schedule_time = None, su_next_schedule_time = None, su_last_backup = [],
       su_conditions = []\<rparr>\<rparr>"

definition taken_backup :: "string \<Rightarrow> time \<Rightarrow> backup" where
  "taken_backup n t = \<lparr>
     bk_meta = empty_meta\<lparr>om_name := n, om_namespace := ''prod'', om_creation_timestamp := t,
       om_labels := [(ScheduledBackupLabel, ''nightly'')]\<rparr>,
     bk_spec = \<lparr>ba_cluster = \<lparr>cr_name = ''mydb''\<rparr>, ba_method = [], ba_volume_snapshot_class_name = None\<rparr>,
     bk_status = empty_backup_status\<lparr>bt_phase := BackupPhaseCompleted\<rparr>\<rparr>"

definition taken_backups :: "backup list" where
  "taken_backups = [taken_backup ''b'' 2, taken_backup ''a'' 1, taken_backup ''c'' 2]"

definition noon :: time where "noon = 43200 * 10 ^ 9"

definition schedule_bed :: "unit scheduler" where
  "schedule_bed = \<lparr>sr_client = static_client (empty_stock\<lparr>sk_backups := taken_backups\<rparr>),
     sr_now = Some (\<lambda>e. (noon, e))\<rparr>"

lemma taken_backups_order:
  "completed taken_backups = taken_backups"
  "sort_key backup_age taken_backups = [taken_backup ''c'' 2, taken_backup ''b'' 2, taken_backup ''a'' 1]"
  by (simp_all add: completed_def taken_backups_def taken_backup_def backup_age_def)

lemma bed_list:
  "k_list_backups (sr_client schedule_bed) ''prod'' ScheduledBackupLabel ''nightly'' e = (Inr taken_backups, e)"
  "k_create_backup (sr_client schedule_bed) b e = (None, e)"
  "k_delete_backup (sr_client schedule_bed) b e = (None, e)"
  by (simp_all add: schedule_bed_def static_client_def taken_backups_def taken_backup_def)

lemma sample_prune:
  "run_state (prune schedule_bed s) w = (Done None, w\<lparr>w_log := w_log w @
     [ListedBackups ''prod'' ScheduledBackupLabel ''nightly'' (Inr taken_backups),
      DeletedBackup (taken_backup ''b'' 2) None, DeletedBackup (taken_backup ''a'' 1) None]\<rparr>)"
  if "sd_meta s = sd_meta sample_schedule" "sd_spec s = sd_spec sample_schedule"
  using that by (simp add: prune_def sample_schedule_def call_def bed_list taken_backups_order)

theorem prune_keeps_newest_witness:
  "result_of (prune schedule_bed sample_schedule) () = Done None \<and>
    deleted_in (trace_of (prune schedule_bed sample_schedule) ()) = [taken_backup ''b'' 2, taken_backup ''a'' 1] \<and>
    pruned_ok sample_schedule taken_backups [taken_backup ''b'' 2, taken_backup ''a'' 1]"
proof -
  have run: "result_of (prune schedule_bed sample_schedule) () = Done None"
    "trace_of (prune schedule_bed sample_schedule) () =
      [ListedBackups ''prod'' ScheduledBackupLabel ''nightly'' (Inr taken_backups),
       DeletedBackup (taken_backup ''b'' 2) None, DeletedBackup (taken_backup ''a'' 1) None]"
    by (simp_all add: result_of_def trace_of_def sample_prune)
  from prune_keeps_newest [OF run(1)] show ?thesis
    unfolding run by (simp add: deleted_in_def listed_in_def)
qed

definition hourly :: cron_schedule where
  "hourly t = (t div (3600 * 10 ^ 9) + 1) * (3600 * 10 ^ 9)"

lemma hourly_law: "activation_law hourly"
  unfolding activation_law_def
proof (intro conjI allI impI)
  fix t u :: time
  let ?h = "3600 * 10 ^ 9 :: int"
  have hour: "hourly v = v + (?h - v mod ?h)" for v
    using div_mult_mod_eq [of v ?h] by (simp add: hourly_def algebra_simps)
  show "t < hourly t" using pos_mod_bound [of ?h t] by (simp add: hour)
  assume "t \<le> u" "u < hourly t"
  have "u div ?h * ?h \<le> u" using div_mult_mod_eq [of u ?h] pos_mod_sign [of ?h u] by simp
  also have "u < (t div ?h + 1) * ?h" using \<open>u < hourly t\<close> by (simp add: hourly_def)
  finally have "u div ?h < t div ?h + 1" by (simp add: mult_less_cancel_right)
  moreover have "t div ?h \<le> u div ?h" using \<open>t \<le> u\<close> by (simp add: zdiv_mono1)
  ultimately show "hourly u = hourly t" by (simp add: hourly_def)
qed

lemma sample_tick:
  assumes "cron_parse_standard l ''0 * * * *'' = Inr next"
  shows "\<exists>s' res. result_of (tick l (still_runtime 0) schedule_bed sample_schedule) () = Done (s', res, None) \<and>
    hd (trace_of (tick l (still_runtime 0) schedule_bed sample_schedule) ()) = ReadClock noon"
proof -
  have now: "schedule_now rt schedule_bed = call (\<lambda>e. (noon, e)) ReadClock" for rt
    by (simp add: schedule_now_def schedule_bed_def)
  have spec: "sb_schedule (sd_spec sample_schedule) = ''0 * * * *''" "\<not> sb_suspend (sd_spec sample_schedule)"
    "due sample_schedule next t" for t
    by (simp_all add: sample_schedule_def due_def)
  show ?thesis
    by (simp add: result_of_def trace_of_def tick_def spec assms now createBackup_def Let_def call_def bed_list
        sample_prune)
qed

theorem schedule_wakes_when_due_witness:
  "\<exists>s' res. result_of (tick plain_lib (still_runtime 0) schedule_bed sample_schedule) () = Done (s', res, None) \<and>
    \<not> due s' hourly noon \<and> due s' hourly (noon + sint (requeue_after res))"
proof -
  have parse: "cron_parse_standard plain_lib (sb_schedule (sd_spec sample_schedule)) = Inr hourly"
    by (simp add: plain_lib_def sample_schedule_def hourly_def [abs_def])
  have spec: "\<not> sb_suspend (sd_spec sample_schedule)" "counts_from sample_schedule \<le> noon"
    "hourly noon - noon < 2 ^ 62" "noon < hourly noon"
    by (simp_all add: sample_schedule_def counts_from_def empty_meta_def zero_time_def noon_def hourly_def)
  obtain s' res where run: "result_of (tick plain_lib (still_runtime 0) schedule_bed sample_schedule) () = Done (s', res, None)"
    "hd (trace_of (tick plain_lib (still_runtime 0) schedule_bed sample_schedule) ()) = ReadClock noon"
    using sample_tick [of plain_lib hourly] parse by (auto simp: sample_schedule_def)
  from schedule_wakes_when_due [OF parse hourly_law spec(1) run spec(2,3), of noon] run(1) spec(4)
  show ?thesis by (intro exI [where x = s'] exI [where x = res]) simp
qed

definition dead_lib :: lib where
  "dead_lib = plain_lib\<lparr>cron_parse_standard := \<lambda>_. Inr (\<lambda>_. zero_time)\<rparr>"

theorem never_firing_always_due_witness:
  "\<exists>s' res. result_of (tick dead_lib (still_runtime 0) schedule_bed sample_schedule) () = Done (s', res, None) \<and>
    due s' (\<lambda>_. zero_time) noon \<and> sint (requeue_after res) < 0"
proof -
  have parse: "cron_parse_standard dead_lib s = Inr (\<lambda>_. zero_time)" for s
    by (simp add: dead_lib_def)
  have spec: "\<not> sb_suspend (sd_spec sample_schedule)" "0 \<le> noon"
    by (simp_all add: sample_schedule_def noon_def)
  obtain s' res where run: "result_of (tick dead_lib (still_runtime 0) schedule_bed sample_schedule) () = Done (s', res, None)"
    "hd (trace_of (tick dead_lib (still_runtime 0) schedule_bed sample_schedule) ()) = ReadClock noon"
    using sample_tick [OF parse] by blast
  from never_firing_always_due [OF parse spec(1) run spec(2,2)] run(1)
  show ?thesis by (intro exI [where x = s'] exI [where x = res]) simp
qed

theorem scheduled_names_witness:
  "om_name (bk_meta (scheduled_object sample_schedule noon)) = ''nightly-19700101-120000'' \<and>
    om_name (bk_meta (scheduled_object sample_schedule (noon + 10 ^ 9))) \<noteq>
      om_name (bk_meta (scheduled_object sample_schedule noon))"
proof -
  have range: "zero_time \<le> noon" "noon < 253402300800 * 10 ^ 9" "zero_time \<le> noon + 10 ^ 9"
    "noon + 10 ^ 9 < 253402300800 * 10 ^ 9" "unix_seconds (noon + 10 ^ 9) \<noteq> unix_seconds noon"
    by (simp_all add: zero_time_def noon_def unix_seconds_def)
  have "format_stamp noon = ''19700101-120000''" by code_simp
  then have "om_name (bk_meta (scheduled_object sample_schedule noon)) = ''nightly-19700101-120000''"
    by (simp add: scheduled_object_def sample_schedule_def)
  with scheduled_names [OF range(3,4,1,2)] range(5) show ?thesis by blast
qed

text \<open>A cluster that refuses to delete backups, at a given clock reading.\<close>

definition stuck_bed :: "time \<Rightarrow> unit scheduler" where
  "stuck_bed t = \<lparr>sr_client = (static_client (empty_stock\<lparr>sk_schedules := [sample_schedule], sk_backups := taken_backups\<rparr>))
       \<lparr>k_delete_backup := \<lambda>_ e. (Some (ApiStatus (OtherReason ''Forbidden'') ''denied''), e)\<rparr>,
     sr_now = Some (\<lambda>e. (t, e))\<rparr>"

lemma stuck_run:
  "\<exists>err. result_of (ScheduledBackup_Reconcile plain_lib (still_runtime 0) (stuck_bed t) ''prod'' ''nightly'') () =
      Done (no_requeue, Some err) \<and>
    trace_of (ScheduledBackup_Reconcile plain_lib (still_runtime 0) (stuck_bed t) ''prod'' ''nightly'') () =
      [GotObject ''prod'' ''nightly'' (Inr (ScheduleObject sample_schedule)), ReadClock t,
       CreatedBackup (scheduled_object sample_schedule t) None,
       ListedBackups ''prod'' ScheduledBackupLabel ''nightly'' (Inr taken_backups),
       DeletedBackup (taken_backup ''b'' 2) (Some (ApiStatus (OtherReason ''Forbidden'') ''denied''))]"
proof -
  have got: "k_get_scheduled_backup (sr_client (stuck_bed t)) ''prod'' ''nightly'' e = (Inr sample_schedule, e)"
    "k_create_backup (sr_client (stuck_bed t)) b e = (None, e)"
    "k_list_backups (sr_client (stuck_bed t)) ''prod'' ScheduledBackupLabel ''nightly'' e = (Inr taken_backups, e)"
    "k_delete_backup (sr_client (stuck_bed t)) b e = (Some (ApiStatus (OtherReason ''Forbidden'') ''denied''), e)"
    "schedule_now rt (stuck_bed t) = call (\<lambda>e. (t, e)) ReadClock" for e b rt
    by (simp_all add: stuck_bed_def static_client_def stocked_def empty_stock_def sample_schedule_def
        taken_backups_def taken_backup_def schedule_now_def)
  have spec: "\<not> sb_suspend (sd_spec sample_schedule)" "due sample_schedule nx u"
    "sb_keep (sd_spec sample_schedule) = Some 1" "om_name (sd_meta sample_schedule) = ''nightly''"
    "om_namespace (sd_meta sample_schedule) = ''prod''" "IsZero (om_deletion_timestamp (sd_meta sample_schedule))"
    "cron_parse_standard plain_lib (sb_schedule (sd_spec sample_schedule)) = Inr hourly" for nx u
    by (simp_all add: sample_schedule_def due_def empty_meta_def IsZero_def plain_lib_def hourly_def [abs_def])
  show ?thesis
    by (simp add: result_of_def trace_of_def ScheduledBackup_Reconcile_def get_object_def tick_def createBackup_def
        prune_def Let_def call_def got spec taken_backups_order)
qed

text \<open>When a prune fails, the run that created a Backup is not recorded: no status is written, the
  schedule stays as due as it was, and the retry a second later creates another Backup.\<close>

lemma failed_prune_creates_again:
  "filter (\<lambda>ev. case ev of CreatedBackup _ _ \<Rightarrow> True | PatchedStatus _ _ _ \<Rightarrow> True | _ \<Rightarrow> False)
     (trace_of (ScheduledBackup_Reconcile plain_lib (still_runtime 0) (stuck_bed noon) ''prod'' ''nightly'') () @
      trace_of (ScheduledBackup_Reconcile plain_lib (still_runtime 0) (stuck_bed (noon + 10 ^ 9)) ''prod'' ''nightly'') ()) =
   [CreatedBackup (scheduled_object sample_schedule noon) None,
    CreatedBackup (scheduled_object sample_schedule (noon + 10 ^ 9)) None] \<and>
   scheduled_object sample_schedule noon \<noteq> scheduled_object sample_schedule (noon + 10 ^ 9)"
proof -
  have "format_stamp noon \<noteq> format_stamp (noon + 10 ^ 9)" by code_simp
  then have "om_name (bk_meta (scheduled_object sample_schedule noon)) \<noteq>
      om_name (bk_meta (scheduled_object sample_schedule (noon + 10 ^ 9)))"
    by (simp add: scheduled_object_def)
  then have "scheduled_object sample_schedule noon \<noteq> scheduled_object sample_schedule (noon + 10 ^ 9)" by auto
  then show ?thesis using stuck_run [of noon] stuck_run [of "noon + 10 ^ 9"] by auto
qed

end
