(* ===== verification/SereneDBController.thy ===== *)
theory SereneDBController
  imports Dependent Config TestBed
begin

text \<open>
  internal/controller/serenedb_controller.go: the reconciler that owns the Secret, ConfigMap,
  Services, StatefulSet and NetworkPolicy of a SereneDB. The mutate callbacks handed to
  \<open>controllerutil.CreateOrUpdate\<close> are definitions of their own; what they keep of an existing
  object, and that applying them a second time leaves it as it is stored, is proved of them. A monitor states
  the order of the steps and what the written status may claim.
\<close>

section \<open>The code\<close>

definition reasonPodReady :: string where "reasonPodReady = ''PodReady''"
definition reasonPodNotReady :: string where "reasonPodNotReady = ''PodNotReady''"
definition reasonRollingOut :: string where "reasonRollingOut = ''RollingOut''"
definition reasonStable :: string where "reasonStable = ''Stable''"
definition reasonReconcileError :: string where "reasonReconcileError = ''ReconcileError''"
definition reasonTLSSecretMissing :: string where "reasonTLSSecretMissing = ''TLSSecretMissing''"
definition reasonTLSSecretRequired :: string where "reasonTLSSecretRequired = ''TLSSecretNameRequired''"

definition named_meta :: "object_meta \<Rightarrow> object_meta" where
  "named_meta m = empty_meta\<lparr>om_name := om_name m, om_namespace := om_namespace m\<rparr>"

text \<open>The overlay of one map on another; the desired keys are visited in list order.\<close>

definition mergeMaps :: "gomap \<Rightarrow> gomap \<Rightarrow> gomap" where
  "mergeMaps current desired = fold (\<lambda>(k, v). AList.update k v) desired current"

definition checkExistingSecret :: "'e client \<Rightarrow> serenedb \<Rightarrow> ('e, go_error option) eff" where
  "checkExistingSecret c db =
     (let name = au_existing_secret (sp_auth (db_spec db)) in
      get_secret c (Namespace db) name \<bind> (\<lambda>r. case r of
        Inl err \<Rightarrow>
          if is_not_found err then ret (Some (Blocked \<lparr>reason = reasonSecretMissing,
            message = ''secret '' @ fmt_q name @ '' not found''\<rparr>))
          else ret (Some (Wrap ''get existing secret'' err))
      | Inr secret \<Rightarrow>
          if map_of (sec_data secret) (PasswordKey db) = None then
            ret (Some (Blocked \<lparr>reason = reasonSecretKeyMissing,
              message = ''secret '' @ fmt_q name @ '' has no key '' @ fmt_q (PasswordKey db)\<rparr>))
          else ret None))"

text \<open>The secret the operator creates: the generated one, owned by the SereneDB if it is to go with it.\<close>

definition owned_secret :: "lib \<Rightarrow> serenedb \<Rightarrow> secret \<Rightarrow> go_error + secret" where
  "owned_secret l db secret =
     (if SecretOwnedByDatabase db then
        case set_controller_reference l (db_meta db) (sec_meta secret) of
          Inl err \<Rightarrow> Inl (Wrap ''set secret owner'' err)
        | Inr m \<Rightarrow> Inr (secret\<lparr>sec_meta := m\<rparr>)
      else Inr secret)"

definition createGeneratedSecret :: "lib \<Rightarrow> 'e runtime \<Rightarrow> 'e client \<Rightarrow> serenedb \<Rightarrow> ('e, go_error option) eff" where
  "createGeneratedSecret l rt c db = GeneratedSecret rt db \<bind> (\<lambda>r. case r of
     Inl err \<Rightarrow> ret (Some (Wrap ''generate password'' err))
   | Inr generated \<Rightarrow> (case owned_secret l db generated of
       Inl err \<Rightarrow> ret (Some err)
     | Inr secret \<Rightarrow> call (k_create_secret c secret) (CreatedSecret secret) \<bind> (\<lambda>err. case err of
         Some e \<Rightarrow> if \<not> is_already_exists e then ret (Some (Wrap ''create secret'' e)) else ret None
       | None \<Rightarrow> ret None)))"

definition syncSecretOwnership :: "lib \<Rightarrow> 'e client \<Rightarrow> serenedb \<Rightarrow> secret \<Rightarrow> ('e, go_error option) eff" where
  "syncSecretOwnership l c db secret =
     (let wantOwned = SecretOwnedByDatabase db;
          isOwned = is_controlled_by l (sec_meta secret) (db_meta db)
      in if wantOwned = isOwned then ret None
      else case (if wantOwned then map_sum (Wrap ''set secret owner'') id
                   (set_controller_reference l (db_meta db) (sec_meta secret))
                 else map_sum (Wrap ''remove secret owner'') id
                   (remove_controller_reference l (db_meta db) (sec_meta secret))) of
             Inl err \<Rightarrow> ret (Some err)
           | Inr m \<Rightarrow> call (k_patch_secret c secret (secret\<lparr>sec_meta := m\<rparr>))
               (PatchedSecret secret (secret\<lparr>sec_meta := m\<rparr>)) \<bind> (\<lambda>err. case err of
                 Some e \<Rightarrow> ret (Some (Wrap ''patch secret owner'' e))
               | None \<Rightarrow> ret None))"

definition reconcileSecret :: "lib \<Rightarrow> 'e runtime \<Rightarrow> 'e client \<Rightarrow> serenedb \<Rightarrow> ('e, go_error option) eff" where
  "reconcileSecret l rt c db =
     (if au_existing_secret (sp_auth (db_spec db)) \<noteq> [] then checkExistingSecret c db
      else get_secret c (Namespace db) (Name db) \<bind> (\<lambda>r. case r of
        Inl err \<Rightarrow>
          if is_not_found err then createGeneratedSecret l rt c db
          else ret (Some (Wrap ''get secret'' err))
      | Inr existing \<Rightarrow>
          if map_of (sec_data existing) (PasswordKey db) = None then
            ret (Some (Blocked \<lparr>reason = reasonSecretKeyMissing,
              message = ''secret '' @ fmt_q (om_name (sec_meta existing)) @ '' has no key '' @ fmt_q (PasswordKey db)\<rparr>))
          else syncSecretOwnership l c db existing))"

definition checkTLSSecret :: "'e client \<Rightarrow> serenedb \<Rightarrow> ('e, go_error option) eff" where
  "checkTLSSecret c db =
     (let tls = sp_tls (db_spec db) in
      if \<not> tls_enabled tls then ret None
      else if tls_secret_name tls = [] then
        ret (Some (Blocked \<lparr>reason = reasonTLSSecretRequired,
          message = ''tls.secretName is required when tls.enabled is true''\<rparr>))
      else get_secret c (Namespace db) (tls_secret_name tls) \<bind> (\<lambda>r. case r of
        Inl err \<Rightarrow>
          if is_not_found err then ret (Some (Blocked \<lparr>reason = reasonTLSSecretMissing,
            message = ''tls secret '' @ fmt_q (tls_secret_name tls) @ '' not found''\<rparr>))
          else ret (Some (Wrap ''get tls secret'' err))
      | Inr _ \<Rightarrow> ret None))"

text \<open>The callback of \<open>reconcileConfigMap\<close>, and the step.\<close>

definition config_map_mutate :: "lib \<Rightarrow> serenedb \<Rightarrow> config_map \<Rightarrow> go_error + config_map" where
  "config_map_mutate l db cm =
     (let desired = ConfigMap db;
          labelled = (cm_meta cm)\<lparr>om_labels := mergeMaps (om_labels (cm_meta cm)) (om_labels (cm_meta desired))\<rparr>
      in map_sum id (\<lambda>m. cm\<lparr>cm_meta := m, cm_data := cm_data desired\<rparr>)
           (set_controller_reference l (db_meta db) labelled))"

definition reconcileConfigMap :: "lib \<Rightarrow> 'e client \<Rightarrow> serenedb \<Rightarrow> ('e, go_error + string) eff" where
  "reconcileConfigMap l c db =
     (let desired = ConfigMap db; cm = \<lparr>cm_meta = named_meta (cm_meta desired), cm_data = []\<rparr>
      in call (k_apply_config_map c cm (config_map_mutate l db)) (\<lambda>r. AppliedConfigMap cm (err_of r)) \<bind> (\<lambda>r. case r of
           Inl err \<Rightarrow> ret (Inl (Wrap ''reconcile configmap'' err))
         | Inr _ \<Rightarrow> ret (Inr (ConfigHash l desired))))"

definition keepAssignedNodePorts :: "service_port list \<Rightarrow> service_port list \<Rightarrow> service_port list" where
  "keepAssignedNodePorts current desired =
     (let assigned = fold (\<lambda>p. AList.update (svp_name p) (svp_node_port p)) current []
      in map (\<lambda>p. if svp_node_port p \<noteq> 0 then p
           else p\<lparr>svp_node_port := (case map_of assigned (svp_name p) of None \<Rightarrow> 0 | Some n \<Rightarrow> n)\<rparr>) desired)"

definition service_mutate :: "lib \<Rightarrow> serenedb \<Rightarrow> service \<Rightarrow> service \<Rightarrow> go_error + service" where
  "service_mutate l db desired svc =
     (let meta = (svc_meta svc)\<lparr>
            om_labels := mergeMaps (om_labels (svc_meta svc)) (om_labels (svc_meta desired)),
            om_annotations := mergeMaps (om_annotations (svc_meta svc)) (om_annotations (svc_meta desired))\<rparr>;
          spec = (svc_spec svc)\<lparr>svs_type := svs_type (svc_spec desired),
            svs_selector := svs_selector (svc_spec desired),
            svs_publish_not_ready_addresses := svs_publish_not_ready_addresses (svc_spec desired),
            svs_ports := keepAssignedNodePorts (svs_ports (svc_spec svc)) (svs_ports (svc_spec desired))\<rparr>;
          spec = (if om_resource_version (svc_meta svc) = [] then
              spec\<lparr>svs_cluster_ip := svs_cluster_ip (svc_spec desired)\<rparr> else spec)
      in map_sum id (\<lambda>m. svc\<lparr>svc_meta := m, svc_spec := spec\<rparr>) (set_controller_reference l (db_meta db) meta))"

definition empty_service_spec :: service_spec where
  "empty_service_spec = \<lparr>svs_type = [], svs_ports = [], svs_selector = [], svs_cluster_ip = [],
     svs_publish_not_ready_addresses = False\<rparr>"

definition applyService :: "lib \<Rightarrow> 'e client \<Rightarrow> serenedb \<Rightarrow> service \<Rightarrow> ('e, go_error option) eff" where
  "applyService l c db desired =
     (let svc = \<lparr>svc_meta = named_meta (svc_meta desired), svc_spec = empty_service_spec\<rparr>
      in call (k_apply_service c svc (service_mutate l db desired)) (\<lambda>r. AppliedService svc (err_of r))
           \<bind> (\<lambda>r. ret (err_of r)))"

definition reconcileServices :: "lib \<Rightarrow> 'e client \<Rightarrow> serenedb \<Rightarrow> ('e, go_error option) eff" where
  "reconcileServices l c db = applyService l c db (Service db) \<bind> (\<lambda>r. case r of
     Some err \<Rightarrow> ret (Some (Wrap ''reconcile service'' err))
   | None \<Rightarrow> applyService l c db (HeadlessService db) \<bind> (\<lambda>r. case r of
       Some err \<Rightarrow> ret (Some (Wrap ''reconcile headless service'' err))
     | None \<Rightarrow> ret None))"

definition stateful_set_mutate :: "lib \<Rightarrow> serenedb \<Rightarrow> stateful_set \<Rightarrow> stateful_set \<Rightarrow> go_error + stateful_set" where
  "stateful_set_mutate l db desired sts =
     (let meta = (sts_meta sts)\<lparr>om_labels := mergeMaps (om_labels (sts_meta sts)) (om_labels (sts_meta desired))\<rparr>;
          spec = (if om_resource_version (sts_meta sts) = [] then sts_spec desired
            else (sts_spec sts)\<lparr>sts_replicas := sts_replicas (sts_spec desired),
              sts_template := sts_template (sts_spec desired),
              sts_update_strategy := sts_update_strategy (sts_spec desired),
              sts_pvc_retention_policy := sts_pvc_retention_policy (sts_spec desired)\<rparr>)
      in map_sum id (\<lambda>m. sts\<lparr>sts_meta := m, sts_spec := spec\<rparr>) (set_controller_reference l (db_meta db) meta))"

definition empty_pod_spec :: pod_spec where
  "empty_pod_spec = \<lparr>po_termination_grace_period_seconds = None, po_automount_service_account_token = None,
     po_image_pull_secrets = [], po_fs_group = None, po_priority_class_name = [], po_containers = [],
     po_volumes = [], po_node_selector = [], po_tolerations = [], po_affinity = None\<rparr>"

definition empty_sts_spec :: stateful_set_spec where
  "empty_sts_spec = \<lparr>sts_replicas = None, sts_service_name = [], sts_selector = [], sts_update_strategy = [],
     sts_template = \<lparr>pt_labels = [], pt_annotations = [], pt_spec = empty_pod_spec\<rparr>,
     sts_pvc_retention_policy = None, sts_volume_claim_templates = []\<rparr>"

definition reconcileStatefulSet :: "lib \<Rightarrow> 'e client \<Rightarrow> serenedb \<Rightarrow> string \<Rightarrow> ('e, go_error + stateful_set) eff" where
  "reconcileStatefulSet l c db configHash =
     (let desired = StatefulSet db configHash;
          sts = \<lparr>sts_meta = named_meta (sts_meta desired), sts_spec = empty_sts_spec, sts_status = empty_sts_status\<rparr>
      in call (k_apply_stateful_set c sts (stateful_set_mutate l db desired)) (AppliedStatefulSet sts) \<bind> (\<lambda>r. case r of
           Inl err \<Rightarrow> ret (Inl (Wrap ''reconcile statefulset'' err))
         | Inr sts \<Rightarrow> ret (Inr sts)))"

definition network_policy_mutate :: "lib \<Rightarrow> serenedb \<Rightarrow> network_policy \<Rightarrow> go_error + network_policy" where
  "network_policy_mutate l db np =
     (let desired = NetworkPolicy db;
          meta = (np_meta np)\<lparr>om_labels := mergeMaps (om_labels (np_meta np)) (om_labels (np_meta desired))\<rparr>
      in map_sum id (\<lambda>m. np\<lparr>np_meta := m, np_spec := np_spec desired\<rparr>) (set_controller_reference l (db_meta db) meta))"

definition deleteOwnedNetworkPolicy :: "lib \<Rightarrow> 'e client \<Rightarrow> serenedb \<Rightarrow> network_policy \<Rightarrow> ('e, go_error option) eff" where
  "deleteOwnedNetworkPolicy l c db desired =
     (let ns = om_namespace (np_meta desired); n = om_name (np_meta desired)
      in call (k_get_network_policy c ns n) (GotNetworkPolicy ns n) \<bind> (\<lambda>r. case r of
           Inl err \<Rightarrow> if is_not_found err then ret None else ret (Some (Wrap ''get networkpolicy'' err))
         | Inr existing \<Rightarrow>
             if \<not> is_controlled_by l (np_meta existing) (db_meta db) then ret None
             else call (k_delete_network_policy c existing) (DeletedNetworkPolicy existing) \<bind> (\<lambda>err.
               case ignore_not_found err of
                 Some _ \<Rightarrow> ret (map_option (Wrap ''delete networkpolicy'') err)
               | None \<Rightarrow> ret None)))"

definition reconcileNetworkPolicy :: "lib \<Rightarrow> 'e client \<Rightarrow> serenedb \<Rightarrow> ('e, go_error option) eff" where
  "reconcileNetworkPolicy l c db =
     (let desired = NetworkPolicy db in
      if \<not> nc_enabled (sp_network_policy (db_spec db)) then deleteOwnedNetworkPolicy l c db desired
      else let np = \<lparr>np_meta = named_meta (np_meta desired),
               np_spec = \<lparr>nps_pod_selector = [], nps_policy_types = [], nps_ingress_ports = []\<rparr>\<rparr>
        in call (k_apply_network_policy c np (network_policy_mutate l db)) (\<lambda>r. AppliedNetworkPolicy np (err_of r))
             \<bind> (\<lambda>r. case r of
               Inl err \<Rightarrow> ret (Some (Wrap ''reconcile networkpolicy'' err))
             | Inr _ \<Rightarrow> ret None))"

text \<open>The pair of StatefulSet and error, of which exactly one is set, is a sum.\<close>

definition reconcileResources :: "lib \<Rightarrow> 'e runtime \<Rightarrow> 'e client \<Rightarrow> serenedb \<Rightarrow> ('e, go_error + stateful_set) eff" where
  "reconcileResources l rt c db = reconcileSecret l rt c db \<bind> (\<lambda>r. case r of
     Some err \<Rightarrow> ret (Inl err)
   | None \<Rightarrow> checkTLSSecret c db \<bind> (\<lambda>r. case r of
       Some err \<Rightarrow> ret (Inl err)
     | None \<Rightarrow> reconcileConfigMap l c db \<bind> (\<lambda>r. case r of
         Inl err \<Rightarrow> ret (Inl err)
       | Inr configHash \<Rightarrow> reconcileServices l c db \<bind> (\<lambda>r. case r of
           Some err \<Rightarrow> ret (Inl err)
         | None \<Rightarrow> reconcileStatefulSet l c db configHash \<bind> (\<lambda>r. case r of
             Inl err \<Rightarrow> ret (Inl err)
           | Inr sts \<Rightarrow> reconcileNetworkPolicy l c db \<bind> (\<lambda>r. case r of
               Some err \<Rightarrow> ret (Inl err)
             | None \<Rightarrow> ret (Inr sts)))))))"

definition rolloutComplete :: "stateful_set \<Rightarrow> bool" where
  "rolloutComplete sts = (let st = sts_status sts in
     if sts_observed_generation st \<noteq> om_generation (sts_meta sts) then False
     else if sts_ready_replicas st \<noteq> 1 \<or> sts_updated_replicas st \<noteq> 1 then False
     else sts_current_revision st = sts_update_revision st)"

definition setCondition :: "lib \<Rightarrow> serenedb \<Rightarrow> string \<Rightarrow> string \<Rightarrow> string \<Rightarrow> string \<Rightarrow> serenedb" where
  "setCondition l db ty status rsn msg = db\<lparr>db_status := (db_status db)\<lparr>st_conditions :=
     set_status_condition l (st_conditions (db_status db)) \<lparr>c_type = ty, c_status = status, c_reason = rsn,
       c_message = msg, c_observed_generation = om_generation (db_meta db)\<rparr>\<rparr>\<rparr>"

definition describe :: "lib \<Rightarrow> serenedb \<Rightarrow> go_error + stateful_set \<Rightarrow> serenedb" where
  "describe l db r =
     (let db = db\<lparr>db_status := (db_status db)\<lparr>st_observed_generation := om_generation (db_meta db),
            st_secret_name := SecretName db, st_host := Host db, st_port := PostgresPort db\<rparr>\<rparr>
      in case asBlocked (err_of r) of
           Some b \<Rightarrow>
             let db = db\<lparr>db_status := (db_status db)\<lparr>st_ready_replicas := 0\<rparr>\<rparr>;
                 db = setCondition l db ConditionReady ConditionFalse (reason b) (message b)
             in setCondition l db ConditionProgressing ConditionFalse (reason b) (message b)
         | None \<Rightarrow> (case r of
             Inl err \<Rightarrow>
               let db = setCondition l db ConditionReady ConditionFalse reasonReconcileError (error_text err)
               in setCondition l db ConditionProgressing ConditionTrue reasonReconcileError (error_text err)
           | Inr sts \<Rightarrow>
               let db = db\<lparr>db_status := (db_status db)\<lparr>st_ready_replicas := sts_ready_replicas (sts_status sts)\<rparr>\<rparr>
               in if rolloutComplete sts then
                    let db = db\<lparr>db_status := (db_status db)\<lparr>st_version := ImageTag db\<rparr>\<rparr>;
                        db = setCondition l db ConditionReady ConditionTrue reasonPodReady ''database pod is serving''
                    in setCondition l db ConditionProgressing ConditionFalse reasonStable ''rollout complete''
                  else
                    let db = setCondition l db ConditionReady ConditionFalse reasonPodNotReady ''database pod is not ready''
                    in setCondition l db ConditionProgressing ConditionTrue reasonRollingOut
                         ''statefulset rollout in progress''))"

definition SereneDB_Reconcile :: "lib \<Rightarrow> 'e runtime \<Rightarrow> 'e client \<Rightarrow> string \<Rightarrow> string \<Rightarrow> ('e, reconcile_result) eff" where
  "SereneDB_Reconcile l rt c ns n = get_serenedb c ns n \<bind> (\<lambda>r. case r of
     Inl err \<Rightarrow> ret (no_requeue, ignore_not_found (Some err))
   | Inr db \<Rightarrow>
       if \<not> IsZero (om_deletion_timestamp (db_meta db)) then ret (no_requeue, None)
       else reconcileResources l rt c db \<bind> (\<lambda>r.
         call (k_patch_serenedb_status c db (describe l db r)) (PatchedSereneDBStatus db (describe l db r)) \<bind> (\<lambda>p.
           case p of
             Some e \<Rightarrow> ret (no_requeue, Some (Wrap ''update status'' e))
           | None \<Rightarrow> (case asBlocked (err_of r) of
               Some b \<Rightarrow> ret (\<lparr>requeue_after = missingDependencyRequeue\<rparr>, None)
             | None \<Rightarrow> ret (no_requeue, err_of r)))))"

section \<open>What the callbacks keep\<close>

lemma mergeMaps_Copy: "mergeMaps = maps_Copy"
  by (simp add: fun_eq_iff mergeMaps_def maps_Copy_def)

lemma update_same: "map_of xs k = Some v \<Longrightarrow> AList.update k v xs = xs"
  by (induction xs) (auto split: if_splits)

lemma mergeMaps_idem:
  assumes "distinct (map fst d)"
  shows "mergeMaps (mergeMaps c d) d = mergeMaps c d"
proof -
  have "\<forall>(k, v) \<in> set d. map_of (mergeMaps c d) k = Some v"
    using assms by (auto simp: mergeMaps_Copy map_of_maps_Copy_distinct map_add_def split: option.splits)
  moreover have "\<forall>(k, v) \<in> set e. map_of m k = Some v \<Longrightarrow> fold (\<lambda>(k, v). AList.update k v) e m = m" for e m
    by (induction e) (auto simp: update_same)
  ultimately show ?thesis unfolding mergeMaps_def by blast
qed

lemma distinct_Labels: "distinct (map fst (Labels db))"
  by (simp add: Labels_def SelectorLabels_def)

lemma assigned_ports:
  "distinct (map svp_name ps) \<Longrightarrow> p \<in> set ps \<Longrightarrow>
    map_of (fold (\<lambda>p. AList.update (svp_name p) (svp_node_port p)) ps acc) (svp_name p) = Some (svp_node_port p)"
proof (induction ps arbitrary: acc)
  case (Cons q ps)
  have other: "map_of (fold (\<lambda>p. AList.update (svp_name p) (svp_node_port p)) ps acc) n = map_of acc n"
    if "n \<notin> svp_name ` set ps" for ps acc n
    using that by (induction ps arbitrary: acc) (auto simp: update_conv')
  show ?case
  proof (cases "p = q")
    case True
    then show ?thesis using Cons.prems(1) by (simp add: other update_conv')
  next
    case False
    then show ?thesis using Cons by simp
  qed
qed simp

text \<open>When the current ports carry the names of the desired ones, each desired port takes over the
  node port of the current port in its place, unless it asks for one.\<close>

lemma keepAssigned_same_names:
  assumes "distinct (map svp_name desired)" "map svp_name current = map svp_name desired"
  shows "keepAssignedNodePorts current desired = map2 (\<lambda>c d. if svp_node_port d \<noteq> 0 then d
    else d\<lparr>svp_node_port := svp_node_port c\<rparr>) current desired"
proof -
  let ?assigned = "fold (\<lambda>p. AList.update (svp_name p) (svp_node_port p)) current []"
  have len: "length current = length desired" using arg_cong [OF assms(2), of length] by simp
  have assigned: "map_of ?assigned (svp_name (desired ! i)) = Some (svp_node_port (current ! i))"
    if "i < length desired" for i
  proof -
    have "svp_name (current ! i) = svp_name (desired ! i)"
      using assms(2) that len by (metis nth_map)
    then show ?thesis using assigned_ports [of current "current ! i" "[]"] assms that len by simp
  qed
  show ?thesis
    unfolding keepAssignedNodePorts_def Let_def
    by (rule nth_equalityI) (simp_all add: len assigned)
qed

lemma names_keepAssigned [simp]: "map svp_name (keepAssignedNodePorts current desired) = map svp_name desired"
  by (simp add: keepAssignedNodePorts_def Let_def)

section \<open>Settling\<close>

text \<open>
  \<open>controllerutil.CreateOrUpdate\<close> against an API server that stores what it is sent. The
  callback runs on the stored object, or on the bare name and namespace when there is none. An
  absent object is created; an update is sent when the callback changed anything. The server
  completes what it is sent (\<open>admit\<close>), with defaults and allocations, and a completed object
  that is the stored one is no change: it keeps its resource version. Otherwise the object is
  stored under a new one. The answer is what is stored afterwards and whether a write was sent.
\<close>

definition create_or_update :: "('o \<Rightarrow> go_error + 'o) \<Rightarrow> ('o \<Rightarrow> 'o) \<Rightarrow> ('o \<Rightarrow> 'o) \<Rightarrow> 'o \<Rightarrow> 'o option \<Rightarrow>
    'o option \<times> bool" where
  "create_or_update mutate admit stamp bare stored = (case stored of
     None \<Rightarrow> (case mutate bare of Inl _ \<Rightarrow> (None, False) | Inr y \<Rightarrow> (Some (stamp (admit y)), True))
   | Some x \<Rightarrow> (case mutate x of Inl _ \<Rightarrow> (Some x, False)
     | Inr y \<Rightarrow> if y = x then (Some x, False)
         else (Some (if admit y = x then x else stamp (admit y)), True)))"

text \<open>
  The contract of a callback: on an object it made and the server completed it makes one that
  the server completes to the very same object, whatever it could allocate now. Whether that
  takes another write (\<open>resends\<close>) is a matter of the fields the operator sends empty and the
  server fills in.
\<close>

locale settling =
  fixes law :: bool and mutate :: "'o \<Rightarrow> go_error + 'o" and admit :: "'a \<Rightarrow> 'o \<Rightarrow> 'o"
    and stamp :: "string \<Rightarrow> 'o \<Rightarrow> 'o" and version :: "'o \<Rightarrow> string" and resends :: bool
  assumes restamp: "stamp (version x) x = x"
    and settles: "law \<Longrightarrow> v \<noteq> [] \<Longrightarrow> mutate x = Inr y \<Longrightarrow>
      \<exists>y'. mutate (stamp v (admit a y)) = Inr y' \<and> (\<forall>b. admit b y' = stamp v (admit a y)) \<and>
        (y' = stamp v (admit a y) \<longleftrightarrow> \<not> resends)"
begin

lemma second_apply:
  fixes a b :: 'a and v w :: string and bare :: 'o
  assumes law "v \<noteq> []" "\<And>x. stored = Some x \<Longrightarrow> version x \<noteq> []"
  defines "first \<equiv> create_or_update mutate (admit a) (stamp v) bare stored"
  shows "fst (create_or_update mutate (admit b) (stamp w) bare (fst first)) = fst first \<and>
    snd (create_or_update mutate (admit b) (stamp w) bare (fst first)) = (snd first \<and> resends)"
proof -
  have again: "fst (create_or_update mutate (admit b) (stamp w) bare (Some z)) = Some z \<and>
      snd (create_or_update mutate (admit b) (stamp w) bare (Some z)) = resends"
    if "mutate x = Inr y" "u \<noteq> []" "z = stamp u (admit a y)" for x y z u
    using settles [OF assms(1) that(2,1), of a] that(3) by (auto simp: create_or_update_def)
  show ?thesis
  proof (cases stored)
    case None
    then show ?thesis
      using again [of bare _ v] assms(2)
      by (cases "mutate bare") (auto simp: first_def create_or_update_def)
  next
    case (Some x)
    show ?thesis
    proof (cases "mutate x")
      case (Inr y)
      have unchanged: "admit a y = x \<Longrightarrow> fst (create_or_update mutate (admit b) (stamp w) bare (Some x)) = Some x \<and>
          snd (create_or_update mutate (admit b) (stamp w) bare (Some x)) = resends"
        using again [OF Inr assms(3) [OF Some], of x] restamp [of x] by simp
      show ?thesis
        using again [OF Inr assms(2) refl] unchanged Inr Some
        by (cases "y = x"; cases "admit a y = x") (auto simp: first_def create_or_update_def)
    qed (simp add: first_def create_or_update_def Some)
  qed
qed

end

text \<open>
  What the API server fills in, as parameters: per kind the defaults of the fields the operator
  sets, and the addresses and node ports it allocates.
\<close>

record api_server =
  as_service_type :: "string \<Rightarrow> string"
  as_service_port :: "service_port \<Rightarrow> service_port"
  as_cluster_ip :: "nat \<Rightarrow> string"
  as_node_port :: "nat \<Rightarrow> string \<Rightarrow> int32"
  as_replicas :: "int32 option \<Rightarrow> int32 option"
  as_pod_template :: "pod_template \<Rightarrow> pod_template"
  as_update_strategy :: "string \<Rightarrow> string"
  as_retention_policy :: "pvc_retention_policy option \<Rightarrow> pvc_retention_policy option"
  as_claim_templates :: "persistent_volume_claim list \<Rightarrow> persistent_volume_claim list"
  as_network_policy :: "network_policy_spec \<Rightarrow> network_policy_spec"

text \<open>
  What the API documents of them: a field that is set stays, an empty Service type is
  \<open>ClusterIP\<close>, an allocated address or node port is not empty, a probe without a timeout gets
  one, and defaults that are there are not changed again.
\<close>

definition api_law :: "api_server \<Rightarrow> bool" where
  "api_law s \<longleftrightarrow>
     as_service_type s [] = ServiceTypeClusterIP \<and> (\<forall>t. t \<noteq> [] \<longrightarrow> as_service_type s t = t) \<and>
     (\<forall>p. svp_name (as_service_port s p) = svp_name p) \<and>
     (\<forall>p n. as_service_port s (p\<lparr>svp_node_port := n\<rparr>) = (as_service_port s p)\<lparr>svp_node_port := n\<rparr>) \<and>
     (\<forall>p. svp_protocol p \<noteq> [] \<and> svp_target_port p \<noteq> FromInt32 0 \<longrightarrow> as_service_port s p = p) \<and>
     (\<forall>k. as_cluster_ip s k \<noteq> []) \<and> (\<forall>k n. as_node_port s k n \<noteq> 0) \<and>
     (\<forall>t. list_all (\<lambda>c. pb_timeout_seconds (co_startup_probe c) \<noteq> 0) (po_containers (pt_spec (as_pod_template s t)))) \<and>
     (\<forall>cs. as_claim_templates s (as_claim_templates s cs) = as_claim_templates s cs) \<and>
     (\<forall>np. nps_policy_types np \<noteq> [] \<and> list_all (list_all (\<lambda>p. npp_protocol p \<noteq> [])) (nps_ingress_ports np) \<longrightarrow>
        as_network_policy s np = np)"

text \<open>How they complete an object. A node port is allocated, when none is set, for the types that
  have one, and dropped for the others; an address that is set is kept.\<close>

definition needs_node_port :: "string \<Rightarrow> bool" where
  "needs_node_port t \<longleftrightarrow> t = ServiceTypeNodePort \<or> t = ''LoadBalancer''"

definition admit_port :: "api_server \<Rightarrow> nat \<Rightarrow> string \<Rightarrow> service_port \<Rightarrow> service_port" where
  "admit_port s k t p = (as_service_port s p)\<lparr>svp_node_port :=
     (if \<not> needs_node_port t then 0 else if svp_node_port p \<noteq> 0 then svp_node_port p
      else as_node_port s k (svp_name p))\<rparr>"

definition admit_service :: "api_server \<Rightarrow> nat \<Rightarrow> service \<Rightarrow> service" where
  "admit_service s k svc = (let spec = svc_spec svc; t = as_service_type s (svs_type spec) in
     svc\<lparr>svc_spec := spec\<lparr>svs_type := t,
       svs_cluster_ip := (if svs_cluster_ip spec = [] then as_cluster_ip s k else svs_cluster_ip spec),
       svs_ports := map (admit_port s k t) (svs_ports spec)\<rparr>\<rparr>)"

definition admit_stateful_set :: "api_server \<Rightarrow> nat \<Rightarrow> stateful_set \<Rightarrow> stateful_set" where
  "admit_stateful_set s k sts = (let spec = sts_spec sts in sts\<lparr>sts_spec := spec\<lparr>
     sts_replicas := as_replicas s (sts_replicas spec),
     sts_template := as_pod_template s (sts_template spec),
     sts_update_strategy := as_update_strategy s (sts_update_strategy spec),
     sts_pvc_retention_policy := as_retention_policy s (sts_pvc_retention_policy spec),
     sts_volume_claim_templates := as_claim_templates s (sts_volume_claim_templates spec)\<rparr>\<rparr>)"

definition admit_network_policy :: "api_server \<Rightarrow> nat \<Rightarrow> network_policy \<Rightarrow> network_policy" where
  "admit_network_policy s k np = np\<lparr>np_spec := as_network_policy s (np_spec np)\<rparr>"

definition admit_config_map :: "api_server \<Rightarrow> nat \<Rightarrow> config_map \<Rightarrow> config_map" where
  "admit_config_map s k cm = cm"

lemma settled_meta:
  assumes "owner_law l" "set_controller_reference l w m = Inr m'"
  obtains refs where "m' = m\<lparr>om_owner_references := refs\<rparr>"
    "\<And>v. set_controller_reference l w (m\<lparr>om_owner_references := refs, om_resource_version := v,
        om_labels := om_labels m\<rparr>) = Inr (m\<lparr>om_owner_references := refs, om_resource_version := v\<rparr>)"
    "\<And>v. set_controller_reference l w (m\<lparr>om_owner_references := refs, om_resource_version := v,
        om_labels := om_labels m, om_annotations := om_annotations m\<rparr>) =
      Inr (m\<lparr>om_owner_references := refs, om_resource_version := v\<rparr>)"
proof -
  from assms obtain refs where m': "m' = m\<lparr>om_owner_references := refs\<rparr>"
    and again: "\<And>m2. om_owner_references m2 = refs \<Longrightarrow> om_namespace m2 = om_namespace m \<Longrightarrow>
      set_controller_reference l w m2 = Inr m2"
    unfolding owner_law_def by blast
  show ?thesis by (rule that [of refs]) (simp_all add: m' again)
qed

definition versioned :: "string \<Rightarrow> object_meta \<Rightarrow> object_meta" where
  "versioned v m = m\<lparr>om_resource_version := v\<rparr>"

lemma config_map_settles:
  assumes "owner_law l" "config_map_mutate l db cm = Inr y"
  shows "config_map_mutate l db (y\<lparr>cm_meta := versioned v (cm_meta y)\<rparr>) = Inr (y\<lparr>cm_meta := versioned v (cm_meta y)\<rparr>)"
proof -
  let ?m = "(cm_meta cm)\<lparr>om_labels := mergeMaps (om_labels (cm_meta cm)) (om_labels (cm_meta (ConfigMap db)))\<rparr>"
  obtain m where m: "set_controller_reference l (db_meta db) ?m = Inr m" "y = cm\<lparr>cm_meta := m, cm_data := cm_data (ConfigMap db)\<rparr>"
    using assms(2) by (cases "set_controller_reference l (db_meta db) ?m") (auto simp: config_map_mutate_def Let_def)
  obtain refs where refs: "m = ?m\<lparr>om_owner_references := refs\<rparr>"
    and again: "\<And>v. set_controller_reference l (db_meta db) (?m\<lparr>om_owner_references := refs, om_resource_version := v,
        om_labels := om_labels ?m\<rparr>) = Inr (?m\<lparr>om_owner_references := refs, om_resource_version := v\<rparr>)"
    using settled_meta [OF assms(1) m(1)] by blast
  have labels: "om_labels (cm_meta (ConfigMap db)) = Labels db" by (simp add: ConfigMap_def Let_def)
  show ?thesis
    using again [of v] unfolding config_map_mutate_def Let_def versioned_def
    by (simp add: m(2) refs labels mergeMaps_idem distinct_Labels)
qed

lemma network_policy_admitted: "api_law s \<Longrightarrow> as_network_policy s (np_spec (NetworkPolicy db)) = np_spec (NetworkPolicy db)"
  by (simp add: api_law_def NetworkPolicy_def network_policy_ports_def ProtocolTCP_def list_all_iff)

lemma network_policy_settles:
  assumes "owner_law l" "network_policy_mutate l db np = Inr y"
  shows "np_spec y = np_spec (NetworkPolicy db) \<and>
    network_policy_mutate l db (y\<lparr>np_meta := versioned v (np_meta y)\<rparr>) = Inr (y\<lparr>np_meta := versioned v (np_meta y)\<rparr>)"
proof -
  let ?m = "(np_meta np)\<lparr>om_labels := mergeMaps (om_labels (np_meta np)) (om_labels (np_meta (NetworkPolicy db)))\<rparr>"
  obtain m where m: "set_controller_reference l (db_meta db) ?m = Inr m" "y = np\<lparr>np_meta := m, np_spec := np_spec (NetworkPolicy db)\<rparr>"
    using assms(2) by (cases "set_controller_reference l (db_meta db) ?m") (auto simp: network_policy_mutate_def Let_def)
  obtain refs where refs: "m = ?m\<lparr>om_owner_references := refs\<rparr>"
    and again: "\<And>v. set_controller_reference l (db_meta db) (?m\<lparr>om_owner_references := refs, om_resource_version := v,
        om_labels := om_labels ?m\<rparr>) = Inr (?m\<lparr>om_owner_references := refs, om_resource_version := v\<rparr>)"
    using settled_meta [OF assms(1) m(1)] by blast
  have labels: "om_labels (np_meta (NetworkPolicy db)) = Labels db" by (simp add: NetworkPolicy_def Let_def)
  show ?thesis
    using again [of v] unfolding network_policy_mutate_def Let_def versioned_def
    by (simp add: m(2) refs labels mergeMaps_idem distinct_Labels)
qed

lemma with_spec_inject:
  "sts\<lparr>sts_meta := m, sts_spec := a\<rparr> = sts\<lparr>sts_meta := m, sts_spec := b\<rparr> \<longleftrightarrow> a = b"
  "svc\<lparr>svc_meta := m, svc_spec := c\<rparr> = svc\<lparr>svc_meta := m, svc_spec := d\<rparr> \<longleftrightarrow> c = d"
  by (cases sts, simp) (cases svc, simp)

lemma stateful_set_settles:
  fixes k :: nat
  assumes "owner_law l" "api_law s" "v \<noteq> []" "stateful_set_mutate l db (StatefulSet db h) sts = Inr y"
  defines "z \<equiv> admit_stateful_set s k y"
  shows "\<exists>y'. stateful_set_mutate l db (StatefulSet db h) (z\<lparr>sts_meta := versioned v (sts_meta z)\<rparr>) = Inr y' \<and>
    (\<forall>b. admit_stateful_set s b y' = z\<lparr>sts_meta := versioned v (sts_meta z)\<rparr>) \<and>
    y' \<noteq> z\<lparr>sts_meta := versioned v (sts_meta z)\<rparr>"
proof -
  let ?d = "StatefulSet db h"
  let ?m = "(sts_meta sts)\<lparr>om_labels := mergeMaps (om_labels (sts_meta sts)) (om_labels (sts_meta ?d))\<rparr>"
  let ?desired = "\<lambda>s. s\<lparr>sts_replicas := sts_replicas (sts_spec ?d),
              sts_template := sts_template (sts_spec ?d),
              sts_update_strategy := sts_update_strategy (sts_spec ?d),
              sts_pvc_retention_policy := sts_pvc_retention_policy (sts_spec ?d)\<rparr>"
  obtain m sp where m: "set_controller_reference l (db_meta db) ?m = Inr m" "y = sts\<lparr>sts_meta := m, sts_spec := sp\<rparr>"
    and fields: "sts_replicas sp = sts_replicas (sts_spec ?d)" "sts_template sp = sts_template (sts_spec ?d)"
      "sts_update_strategy sp = sts_update_strategy (sts_spec ?d)"
      "sts_pvc_retention_policy sp = sts_pvc_retention_policy (sts_spec ?d)"
    using assms(4) by (cases "set_controller_reference l (db_meta db) ?m")
      (auto simp: stateful_set_mutate_def Let_def split: if_splits)
  obtain refs where refs: "m = ?m\<lparr>om_owner_references := refs\<rparr>"
    and again: "\<And>v. set_controller_reference l (db_meta db) (?m\<lparr>om_owner_references := refs, om_resource_version := v,
        om_labels := om_labels ?m\<rparr>) = Inr (?m\<lparr>om_owner_references := refs, om_resource_version := v\<rparr>)"
    using settled_meta [OF assms(1) m(1)] by blast
  have labels: "om_labels (sts_meta ?d) = Labels db" by (simp add: StatefulSet_def Let_def)
  define full where "full = sts_spec (admit_stateful_set s k (sts\<lparr>sts_spec := sp\<rparr>))"
  have z: "z\<lparr>sts_meta := versioned v (sts_meta z)\<rparr> =
      sts\<lparr>sts_meta := ?m\<lparr>om_owner_references := refs, om_resource_version := v\<rparr>, sts_spec := full\<rparr>"
    by (simp add: z_def m(2) refs full_def admit_stateful_set_def versioned_def Let_def)
  let ?y' = "sts\<lparr>sts_meta := ?m\<lparr>om_owner_references := refs, om_resource_version := v\<rparr>, sts_spec := ?desired full\<rparr>"
  have made: "stateful_set_mutate l db ?d (z\<lparr>sts_meta := versioned v (sts_meta z)\<rparr>) = Inr ?y'"
    using again [of v] assms(3) unfolding z stateful_set_mutate_def Let_def
    by (simp add: labels mergeMaps_idem distinct_Labels)
  have idem: "as_claim_templates s (as_claim_templates s cs) = as_claim_templates s cs" for cs
    using assms(2) by (simp add: api_law_def)
  have admitted: "admit_stateful_set s b ?y' = z\<lparr>sts_meta := versioned v (sts_meta z)\<rparr>" for b
    unfolding z full_def by (simp add: admit_stateful_set_def Let_def idem fields)
  have probes: "list_all (\<lambda>c. pb_timeout_seconds (co_startup_probe c) \<noteq> 0)
      (po_containers (pt_spec (sts_template full)))"
    using assms(2) by (simp add: full_def admit_stateful_set_def Let_def api_law_def)
  have "\<not> list_all (\<lambda>c. pb_timeout_seconds (co_startup_probe c) \<noteq> 0) (po_containers (pt_spec (sts_template (?desired full))))"
    by (simp add: Container_def Let_def)
  with probes have "?desired full \<noteq> full" by (metis (no_types))
  then have "?y' \<noteq> z\<lparr>sts_meta := versioned v (sts_meta z)\<rparr>"
    unfolding z with_spec_inject .
  with made admitted show ?thesis by blast
qed

text \<open>The ports of a Service through one apply, its completion and the next apply.\<close>

lemma admitted_ports:
  fixes k b :: nat and t :: string and current :: "service_port list"
  assumes "api_law s" "distinct (map svp_name desired)"
  defines "kept \<equiv> keepAssignedNodePorts current desired"
  defines "given \<equiv> map (admit_port s k t) kept"
  shows "map (admit_port s b t) (keepAssignedNodePorts given desired) = given"
    and "list_all (\<lambda>p. svp_protocol p \<noteq> [] \<and> svp_target_port p \<noteq> FromInt32 0 \<and>
        (needs_node_port t \<or> svp_node_port p = 0)) desired \<Longrightarrow> keepAssignedNodePorts given desired = given"
proof -
  have law: "svp_name (as_service_port s p) = svp_name p"
    "as_service_port s (p\<lparr>svp_node_port := n\<rparr>) = (as_service_port s p)\<lparr>svp_node_port := n\<rparr>"
    "svp_protocol p \<noteq> [] \<Longrightarrow> svp_target_port p \<noteq> FromInt32 0 \<Longrightarrow> as_service_port s p = p"
    "as_node_port s j nm \<noteq> 0" for p n j nm
    using assms(1) by (simp_all add: api_law_def)
  have len: "length kept = length desired" by (simp add: kept_def keepAssignedNodePorts_def Let_def)
  have names: "map svp_name given = map svp_name desired"
  proof -
    have "map svp_name given = map svp_name kept" by (simp add: given_def admit_port_def law(1))
    then show ?thesis by (simp add: kept_def)
  qed
  have kept: "\<exists>n. kept ! i = (desired ! i)\<lparr>svp_node_port := n\<rparr> \<and>
      (svp_node_port (desired ! i) \<noteq> 0 \<longrightarrow> n = svp_node_port (desired ! i))" if "i < length desired" for i
    using that by (auto simp: kept_def keepAssignedNodePorts_def Let_def)
  note second = keepAssigned_same_names [OF assms(2) names]
  have given: "length given = length desired" "i < length desired \<Longrightarrow> given ! i = admit_port s k t (kept ! i)" for i
    by (simp_all add: given_def len)
  show "map (admit_port s b t) (keepAssignedNodePorts given desired) = given"
  proof (rule nth_equalityI)
    show "length (map (admit_port s b t) (keepAssignedNodePorts given desired)) = length given"
      by (simp add: second given(1))
    fix i assume "i < length (map (admit_port s b t) (keepAssignedNodePorts given desired))"
    then have i: "i < length desired" by (simp add: second given(1))
    from kept [OF i] obtain n where n: "kept ! i = (desired ! i)\<lparr>svp_node_port := n\<rparr>"
      "svp_node_port (desired ! i) \<noteq> 0 \<longrightarrow> n = svp_node_port (desired ! i)" by blast
    show "map (admit_port s b t) (keepAssignedNodePorts given desired) ! i = given ! i"
      using i n(2) by (simp add: second given n(1) admit_port_def law)
  qed
  assume set: "list_all (\<lambda>p. svp_protocol p \<noteq> [] \<and> svp_target_port p \<noteq> FromInt32 0 \<and>
        (needs_node_port t \<or> svp_node_port p = 0)) desired"
  show "keepAssignedNodePorts given desired = given"
  proof (rule nth_equalityI)
    show "length (keepAssignedNodePorts given desired) = length given" by (simp add: second given(1))
    fix i assume "i < length (keepAssignedNodePorts given desired)"
    then have i: "i < length desired" by (simp add: second given(1))
    from kept [OF i] obtain n where n: "kept ! i = (desired ! i)\<lparr>svp_node_port := n\<rparr>"
      "svp_node_port (desired ! i) \<noteq> 0 \<longrightarrow> n = svp_node_port (desired ! i)" by blast
    from set i have "svp_protocol (desired ! i) \<noteq> []" "svp_target_port (desired ! i) \<noteq> FromInt32 0"
      "needs_node_port t \<or> svp_node_port (desired ! i) = 0"
      by (simp_all add: list_all_length)
    then show "keepAssignedNodePorts given desired ! i = given ! i"
      using i n(2) by (auto simp: second given n(1) admit_port_def law)
  qed
qed

text \<open>A Service the operator sends with every defaulted field set.\<close>

definition spelled_out :: "service \<Rightarrow> bool" where
  "spelled_out svc \<longleftrightarrow> svs_type (svc_spec svc) \<noteq> [] \<and> list_all (\<lambda>p. svp_protocol p \<noteq> [] \<and>
     svp_target_port p \<noteq> FromInt32 0 \<and> (needs_node_port (svs_type (svc_spec svc)) \<or> svp_node_port p = 0))
     (svs_ports (svc_spec svc))"

lemma service_settles:
  fixes k :: nat
  assumes "owner_law l" "api_law s" "distinct (map svp_name (svs_ports (svc_spec desired)))"
    "distinct (map fst (om_labels (svc_meta desired)))" "distinct (map fst (om_annotations (svc_meta desired)))"
    and "spelled_out desired \<or> svs_type (svc_spec desired) = []" "v \<noteq> []"
    and "service_mutate l db desired svc = Inr y"
  defines "z \<equiv> admit_service s k y"
  shows "\<exists>y'. service_mutate l db desired (z\<lparr>svc_meta := versioned v (svc_meta z)\<rparr>) = Inr y' \<and>
    (\<forall>b. admit_service s b y' = z\<lparr>svc_meta := versioned v (svc_meta z)\<rparr>) \<and>
    (y' = z\<lparr>svc_meta := versioned v (svc_meta z)\<rparr> \<longleftrightarrow> svs_type (svc_spec desired) \<noteq> [])"
proof -
  let ?d = "svc_spec desired"
  let ?m = "(svc_meta svc)\<lparr>
      om_labels := mergeMaps (om_labels (svc_meta svc)) (om_labels (svc_meta desired)),
      om_annotations := mergeMaps (om_annotations (svc_meta svc)) (om_annotations (svc_meta desired))\<rparr>"
  let ?kept = "keepAssignedNodePorts (svs_ports (svc_spec svc)) (svs_ports ?d)"
  obtain m sp where m: "set_controller_reference l (db_meta db) ?m = Inr m" "y = svc\<lparr>svc_meta := m, svc_spec := sp\<rparr>"
    and sp: "svs_type sp = svs_type ?d" "svs_selector sp = svs_selector ?d"
      "svs_publish_not_ready_addresses sp = svs_publish_not_ready_addresses ?d" "svs_ports sp = ?kept"
    using assms(8) by (cases "set_controller_reference l (db_meta db) ?m")
      (auto simp: service_mutate_def Let_def split: if_splits)
  obtain refs where refs: "m = ?m\<lparr>om_owner_references := refs\<rparr>"
    and again: "\<And>v. set_controller_reference l (db_meta db) (?m\<lparr>om_owner_references := refs, om_resource_version := v,
        om_labels := om_labels ?m, om_annotations := om_annotations ?m\<rparr>) =
      Inr (?m\<lparr>om_owner_references := refs, om_resource_version := v\<rparr>)"
    using settled_meta [OF assms(1) m(1)] by blast
  define t where "t = as_service_type s (svs_type ?d)"
  define ip where "ip = (if svs_cluster_ip sp = [] then as_cluster_ip s k else svs_cluster_ip sp)"
  define ports where "ports = map (admit_port s k t) ?kept"
  define full where "full = sp\<lparr>svs_type := t, svs_cluster_ip := ip, svs_ports := ports\<rparr>"
  have law: "as_service_type s [] = ServiceTypeClusterIP" "u \<noteq> [] \<Longrightarrow> as_service_type s u = u"
    "as_cluster_ip s j \<noteq> []" for u j
    using assms(2) by (simp_all add: api_law_def)
  have t: "t = svs_type ?d \<longleftrightarrow> svs_type ?d \<noteq> []"
    using law(1,2) by (cases "svs_type ?d = []") (simp_all add: t_def ServiceTypeClusterIP_def)
  have ip: "ip \<noteq> []" using law(3) by (simp add: ip_def)
  have z: "z\<lparr>svc_meta := versioned v (svc_meta z)\<rparr> =
      svc\<lparr>svc_meta := ?m\<lparr>om_owner_references := refs, om_resource_version := v\<rparr>, svc_spec := full\<rparr>"
    by (simp add: z_def m(2) refs full_def admit_service_def versioned_def Let_def t_def ip_def ports_def sp(1,4))
  let ?again = "full\<lparr>svs_type := svs_type ?d, svs_ports := keepAssignedNodePorts ports (svs_ports ?d)\<rparr>"
  have spec: "full\<lparr>svs_type := svs_type ?d, svs_selector := svs_selector ?d,
      svs_publish_not_ready_addresses := svs_publish_not_ready_addresses ?d,
      svs_ports := keepAssignedNodePorts ports (svs_ports ?d)\<rparr> = ?again"
    unfolding full_def sp(1-3) [symmetric] by simp
  let ?y' = "svc\<lparr>svc_meta := ?m\<lparr>om_owner_references := refs, om_resource_version := v\<rparr>, svc_spec := ?again\<rparr>"
  have made: "service_mutate l db desired (z\<lparr>svc_meta := versioned v (svc_meta z)\<rparr>) = Inr ?y'"
    using again [of v] assms(7) spec unfolding z service_mutate_def Let_def
    by (simp add: mergeMaps_idem assms(4,5) full_def)
  have admitted: "admit_service s b ?y' = z\<lparr>svc_meta := versioned v (svc_meta z)\<rparr>" for b
    unfolding z using admitted_ports(1) [where k = k and b = b and t = t and current = "svs_ports (svc_spec svc)", OF assms(2,3)] ip
    by (simp add: admit_service_def Let_def full_def t_def [symmetric] ports_def)
  have same: "?y' = z\<lparr>svc_meta := versioned v (svc_meta z)\<rparr> \<longleftrightarrow> ?again = full"
    unfolding z with_spec_inject ..
  have "?again = full \<longleftrightarrow> svs_type ?d \<noteq> []"
  proof
    assume "?again = full"
    then have "svs_type ?again = svs_type full" by simp
    then have "t = svs_type ?d" by (simp add: full_def)
    with t show "svs_type ?d \<noteq> []" by simp
  next
    assume set: "svs_type ?d \<noteq> []"
    then have "spelled_out desired" using assms(6) by simp
    then have "keepAssignedNodePorts ports (svs_ports ?d) = ports"
      unfolding ports_def using set t by (intro admitted_ports(2) [OF assms(2,3)]) (simp add: spelled_out_def)
    with set t show "?again = full" by (simp add: full_def)
  qed
  with made admitted same show ?thesis by blast
qed

lemma service_ports_distinct:
  "distinct (map svp_name (svs_ports (svc_spec (Service db))))"
  "distinct (map svp_name (svs_ports (svc_spec (HeadlessService db))))"
  by (auto simp: Service_def HeadlessService_def ServicePorts_def port_name_defs Let_def)

lemma service_maps:
  "om_labels (svc_meta (Service db)) = Labels db" "om_labels (svc_meta (HeadlessService db)) = Labels db"
  "om_annotations (svc_meta (Service db)) = sc_annotations (sp_service (db_spec db))"
  "om_annotations (svc_meta (HeadlessService db)) = []"
  by (simp_all add: Service_def HeadlessService_def Let_def empty_meta_def)

lemma service_types: "svs_type (svc_spec (Service db)) = serviceType db" "serviceType db \<noteq> []"
  "svs_type (svc_spec (HeadlessService db)) = []"
  by (simp_all add: Service_def HeadlessService_def serviceType_def ServiceTypeClusterIP_def Let_def)

lemma spelled_out_Service: "spelled_out (Service db)"
  by (auto simp: spelled_out_def service_types Service_def ServicePorts_def ProtocolTCP_def
      needs_node_port_def serviceType_def ServiceTypeClusterIP_def ServiceTypeNodePort_def Let_def)

definition apply_law :: "lib \<Rightarrow> api_server \<Rightarrow> serenedb \<Rightarrow> bool" where
  "apply_law l s db \<longleftrightarrow> owner_law l \<and> api_law s \<and> distinct (map fst (sc_annotations (sp_service (db_spec db))))"

text \<open>Each apply of the operator, against a server \<open>s\<close> at its step \<open>k\<close>, storing under the version \<open>v\<close>.\<close>

definition put_config_map :: "lib \<Rightarrow> api_server \<Rightarrow> serenedb \<Rightarrow> nat \<Rightarrow> string \<Rightarrow> config_map option \<Rightarrow> config_map option \<times> bool" where
  "put_config_map l s db k v = create_or_update (config_map_mutate l db) (admit_config_map s k)
     (\<lambda>y. y\<lparr>cm_meta := versioned v (cm_meta y)\<rparr>) \<lparr>cm_meta = named_meta (cm_meta (ConfigMap db)), cm_data = []\<rparr>"

definition put_service :: "lib \<Rightarrow> api_server \<Rightarrow> serenedb \<Rightarrow> service \<Rightarrow> nat \<Rightarrow> string \<Rightarrow> service option \<Rightarrow> service option \<times> bool" where
  "put_service l s db desired k v = create_or_update (service_mutate l db desired) (admit_service s k)
     (\<lambda>y. y\<lparr>svc_meta := versioned v (svc_meta y)\<rparr>) \<lparr>svc_meta = named_meta (svc_meta desired), svc_spec = empty_service_spec\<rparr>"

definition put_stateful_set :: "lib \<Rightarrow> api_server \<Rightarrow> serenedb \<Rightarrow> string \<Rightarrow> nat \<Rightarrow> string \<Rightarrow> stateful_set option \<Rightarrow>
    stateful_set option \<times> bool" where
  "put_stateful_set l s db h k v = create_or_update (stateful_set_mutate l db (StatefulSet db h)) (admit_stateful_set s k)
     (\<lambda>y. y\<lparr>sts_meta := versioned v (sts_meta y)\<rparr>)
     \<lparr>sts_meta = named_meta (sts_meta (StatefulSet db h)), sts_spec = empty_sts_spec, sts_status = empty_sts_status\<rparr>"

definition put_network_policy :: "lib \<Rightarrow> api_server \<Rightarrow> serenedb \<Rightarrow> nat \<Rightarrow> string \<Rightarrow> network_policy option \<Rightarrow>
    network_policy option \<times> bool" where
  "put_network_policy l s db k v = create_or_update (network_policy_mutate l db) (admit_network_policy s k)
     (\<lambda>y. y\<lparr>np_meta := versioned v (np_meta y)\<rparr>)
     \<lparr>np_meta = named_meta (np_meta (NetworkPolicy db)),
      np_spec = \<lparr>nps_pod_selector = [], nps_policy_types = [], nps_ingress_ports = []\<rparr>\<rparr>"

interpretation config_map_settling: settling "apply_law l s db" "config_map_mutate l db" "admit_config_map s"
    "\<lambda>v y. y\<lparr>cm_meta := versioned v (cm_meta y)\<rparr>" "\<lambda>y. om_resource_version (cm_meta y)" False for l s db
  by unfold_locales (auto simp: versioned_def apply_law_def admit_config_map_def
      dest: config_map_settles [unfolded versioned_def])

interpretation network_policy_settling: settling "apply_law l s db" "network_policy_mutate l db" "admit_network_policy s"
    "\<lambda>v y. y\<lparr>np_meta := versioned v (np_meta y)\<rparr>" "\<lambda>y. om_resource_version (np_meta y)" False for l s db
proof unfold_locales
  fix x y v k
  assume "apply_law l s db" "network_policy_mutate l db x = Inr y"
  then have y: "network_policy_mutate l db (y\<lparr>np_meta := versioned v (np_meta y)\<rparr>) = Inr (y\<lparr>np_meta := versioned v (np_meta y)\<rparr>)"
    "as_network_policy s (np_spec y) = np_spec y"
    using network_policy_settles [of l db x y v] network_policy_admitted [of s db] by (simp_all add: apply_law_def)
  then have "admit_network_policy s b (y\<lparr>np_meta := versioned v (np_meta y)\<rparr>) = y\<lparr>np_meta := versioned v (np_meta y)\<rparr>"
    "admit_network_policy s b y = y" for b
    by (simp_all add: admit_network_policy_def)
  with y(1) show "\<exists>y'. network_policy_mutate l db (admit_network_policy s k y\<lparr>np_meta := versioned v (np_meta (admit_network_policy s k y))\<rparr>) = Inr y' \<and>
      (\<forall>b. admit_network_policy s b y' = admit_network_policy s k y\<lparr>np_meta := versioned v (np_meta (admit_network_policy s k y))\<rparr>) \<and>
      (y' = admit_network_policy s k y\<lparr>np_meta := versioned v (np_meta (admit_network_policy s k y))\<rparr> \<longleftrightarrow> \<not> False)"
    by simp
qed (simp add: versioned_def)

interpretation stateful_set_settling: settling "apply_law l s db" "stateful_set_mutate l db (StatefulSet db h)"
    "admit_stateful_set s" "\<lambda>v y. y\<lparr>sts_meta := versioned v (sts_meta y)\<rparr>" "\<lambda>y. om_resource_version (sts_meta y)" True
    for l s db h
proof unfold_locales
  show "x\<lparr>sts_meta := versioned (om_resource_version (sts_meta x)) (sts_meta x)\<rparr> = x" for x :: stateful_set
    by (simp add: versioned_def)
qed (use stateful_set_settles in \<open>fastforce simp: apply_law_def\<close>)

interpretation service_settling: settling "apply_law l s db" "service_mutate l db (Service db)"
    "admit_service s" "\<lambda>v y. y\<lparr>svc_meta := versioned v (svc_meta y)\<rparr>" "\<lambda>y. om_resource_version (svc_meta y)" False
    for l s db
proof unfold_locales
  show "x\<lparr>svc_meta := versioned (om_resource_version (svc_meta x)) (svc_meta x)\<rparr> = x" for x :: service
    by (simp add: versioned_def)
  fix x y :: service and v :: string and k
  assume "apply_law l s db" "v \<noteq> []" "service_mutate l db (Service db) x = Inr y"
  then show "\<exists>y'. service_mutate l db (Service db) (admit_service s k y\<lparr>svc_meta := versioned v (svc_meta (admit_service s k y))\<rparr>) = Inr y' \<and>
      (\<forall>b. admit_service s b y' = admit_service s k y\<lparr>svc_meta := versioned v (svc_meta (admit_service s k y))\<rparr>) \<and>
      (y' = admit_service s k y\<lparr>svc_meta := versioned v (svc_meta (admit_service s k y))\<rparr> \<longleftrightarrow> \<not> False)"
    using service_settles [of l s "Service db" v db x y k]
    by (simp add: apply_law_def service_ports_distinct service_maps distinct_Labels spelled_out_Service service_types)
qed

interpretation headless_settling: settling "apply_law l s db" "service_mutate l db (HeadlessService db)"
    "admit_service s" "\<lambda>v y. y\<lparr>svc_meta := versioned v (svc_meta y)\<rparr>" "\<lambda>y. om_resource_version (svc_meta y)" True
    for l s db
proof unfold_locales
  show "x\<lparr>svc_meta := versioned (om_resource_version (svc_meta x)) (svc_meta x)\<rparr> = x" for x :: service
    by (simp add: versioned_def)
  fix x y :: service and v :: string and k
  assume "apply_law l s db" "v \<noteq> []" "service_mutate l db (HeadlessService db) x = Inr y"
  then show "\<exists>y'. service_mutate l db (HeadlessService db) (admit_service s k y\<lparr>svc_meta := versioned v (svc_meta (admit_service s k y))\<rparr>) = Inr y' \<and>
      (\<forall>b. admit_service s b y' = admit_service s k y\<lparr>svc_meta := versioned v (svc_meta (admit_service s k y))\<rparr>) \<and>
      (y' = admit_service s k y\<lparr>svc_meta := versioned v (svc_meta (admit_service s k y))\<rparr> \<longleftrightarrow> \<not> True)"
    using service_settles [of l s "HeadlessService db" v db x y k]
    by (simp add: apply_law_def service_ports_distinct service_maps distinct_Labels service_types)
qed

text \<open>C14. Reconciling an unchanged SereneDB settles. Whatever of its ConfigMap, Services, StatefulSet
  and NetworkPolicy the API has, once the operator has applied them and the API has completed
  them with defaults, addresses and node ports, applying them again leaves every one of them
  exactly as it is stored, resource version included, whatever the API could allocate then. For
  the ConfigMap, the client Service and the NetworkPolicy nothing is even sent. The headless
  Service and the StatefulSet are sent again, without the Service type and the probe timeout
  the API had filled in, and it fills in the same: so these two are updated, without effect,
  in every reconcile.\<close>

theorem second_reconcile_settles:
  assumes "apply_law l s db" "v \<noteq> []"
    and "\<And>x. cm = Some x \<Longrightarrow> om_resource_version (cm_meta x) \<noteq> []"
    and "\<And>x. svc = Some x \<Longrightarrow> om_resource_version (svc_meta x) \<noteq> []"
    and "\<And>x. head = Some x \<Longrightarrow> om_resource_version (svc_meta x) \<noteq> []"
    and "\<And>x. sts = Some x \<Longrightarrow> om_resource_version (sts_meta x) \<noteq> []"
    and "\<And>x. np = Some x \<Longrightarrow> om_resource_version (np_meta x) \<noteq> []"
  shows "put_config_map l s db j w (fst (put_config_map l s db k v cm)) = (fst (put_config_map l s db k v cm), False) \<and>
    put_service l s db (Service db) j w (fst (put_service l s db (Service db) k v svc)) =
      (fst (put_service l s db (Service db) k v svc), False) \<and>
    put_service l s db (HeadlessService db) j w (fst (put_service l s db (HeadlessService db) k v head)) =
      put_service l s db (HeadlessService db) k v head \<and>
    put_stateful_set l s db h j w (fst (put_stateful_set l s db h k v sts)) = put_stateful_set l s db h k v sts \<and>
    put_network_policy l s db j w (fst (put_network_policy l s db k v np)) = (fst (put_network_policy l s db k v np), False)"
  using config_map_settling.second_apply [OF assms(1,2,3)] service_settling.second_apply [OF assms(1,2,4)]
    headless_settling.second_apply [OF assms(1,2,5)] stateful_set_settling.second_apply [OF assms(1,2,6)]
    network_policy_settling.second_apply [OF assms(1,2,7)]
  unfolding put_config_map_def put_service_def put_stateful_set_def put_network_policy_def
  by (simp add: prod_eq_iff)

text \<open>C27. An update of a StatefulSet keeps what the API forbids to change, its selector, service name
  and claim templates, as found, brings replicas, pod template, update strategy and claim
  retention to the desired ones, and keeps every label the operator does not set; a creation
  takes the whole desired spec.\<close>

theorem stateful_set_update_keeps:
  assumes "owner_law l" "stateful_set_mutate l db (StatefulSet db h) sts = Inr sts'"
  shows "(if om_resource_version (sts_meta sts) = [] then sts_spec sts' = sts_spec (StatefulSet db h)
    else sts_selector (sts_spec sts') = sts_selector (sts_spec sts) \<and>
      sts_service_name (sts_spec sts') = sts_service_name (sts_spec sts) \<and>
      sts_volume_claim_templates (sts_spec sts') = sts_volume_claim_templates (sts_spec sts) \<and>
      sts_template (sts_spec sts') = PodTemplate db h \<and> sts_replicas (sts_spec sts') = Some 1 \<and>
      sts_update_strategy (sts_spec sts') = sts_update_strategy (sts_spec (StatefulSet db h)) \<and>
      sts_pvc_retention_policy (sts_spec sts') = sts_pvc_retention_policy (sts_spec (StatefulSet db h))) \<and>
    map_of (om_labels (sts_meta sts')) = map_of (om_labels (sts_meta sts)) ++ map_of (Labels db) \<and>
    sts_status sts' = sts_status sts \<and> om_name (sts_meta sts') = om_name (sts_meta sts)"
proof -
  let ?m = "(sts_meta sts)\<lparr>om_labels := mergeMaps (om_labels (sts_meta sts)) (Labels db)\<rparr>"
  have labels: "om_labels (sts_meta (StatefulSet db h)) = Labels db" by (simp add: StatefulSet_def Let_def)
  obtain m where m: "set_controller_reference l (db_meta db) ?m = Inr m"
    using assms(2) by (cases "set_controller_reference l (db_meta db) ?m")
      (auto simp: stateful_set_mutate_def Let_def labels)
  obtain refs where "m = ?m\<lparr>om_owner_references := refs\<rparr>" using settled_meta [OF assms(1) m] by blast
  moreover have "sts_template (sts_spec (StatefulSet db h)) = PodTemplate db h"
    "sts_replicas (sts_spec (StatefulSet db h)) = Some 1"
    by (simp_all add: StatefulSet_def Let_def)
  ultimately show ?thesis
    using assms(2) m
    by (auto simp: stateful_set_mutate_def Let_def labels mergeMaps_Copy map_of_maps_Copy_distinct distinct_Labels)
qed

section \<open>What the status says\<close>

lemma setCondition_find:
  "condition_law l \<Longrightarrow> find_condition t (st_conditions (db_status (setCondition l db ty status rsn msg))) =
     (if t = ty then Some \<lparr>c_type = ty, c_status = status, c_reason = rsn, c_message = msg,
        c_observed_generation = om_generation (db_meta db)\<rparr> else find_condition t (st_conditions (db_status db)))"
  by (simp add: setCondition_def find_condition_set)

lemma setCondition_keeps [simp]:
  "db_meta (setCondition l db ty status rsn msg) = db_meta db"
  "db_spec (setCondition l db ty status rsn msg) = db_spec db"
  "st_version (db_status (setCondition l db ty status rsn msg)) = st_version (db_status db)"
  "st_ready_replicas (db_status (setCondition l db ty status rsn msg)) = st_ready_replicas (db_status db)"
  "st_observed_generation (db_status (setCondition l db ty status rsn msg)) = st_observed_generation (db_status db)"
  by (simp_all add: setCondition_def)

lemma ready_progressing: "ConditionReady \<noteq> ConditionProgressing" "ConditionTrue \<noteq> ConditionFalse"
  by (simp_all add: ConditionReady_def ConditionProgressing_def ConditionTrue_def ConditionFalse_def)

lemma ImageTag_spec: "ImageTag (db\<lparr>db_status := st\<rparr>) = ImageTag db"
  by (simp add: ImageTag_def)

text \<open>The condition of a type, reduced to its status and reason.\<close>

definition verdict :: "serenedb \<Rightarrow> string \<Rightarrow> (string \<times> string) option" where
  "verdict db t = map_option (\<lambda>c. (c_status c, c_reason c)) (find_condition t (st_conditions (db_status db)))"

lemma describe_verdicts:
  assumes "condition_law l"
  shows "(verdict (describe l db r) ConditionReady, verdict (describe l db r) ConditionProgressing) = (case r of
      Inl (Blocked b) \<Rightarrow> (Some (ConditionFalse, reason b), Some (ConditionFalse, reason b))
    | Inl _ \<Rightarrow> (Some (ConditionFalse, reasonReconcileError), Some (ConditionTrue, reasonReconcileError))
    | Inr sts \<Rightarrow> if rolloutComplete sts
        then (Some (ConditionTrue, reasonPodReady), Some (ConditionFalse, reasonStable))
        else (Some (ConditionFalse, reasonPodNotReady), Some (ConditionTrue, reasonRollingOut)))"
  using ready_progressing
  by (cases r) (simp_all add: describe_def verdict_def Let_def setCondition_find [OF assms] asBlocked_def
      split: go_error.splits)

lemma describe_rest:
  assumes "condition_law l"
  shows "db_meta (describe l db r) = db_meta db" "db_spec (describe l db r) = db_spec db"
    "st_observed_generation (db_status (describe l db r)) = om_generation (db_meta db)"
    "st_version (db_status (describe l db r)) = (case r of
       Inr sts \<Rightarrow> if rolloutComplete sts then ImageTag db else st_version (db_status db)
     | Inl _ \<Rightarrow> st_version (db_status db))"
    "t \<notin> {ConditionReady, ConditionProgressing} \<Longrightarrow>
      find_condition t (st_conditions (db_status (describe l db r))) = find_condition t (st_conditions (db_status db))"
  by (cases r; simp add: describe_def Let_def setCondition_find [OF assms] asBlocked_def ImageTag_spec
      split: go_error.splits)+

text \<open>C25. The status a reconcile computes reports its outcome: a precondition to fix shows under its
  own reason with nothing in progress, any other error as a reconcile error in progress, a
  complete rollout as ready and stable, an incomplete one as not ready and rolling out; the
  version changes only with a complete rollout, to the tag of the spec; the generation is the
  one reconciled; and no other condition is touched. This is the code's \<open>Progressing\<close>: the
  reference page has it \<open>True\<close> only while a rollout is in flight, under the reasons
  \<open>RollingOut\<close> and \<open>Stable\<close>, and knows neither its \<open>True\<close> with \<open>ReconcileError\<close> after an
  error in any step nor its \<open>False\<close> with the reason of a precondition.\<close>

theorem status_reports_outcome:
  assumes "condition_law l"
  shows "(verdict (describe l db r) ConditionReady, verdict (describe l db r) ConditionProgressing) = (case r of
      Inl (Blocked b) \<Rightarrow> (Some (ConditionFalse, reason b), Some (ConditionFalse, reason b))
    | Inl _ \<Rightarrow> (Some (ConditionFalse, reasonReconcileError), Some (ConditionTrue, reasonReconcileError))
    | Inr sts \<Rightarrow> if rolloutComplete sts
        then (Some (ConditionTrue, reasonPodReady), Some (ConditionFalse, reasonStable))
        else (Some (ConditionFalse, reasonPodNotReady), Some (ConditionTrue, reasonRollingOut))) \<and>
    st_version (db_status (describe l db r)) = (case r of
       Inr sts \<Rightarrow> if rolloutComplete sts then ImageTag db else st_version (db_status db)
     | Inl _ \<Rightarrow> st_version (db_status db)) \<and>
    st_observed_generation (db_status (describe l db r)) = om_generation (db_meta db) \<and>
    (t \<notin> {ConditionReady, ConditionProgressing} \<longrightarrow>
      find_condition t (st_conditions (db_status (describe l db r))) = find_condition t (st_conditions (db_status db)))"
  using describe_verdicts [OF assms] describe_rest [OF assms] by simp

section \<open>The rule of a reconcile\<close>

record rollout_watch =
  vw_db :: "serenedb option"
  vw_secret :: "(go_error + secret) option"
  vw_password :: bool
  vw_tls :: bool
  vw_config :: bool
  vw_services :: "string list"
  vw_sts :: "stateful_set option"
  vw_policy :: "network_policy option"

definition rollout_watch_start :: rollout_watch where
  "rollout_watch_start = \<lparr>vw_db = None, vw_secret = None, vw_password = False, vw_tls = False, vw_config = False,
     vw_services = [], vw_sts = None, vw_policy = None\<rparr>"

definition has_password :: "serenedb \<Rightarrow> go_error + secret \<Rightarrow> bool" where
  "has_password db r = (case r of Inl _ \<Rightarrow> False | Inr s \<Rightarrow> map_of (sec_data s) (PasswordKey db) \<noteq> None)"

definition own_secret :: "serenedb \<Rightarrow> bool" where
  "own_secret db \<longleftrightarrow> au_existing_secret (sp_auth (db_spec db)) = []"

definition secret_creation_ok :: "lib \<Rightarrow> rollout_watch \<Rightarrow> serenedb \<Rightarrow> secret \<Rightarrow> bool" where
  "secret_creation_ok l w db s \<longleftrightarrow> own_secret db \<and>
     (case vw_secret w of Some (Inl err) \<Rightarrow> is_not_found err | _ \<Rightarrow> False) \<and>
     om_name (sec_meta s) = Name db \<and> om_namespace (sec_meta s) = Namespace db \<and>
     sec_data s = [] \<and> map fst (sec_string_data s) = [PasswordKey db] \<and>
     (SecretOwnedByDatabase db \<longrightarrow> is_controlled_by l (sec_meta s) (db_meta db))"

definition secret_patch_ok :: "lib \<Rightarrow> rollout_watch \<Rightarrow> serenedb \<Rightarrow> secret \<Rightarrow> secret \<Rightarrow> bool" where
  "secret_patch_ok l w db old new \<longleftrightarrow> own_secret db \<and> vw_secret w = Some (Inr old) \<and>
     new = old\<lparr>sec_meta := (sec_meta old)\<lparr>om_owner_references := om_owner_references (sec_meta new)\<rparr>\<rparr> \<and>
     (is_controlled_by l (sec_meta old) (db_meta db) \<longleftrightarrow> \<not> SecretOwnedByDatabase db) \<and>
     (is_controlled_by l (sec_meta new) (db_meta db) \<longleftrightarrow> SecretOwnedByDatabase db)"

definition names_object :: "object_meta \<Rightarrow> serenedb \<Rightarrow> string \<Rightarrow> bool" where
  "names_object m db n \<longleftrightarrow> om_name m = n \<and> om_namespace m = Namespace db"

definition secrets_ready :: "rollout_watch \<Rightarrow> serenedb \<Rightarrow> bool" where
  "secrets_ready w db \<longleftrightarrow> vw_password w \<and> (tls_enabled (sp_tls (db_spec db)) \<longrightarrow> vw_tls w)"

definition rollout_status_ok :: "rollout_watch \<Rightarrow> serenedb \<Rightarrow> serenedb \<Rightarrow> serenedb \<Rightarrow> bool" where
  "rollout_status_ok w db old new \<longleftrightarrow> old = db \<and> db_meta new = db_meta db \<and> db_spec new = db_spec db \<and>
     (map_option fst (verdict new ConditionReady) = Some ConditionTrue \<or>
      st_version (db_status new) \<noteq> st_version (db_status old) \<longrightarrow>
        (case vw_sts w of None \<Rightarrow> False | Some sts \<Rightarrow> rolloutComplete sts))"

definition rollout_step :: "lib \<Rightarrow> serenedb \<Rightarrow> rollout_watch \<Rightarrow> event \<Rightarrow> rollout_watch option" where
  "rollout_step l db w e = (case e of
     GotSecret ns n r \<Rightarrow> Some (if ns \<noteq> Namespace db then w else w\<lparr>
       vw_secret := (if n = SecretName db then Some r else vw_secret w),
       vw_password := (vw_password w \<or> n = SecretName db \<and> has_password db r),
       vw_tls := (vw_tls w \<or> n = tls_secret_name (sp_tls (db_spec db)) \<and> err_of r = None)\<rparr>)
   | Drew _ _ \<Rightarrow> Some w
   | CreatedSecret s r \<Rightarrow>
       if secret_creation_ok l w db s then Some (w\<lparr>vw_password := (vw_password w \<or> accepted r)\<rparr>) else None
   | PatchedSecret old new _ \<Rightarrow> if secret_patch_ok l w db old new then Some w else None
   | AppliedConfigMap cm r \<Rightarrow>
       if secrets_ready w db \<and> names_object (cm_meta cm) db (Name db) then Some (w\<lparr>vw_config := (r = None)\<rparr>) else None
   | AppliedService svc r \<Rightarrow>
       if vw_config w \<and> om_namespace (svc_meta svc) = Namespace db
       then Some (if r = None then w\<lparr>vw_services := om_name (svc_meta svc) # vw_services w\<rparr> else w) else None
   | AppliedStatefulSet sts r \<Rightarrow>
       if secrets_ready w db \<and> vw_config w \<and> {Name db, HeadlessServiceName db} \<subseteq> set (vw_services w) \<and>
         names_object (sts_meta sts) db (Name db)
       then Some (w\<lparr>vw_sts := (case r of Inl _ \<Rightarrow> None | Inr s \<Rightarrow> Some s)\<rparr>) else None
   | AppliedNetworkPolicy np _ \<Rightarrow>
       if nc_enabled (sp_network_policy (db_spec db)) \<and> vw_sts w \<noteq> None \<and> names_object (np_meta np) db (Name db)
       then Some w else None
   | GotNetworkPolicy ns n r \<Rightarrow> Some (w\<lparr>vw_policy := (if ns = Namespace db \<and> n = Name db
       then (case r of Inl _ \<Rightarrow> None | Inr np \<Rightarrow> Some np) else None)\<rparr>)
   | DeletedNetworkPolicy np _ \<Rightarrow>
       if \<not> nc_enabled (sp_network_policy (db_spec db)) \<and> vw_policy w = Some np \<and>
         is_controlled_by l (np_meta np) (db_meta db) then Some w else None
   | PatchedSereneDBStatus old new _ \<Rightarrow> if rollout_status_ok w db old new then Some w else None
   | _ \<Rightarrow> None)"

definition rollout_rule :: "lib \<Rightarrow> rollout_watch \<Rightarrow> event \<Rightarrow> rollout_watch option" where
  "rollout_rule l w e = (case e of
     GotSereneDB _ _ r \<Rightarrow> Some (rollout_watch_start\<lparr>vw_db := (case r of Inl _ \<Rightarrow> None | Inr db \<Rightarrow>
       if IsZero (om_deletion_timestamp (db_meta db)) then Some db else None)\<rparr>)
   | _ \<Rightarrow> (case vw_db w of None \<Rightarrow> None | Some db \<Rightarrow> rollout_step l db w e))"

lemma rollout_rule_step [simp]:
  assumes "vw_db w = Some db"
  shows "rollout_rule l w (GotSecret ns n r) = rollout_step l db w (GotSecret ns n r)"
    "rollout_rule l w (Drew k d) = Some w"
    "rollout_rule l w (CreatedSecret s x) = rollout_step l db w (CreatedSecret s x)"
    "rollout_rule l w (PatchedSecret old new x) = rollout_step l db w (PatchedSecret old new x)"
    "rollout_rule l w (AppliedConfigMap cm x) = rollout_step l db w (AppliedConfigMap cm x)"
    "rollout_rule l w (AppliedService svc x) = rollout_step l db w (AppliedService svc x)"
    "rollout_rule l w (AppliedStatefulSet sts y) = rollout_step l db w (AppliedStatefulSet sts y)"
    "rollout_rule l w (AppliedNetworkPolicy np x) = rollout_step l db w (AppliedNetworkPolicy np x)"
    "rollout_rule l w (GotNetworkPolicy ns n z) = rollout_step l db w (GotNetworkPolicy ns n z)"
    "rollout_rule l w (DeletedNetworkPolicy np x) = rollout_step l db w (DeletedNetworkPolicy np x)"
    "rollout_rule l w (PatchedSereneDBStatus a b x) = rollout_step l db w (PatchedSereneDBStatus a b x)"
  using assms by (simp_all add: rollout_rule_def rollout_step_def)

text \<open>The steps, one by one.\<close>

fun is_draw :: "event \<Rightarrow> bool" where
  "is_draw (Drew _ _) \<longleftrightarrow> True"
| "is_draw _ \<longleftrightarrow> False"

lemma password_draws: "emits (password_bytes rt i out) (\<lambda>_ es. list_all is_draw es)"
proof (induction i arbitrary: out)
  case (Suc i)
  show ?case
    unfolding password_bytes.simps rand_int_def
    by (auto intro!: emits_bind emits_call emits_sum emits_ret emits_weaken [OF Suc.IH])
qed (simp add: emits_ret)

lemma generated_shape:
  "emits (GeneratedSecret rt db) (\<lambda>r es. list_all is_draw es \<and> (\<forall>s. r = Inr s \<longrightarrow>
     om_name (sec_meta s) = Name db \<and> om_namespace (sec_meta s) = Namespace db \<and>
     sec_data s = [] \<and> map fst (sec_string_data s) = [PasswordKey db]))"
  unfolding GeneratedSecret_def randomPassword_def
  by (auto intro!: emits_bind emits_weaken [OF password_draws] emits_sum emits_ret)

lemma draws_kept: "vw_db w = Some db \<Longrightarrow> list_all is_draw es \<Longrightarrow> watch (rollout_rule l) w es = Some w"
proof (induction es)
  case (Cons e es)
  then show ?case by (cases e) simp_all
qed simp

lemma wp_GeneratedSecret:
  assumes "vw_db w = Some db"
  shows "wp (rollout_rule l) (GeneratedSecret rt db) (\<lambda>r w'. w' = w \<and> (\<forall>s. r = Inr s \<longrightarrow>
     om_name (sec_meta s) = Name db \<and> om_namespace (sec_meta s) = Namespace db \<and>
     sec_data s = [] \<and> map fst (sec_string_data s) = [PasswordKey db])) w"
  unfolding wp_def by (rule emits_weaken [OF generated_shape]) (use draws_kept [OF assms] in auto)

lemma owned_secret_ok:
  assumes "owner_law l" "controller_law l" "owned_secret l db s = Inr s'"
  shows "om_name (sec_meta s') = om_name (sec_meta s)" "om_namespace (sec_meta s') = om_namespace (sec_meta s)"
    "sec_string_data s' = sec_string_data s" "sec_data s' = sec_data s"
    "SecretOwnedByDatabase db \<Longrightarrow> is_controlled_by l (sec_meta s') (db_meta db)"
proof -
  show "om_name (sec_meta s') = om_name (sec_meta s)" "om_namespace (sec_meta s') = om_namespace (sec_meta s)"
    "sec_string_data s' = sec_string_data s" "sec_data s' = sec_data s"
    using assms(3) settled_meta [OF assms(1)]
    by (fastforce simp: owned_secret_def split: if_splits sum.splits)+
  show "SecretOwnedByDatabase db \<Longrightarrow> is_controlled_by l (sec_meta s') (db_meta db)"
    using assms(2,3) by (auto simp: owned_secret_def controller_law_def split: sum.splits)
qed

text \<open>After a step the run is still about the same SereneDB.\<close>

definition password_step_ok :: "serenedb \<Rightarrow> go_error option \<Rightarrow> rollout_watch \<Rightarrow> bool" where
  "password_step_ok db r w \<longleftrightarrow> vw_db w = Some db \<and> (r = None \<longrightarrow> vw_password w)"

lemma createGeneratedSecret_rule:
  assumes "owner_law l" "controller_law l" "vw_db w = Some db" "own_secret db" "vw_secret w = Some (Inl err)" "is_not_found err"
  shows "wp (rollout_rule l) (createGeneratedSecret l rt c db) (password_step_ok db) w"
  unfolding createGeneratedSecret_def
proof (rule wp_bind, rule wp_weaken [OF wp_GeneratedSecret [OF assms(3)]], elim conjE, simp only:, rule wp_sum, goal_cases)
  case (1 r w' e)
  then show ?case using assms(3) by (auto intro!: wp_ret simp: password_step_ok_def)
next
  case (2 r w' s)
  show ?case
  proof (rule wp_sum, goal_cases)
    case 1
    then show ?case using assms(3) by (auto intro!: wp_ret simp: password_step_ok_def)
  next
    case (2 s')
    note ok = owned_secret_ok [OF assms(1,2) this]
    have "secret_creation_ok l w db s'"
      using assms(4-6) ok \<open>\<forall>s. r = Inr s \<longrightarrow> _ s\<close> \<open>r = Inr s\<close> by (simp add: secret_creation_ok_def)
    then show ?case
      using assms(3) by (auto intro!: wp_intro simp: rollout_step_def password_step_ok_def)
  qed
qed

lemma syncSecretOwnership_rule:
  assumes "owner_law l" "controller_law l" "vw_db w = Some db" "own_secret db"
    and "vw_secret w = Some (Inr secret)" "vw_password w"
  shows "wp (rollout_rule l) (syncSecretOwnership l c db secret) (password_step_ok db) w"
proof -
  have patch: "wp (rollout_rule l) (call f (PatchedSecret secret (secret\<lparr>sec_meta := m\<rparr>)) \<bind> (\<lambda>err. case err of
                 Some e \<Rightarrow> ret (Some (Wrap t e)) | None \<Rightarrow> ret None)) (password_step_ok db) w"
    if "is_controlled_by l m (db_meta db) \<longleftrightarrow> SecretOwnedByDatabase db"
      "is_controlled_by l (sec_meta secret) (db_meta db) \<longleftrightarrow> \<not> SecretOwnedByDatabase db"
      "\<exists>refs. m = (sec_meta secret)\<lparr>om_owner_references := refs\<rparr>" for f m t
  proof -
    have "secret_patch_ok l w db secret (secret\<lparr>sec_meta := m\<rparr>)"
      using assms that by (auto simp: secret_patch_ok_def)
    then show ?thesis
      using assms by (auto intro!: wp_intro simp: rollout_step_def password_step_ok_def)
  qed
  have set: "set_controller_reference l (db_meta db) (sec_meta secret) = Inr m \<Longrightarrow>
      is_controlled_by l m (db_meta db) \<and> (\<exists>refs. m = (sec_meta secret)\<lparr>om_owner_references := refs\<rparr>)"
    and remove: "remove_controller_reference l (db_meta db) (sec_meta secret) = Inr m \<Longrightarrow>
      \<not> is_controlled_by l m (db_meta db) \<and> (\<exists>refs. m = (sec_meta secret)\<lparr>om_owner_references := refs\<rparr>)" for m
    using assms(1,2) unfolding controller_law_def owner_law_def by blast+
  have finished: "password_step_ok db None w" and failed: "password_step_ok db (Some e) w" for e
    using assms by (simp_all add: password_step_ok_def)
  show ?thesis
    unfolding syncSecretOwnership_def Let_def
    by (cases "SecretOwnedByDatabase db";
        cases "set_controller_reference l (db_meta db) (sec_meta secret)";
        cases "remove_controller_reference l (db_meta db) (sec_meta secret)")
      (auto intro!: wp_if wp_ret patch simp: finished failed set remove)
qed

lemma read_password:
  assumes "vw_db w = Some db"
  shows "wp (rollout_rule l) (get_secret c (Namespace db) (SecretName db)) (\<lambda>r w'. vw_db w' = Some db \<and>
    vw_secret w' = Some r \<and> (has_password db r \<longrightarrow> vw_password w')) w"
  unfolding get_secret_def by (rule wp_call) (use assms in \<open>simp add: rollout_step_def\<close>)

lemma reconcileSecret_rule:
  assumes "owner_law l" "controller_law l" "vw_db w = Some db"
  shows "wp (rollout_rule l) (reconcileSecret l rt c db) (password_step_ok db) w"
proof (cases "au_existing_secret (sp_auth (db_spec db)) = []")
  case True
  then have generated: "\<not> au_existing_secret (sp_auth (db_spec db)) \<noteq> []" by simp
  from True have name: "SecretName db = Name db" and own: "own_secret db" by (simp_all add: SecretName_def own_secret_def)
  show ?thesis
    unfolding reconcileSecret_def if_not_P [OF generated]
    unfolding name [symmetric]
  proof (rule wp_bind, rule wp_weaken [OF read_password [OF assms(3)]], elim conjE, rule wp_sum, goal_cases)
    case (1 r w' err)
    show ?case
    proof (rule wp_if)
      assume "is_not_found err"
      with 1 show "wp (rollout_rule l) (createGeneratedSecret l rt c db) (password_step_ok db) w'"
        by (intro createGeneratedSecret_rule assms own) simp_all
    next
      show "wp (rollout_rule l) (ret (Some (Wrap ''get secret'' err))) (password_step_ok db) w'"
        using 1 by (simp add: wp_ret password_step_ok_def)
    qed
  next
    case (2 r w' s)
    show ?case
    proof (rule wp_if)
      show "wp (rollout_rule l) (ret (Some (Blocked x))) (password_step_ok db) w'" for x
        using 2 by (simp add: wp_ret password_step_ok_def)
    next
      assume "map_of (sec_data s) (PasswordKey db) \<noteq> None"
      with 2 show "wp (rollout_rule l) (syncSecretOwnership l c db s) (password_step_ok db) w'"
        by (intro syncSecretOwnership_rule assms own) (auto simp: has_password_def)
    qed
  qed
next
  case False
  then have name: "au_existing_secret (sp_auth (db_spec db)) = SecretName db" by (simp add: SecretName_def)
  show ?thesis
    unfolding reconcileSecret_def if_P [OF False] checkExistingSecret_def Let_def
    unfolding name
    by (rule wp_bind, rule wp_weaken [OF read_password [OF assms(3)]])
      (auto intro!: wp_sum wp_if wp_ret simp: password_step_ok_def has_password_def)
qed

text \<open>What holds of the watch before the objects are written.\<close>

definition secrets_step_ok :: "serenedb \<Rightarrow> go_error option \<Rightarrow> rollout_watch \<Rightarrow> bool" where
  "secrets_step_ok db r w \<longleftrightarrow> vw_db w = Some db \<and> (r = None \<longrightarrow> secrets_ready w db)"

lemma checkTLSSecret_rule:
  assumes "vw_db w = Some db" "vw_password w"
  shows "wp (rollout_rule l) (checkTLSSecret c db) (secrets_step_ok db) w"
  unfolding checkTLSSecret_def get_secret_def Let_def
  using assms by (auto intro!: wp_intro simp: rollout_step_def secrets_step_ok_def secrets_ready_def)

lemma names_object_meta [simp]:
  "names_object (named_meta (cm_meta (ConfigMap db))) db (Name db)"
  "om_name (named_meta (svc_meta (Service db))) = Name db"
  "om_name (named_meta (svc_meta (HeadlessService db))) = HeadlessServiceName db"
  "om_namespace (named_meta (svc_meta (Service db))) = Namespace db"
  "om_namespace (named_meta (svc_meta (HeadlessService db))) = Namespace db"
  "names_object (named_meta (sts_meta (StatefulSet db h))) db (Name db)"
  "names_object (named_meta (np_meta (NetworkPolicy db))) db (Name db)"
  "om_name (np_meta (NetworkPolicy db)) = Name db" "om_namespace (np_meta (NetworkPolicy db)) = Namespace db"
  by (simp_all add: names_object_def named_meta_def ConfigMap_def Service_def HeadlessService_def
      NetworkPolicy_def Let_def)

lemma reconcileConfigMap_rule:
  assumes "vw_db w = Some db" "secrets_ready w db"
  shows "wp (rollout_rule l) (reconcileConfigMap l c db) (\<lambda>r w'. vw_db w' = Some db \<and> secrets_ready w' db \<and>
    (\<forall>h. r = Inr h \<longrightarrow> vw_config w')) w"
  unfolding reconcileConfigMap_def Let_def
  using assms by (auto intro!: wp_intro simp: rollout_step_def secrets_ready_def)

lemma applyService_rule:
  assumes "vw_db w = Some db" "vw_config w" "om_namespace (named_meta (svc_meta desired)) = Namespace db"
  shows "wp (rollout_rule l) (applyService l c db desired) (\<lambda>r w'.
    w' = (if r = None then w\<lparr>vw_services := om_name (named_meta (svc_meta desired)) # vw_services w\<rparr> else w)) w"
  unfolding applyService_def Let_def
  using assms by (auto intro!: wp_intro simp: rollout_step_def)

lemma reconcileServices_rule:
  assumes "vw_db w = Some db" "secrets_ready w db" "vw_config w"
  shows "wp (rollout_rule l) (reconcileServices l c db) (\<lambda>r w'. vw_db w' = Some db \<and> secrets_ready w' db \<and>
    vw_config w' \<and> (r = None \<longrightarrow> {Name db, HeadlessServiceName db} \<subseteq> set (vw_services w'))) w"
  unfolding reconcileServices_def
proof (rule wp_bind, rule wp_weaken [OF applyService_rule [OF assms(1,3)]], simp, rule wp_option, goal_cases)
  case (1 r w')
  then have w': "w' = w\<lparr>vw_services := Name db # vw_services w\<rparr>" by simp
  have "wp (rollout_rule l) (applyService l c db (HeadlessService db))
     (\<lambda>r w''. w'' = (if r = None then w'\<lparr>vw_services := om_name (named_meta (svc_meta (HeadlessService db))) # vw_services w'\<rparr> else w')) w'"
    by (rule applyService_rule) (use assms w' in simp_all)
  then show ?case
    by (rule wp_then) (use assms w' in \<open>auto intro!: wp_intro simp: secrets_ready_def split: if_splits\<close>)
next
  case (2 r w' e)
  then show ?case using assms by (auto intro!: wp_ret)
qed

lemma reconcileStatefulSet_rule:
  assumes "vw_db w = Some db" "secrets_ready w db" "vw_config w"
    "{Name db, HeadlessServiceName db} \<subseteq> set (vw_services w)"
  shows "wp (rollout_rule l) (reconcileStatefulSet l c db h) (\<lambda>r w'. vw_db w' = Some db \<and>
    (\<forall>sts. r = Inr sts \<longrightarrow> vw_sts w' = Some sts)) w"
  unfolding reconcileStatefulSet_def Let_def
  using assms by (auto intro!: wp_intro simp: rollout_step_def)

lemma reconcileNetworkPolicy_rule:
  assumes "vw_db w = Some db" "vw_sts w = Some sts"
  shows "wp (rollout_rule l) (reconcileNetworkPolicy l c db) (\<lambda>_ w'. vw_db w' = Some db \<and> vw_sts w' = Some sts) w"
  unfolding reconcileNetworkPolicy_def deleteOwnedNetworkPolicy_def Let_def
  using assms by (auto intro!: wp_intro simp: rollout_step_def split: if_splits)

lemma reconcileResources_rule:
  assumes "owner_law l" "controller_law l" "vw_db w = Some db"
  shows "wp (rollout_rule l) (reconcileResources l rt c db) (\<lambda>r w'. vw_db w' = Some db \<and>
    (\<forall>sts. r = Inr sts \<longrightarrow> vw_sts w' = Some sts)) w"
  unfolding reconcileResources_def
proof (rule wp_then [OF reconcileSecret_rule [OF assms]], rule wp_option, goal_cases)
  case (1 r w)
  then have "vw_db w = Some db" "vw_password w" by (simp_all add: password_step_ok_def)
  then show ?case
  proof (rule wp_then [OF checkTLSSecret_rule], intro wp_option, goal_cases)
    case (1 r w)
    then have "vw_db w = Some db" "secrets_ready w db" by (simp_all add: secrets_step_ok_def)
    then show ?case
    proof (rule wp_then [OF reconcileConfigMap_rule], elim conjE, intro wp_sum, goal_cases)
      case (2 r w h)
      then have "vw_db w = Some db" "secrets_ready w db" "vw_config w" by simp_all
      then show ?case
      proof (rule wp_then [OF reconcileServices_rule], elim conjE, intro wp_option, goal_cases)
        case (1 r w)
        then have "{Name db, HeadlessServiceName db} \<subseteq> set (vw_services w)" by simp
        with 1 show ?case
        proof (intro wp_then [OF reconcileStatefulSet_rule], simp, simp, simp, simp, elim conjE, intro wp_sum, goal_cases)
          case (2 r w sts)
          then have "vw_db w = Some db" "vw_sts w = Some sts" by simp_all
          then show ?case
            by (rule wp_then [OF reconcileNetworkPolicy_rule]) (auto intro!: wp_intro)
        qed (simp add: wp_ret)
      qed (simp add: wp_ret)
    qed (simp add: wp_ret)
  next
    case (2 r w e)
    then show ?case by (simp add: wp_ret secrets_step_ok_def)
  qed
next
  case (2 r w e)
  then show ?case by (simp add: wp_ret password_step_ok_def)
qed

lemma described_ok:
  assumes "condition_law l" "vw_db w = Some db" "\<forall>sts. r = Inr sts \<longrightarrow> vw_sts w = Some sts"
  shows "rollout_status_ok w db db (describe l db r)"
  using describe_verdicts [OF assms(1), of db r] describe_rest(1,2,4) [OF assms(1), of db r] assms(3) ready_progressing
  by (cases r) (auto simp: rollout_status_ok_def split: go_error.splits if_splits)

lemma SereneDB_Reconcile_rule:
  assumes "owner_law l" "controller_law l" "condition_law l"
  shows "wp (rollout_rule l) (SereneDB_Reconcile l rt c ns n) (\<lambda>_ _. True) w"
proof -
  have got: "wp (rollout_rule l) (get_serenedb c ns n) (\<lambda>r w'. \<forall>db. r = Inr db \<longrightarrow>
      IsZero (om_deletion_timestamp (db_meta db)) \<longrightarrow> vw_db w' = Some db) w"
    unfolding get_serenedb_def by (rule wp_call) (simp add: rollout_rule_def)
  show ?thesis
    unfolding SereneDB_Reconcile_def
  proof (rule wp_then [OF got], intro wp_sum wp_if, simp add: wp_ret, simp add: wp_ret, goal_cases)
    case (1 r w db)
    then have "vw_db w = Some db" by simp
    from reconcileResources_rule [OF assms(1,2) this] show ?case
    proof (rule wp_then, elim conjE)
      fix x :: "go_error + stateful_set" and w' :: rollout_watch
      assume "vw_db w' = Some db" "\<forall>sts. x = Inr sts \<longrightarrow> vw_sts w' = Some sts"
      with described_ok [OF assms(3) this] show "wp (rollout_rule l)
          (call (k_patch_serenedb_status c db (describe l db x)) (PatchedSereneDBStatus db (describe l db x)) \<bind> (\<lambda>p.
           case p of
             Some e \<Rightarrow> ret (no_requeue, Some (Wrap ''update status'' e))
           | None \<Rightarrow> (case asBlocked (err_of x) of
               Some b \<Rightarrow> ret (\<lparr>requeue_after = missingDependencyRequeue\<rparr>, None)
             | None \<Rightarrow> ret (no_requeue, err_of x)))) (\<lambda>_ _. True) w'"
        by (auto intro!: wp_intro simp: rollout_step_def)
    qed
  qed
qed

text \<open>C9. A reconcile of a SereneDB writes in this order and under these conditions: nothing for one that
  is being deleted; its own Secret is created only when a read found none, with a value under
  the password key only, and an existing one is patched only in its owner references, everything
  else of it kept, only when its ownership is not the wanted one, and owned afterwards exactly
  when it is to go with the SereneDB; the ConfigMap is applied only after the
  password and, with TLS, the certificate Secret are there, the Services only after the
  ConfigMap, the StatefulSet only after both Services; the NetworkPolicy is applied only when
  enabled, and deleted only when disabled and the one just read is controlled by the SereneDB;
  and the status claims Ready, or another version, only when the StatefulSet just applied has
  rolled out.\<close>

theorem rollout_follows_rule:
  assumes "owner_law l" "controller_law l" "condition_law l"
  shows "complies (rollout_rule l) rollout_watch_start (trace_of (SereneDB_Reconcile l rt c ns n) e)"
  by (rule wp_complies [OF SereneDB_Reconcile_rule [OF assms]])

section \<open>What the work queue is told\<close>

text \<open>
  How the outcome of the steps follows from their calls. \<open>harmless\<close>: a call that succeeded, or
  failed in a way the code takes as an answer. \<open>reported\<close>: the error a failed call, or a Secret
  without its key, is reported as.
\<close>

fun harmless :: "serenedb \<Rightarrow> event \<Rightarrow> bool" where
  "harmless db (GotSecret ns n (Inl err)) \<longleftrightarrow> is_not_found err \<and> own_secret db \<and> n = SecretName db"
| "harmless db (Drew _ (Inl err)) \<longleftrightarrow> False"
| "harmless db (CreatedSecret _ (Some err)) \<longleftrightarrow> is_already_exists err"
| "harmless db (PatchedSecret _ _ (Some err)) \<longleftrightarrow> False"
| "harmless db (AppliedConfigMap _ (Some err)) \<longleftrightarrow> False"
| "harmless db (AppliedService _ (Some err)) \<longleftrightarrow> False"
| "harmless db (AppliedStatefulSet _ (Inl err)) \<longleftrightarrow> False"
| "harmless db (GotNetworkPolicy _ _ (Inl err)) \<longleftrightarrow> is_not_found err"
| "harmless db (AppliedNetworkPolicy _ (Some err)) \<longleftrightarrow> False"
| "harmless db (DeletedNetworkPolicy _ (Some err)) \<longleftrightarrow> is_not_found err"
| "harmless db _ \<longleftrightarrow> True"

fun is_creation :: "event \<Rightarrow> bool" where
  "is_creation (CreatedSecret _ _) \<longleftrightarrow> True"
| "is_creation _ \<longleftrightarrow> False"

definition reads_tls :: "serenedb \<Rightarrow> string \<Rightarrow> bool" where
  "reads_tls db n \<longleftrightarrow> tls_enabled (sp_tls (db_spec db)) \<and> n = tls_secret_name (sp_tls (db_spec db))"

fun reported :: "serenedb \<Rightarrow> event \<Rightarrow> go_error \<Rightarrow> bool" where
  "reported db (GotSecret ns n (Inl err)) e \<longleftrightarrow> ns = Namespace db \<and>
     (if is_not_found err then
        \<not> own_secret db \<and> n = SecretName db \<and>
          e = Blocked \<lparr>reason = reasonSecretMissing, message = ''secret '' @ fmt_q n @ '' not found''\<rparr> \<or>
        reads_tls db n \<and>
          e = Blocked \<lparr>reason = reasonTLSSecretMissing, message = ''tls secret '' @ fmt_q n @ '' not found''\<rparr>
      else n = SecretName db \<and> e = Wrap (if own_secret db then ''get secret'' else ''get existing secret'') err \<or>
        reads_tls db n \<and> e = Wrap ''get tls secret'' err)"
| "reported db (GotSecret ns n (Inr s)) e \<longleftrightarrow> ns = Namespace db \<and> n = SecretName db \<and>
     map_of (sec_data s) (PasswordKey db) = None \<and>
     e = Blocked \<lparr>reason = reasonSecretKeyMissing, message = ''secret '' @
       fmt_q (if own_secret db then om_name (sec_meta s) else n) @ '' has no key '' @ fmt_q (PasswordKey db)\<rparr>"
| "reported db (Drew _ (Inl err)) e \<longleftrightarrow> e = Wrap ''generate password'' err"
| "reported db (CreatedSecret _ (Some err)) e \<longleftrightarrow> \<not> is_already_exists err \<and> e = Wrap ''create secret'' err"
| "reported db (PatchedSecret _ _ (Some err)) e \<longleftrightarrow> e = Wrap ''patch secret owner'' err"
| "reported db (AppliedConfigMap _ (Some err)) e \<longleftrightarrow> e = Wrap ''reconcile configmap'' err"
| "reported db (AppliedService svc (Some err)) e \<longleftrightarrow> e = Wrap (if om_name (svc_meta svc) = Name db
     then ''reconcile service'' else ''reconcile headless service'') err"
| "reported db (AppliedStatefulSet _ (Inl err)) e \<longleftrightarrow> e = Wrap ''reconcile statefulset'' err"
| "reported db (GotNetworkPolicy _ _ (Inl err)) e \<longleftrightarrow> \<not> is_not_found err \<and> e = Wrap ''get networkpolicy'' err"
| "reported db (AppliedNetworkPolicy _ (Some err)) e \<longleftrightarrow> e = Wrap ''reconcile networkpolicy'' err"
| "reported db (DeletedNetworkPolicy _ (Some err)) e \<longleftrightarrow> \<not> is_not_found err \<and> e = Wrap ''delete networkpolicy'' err"
| "reported db _ e \<longleftrightarrow> False"

text \<open>The two failures that are no call: TLS without the name of its Secret, and a library that
  refuses the change of owner of the Secret read or generated.\<close>

definition tls_unnamed :: "serenedb \<Rightarrow> go_error \<Rightarrow> bool" where
  "tls_unnamed db e \<longleftrightarrow> tls_enabled (sp_tls (db_spec db)) \<and> tls_secret_name (sp_tls (db_spec db)) = [] \<and>
     e = Blocked \<lparr>reason = reasonTLSSecretRequired, message = ''tls.secretName is required when tls.enabled is true''\<rparr>"

definition generated_meta :: "serenedb \<Rightarrow> object_meta" where
  "generated_meta db = empty_meta\<lparr>om_name := Name db, om_namespace := Namespace db, om_labels := Labels db\<rparr>"

definition owner_refused :: "lib \<Rightarrow> serenedb \<Rightarrow> event list \<Rightarrow> go_error \<Rightarrow> bool" where
  "owner_refused l db es e \<longleftrightarrow> (\<exists>m err.
     (m = generated_meta db \<or> (\<exists>s. GotSecret (Namespace db) (SecretName db) (Inr s) \<in> set es \<and> m = sec_meta s)) \<and>
     (if SecretOwnedByDatabase db
      then set_controller_reference l (db_meta db) m = Inl err \<and> e = Wrap ''set secret owner'' err
      else remove_controller_reference l (db_meta db) m = Inl err \<and> e = Wrap ''remove secret owner'' err))"

text \<open>A run of steps that ends in an error: nothing failed before, and the last call is what is
  reported, or nothing failed and the error is one of those two.\<close>

definition blamed :: "lib \<Rightarrow> serenedb \<Rightarrow> event list \<Rightarrow> go_error \<Rightarrow> bool" where
  "blamed l db es e \<longleftrightarrow>
     es \<noteq> [] \<and> list_all (harmless db) (butlast es) \<and> reported db (last es) e \<or>
     list_all (harmless db) es \<and> (tls_unnamed db e \<or> owner_refused l db es e)"

text \<open>The whole: the password Secret is read first and must have its key, or be created; a run that
  ends well has no failure, found the certificate Secret and applied the StatefulSet it returns.\<close>

definition explained :: "lib \<Rightarrow> serenedb \<Rightarrow> go_error + stateful_set \<Rightarrow> event list \<Rightarrow> bool" where
  "explained l db r es \<longleftrightarrow> (\<exists>read rest. es = GotSecret (Namespace db) (SecretName db) read # rest \<and>
     (case read of Inl _ \<Rightarrow> True | Inr s \<Rightarrow> map_of (sec_data s) (PasswordKey db) = None \<longrightarrow>
        rest = [] \<and> (\<exists>e. r = Inl e \<and> reported db (hd es) e)) \<and>
     (case r of Inl e \<Rightarrow> blamed l db es e
      | Inr sts \<Rightarrow> list_all (harmless db) es \<and>
          (err_of read \<noteq> None \<longrightarrow> list_ex is_creation rest) \<and>
          (tls_enabled (sp_tls (db_spec db)) \<longrightarrow> tls_secret_name (sp_tls (db_spec db)) \<noteq> [] \<and>
            (\<exists>s. GotSecret (Namespace db) (tls_secret_name (sp_tls (db_spec db))) (Inr s) \<in> set rest)) \<and>
          (\<exists>x. AppliedStatefulSet x (Inr sts) \<in> set rest)))"

lemma blamed_after: "list_all (harmless db) es \<Longrightarrow> blamed l db fs e \<Longrightarrow> blamed l db (es @ fs) e"
  by (cases "fs = []") (auto simp: blamed_def owner_refused_def butlast_append)

lemma blamed_last: "list_all (harmless db) es \<Longrightarrow> reported db ev e \<Longrightarrow> blamed l db (es @ [ev]) e"
  by (simp add: blamed_def)

lemma blamed_single: "reported db ev e \<Longrightarrow> blamed l db [ev] e"
  by (simp add: blamed_def)

text \<open>The steps, one by one.\<close>

definition step_explained :: "lib \<Rightarrow> serenedb \<Rightarrow> (event list \<Rightarrow> bool) \<Rightarrow> go_error option \<Rightarrow> event list \<Rightarrow> bool" where
  "step_explained l db Q r es \<longleftrightarrow> (case r of None \<Rightarrow> list_all (harmless db) es \<and> Q es | Some e \<Rightarrow> blamed l db es e)"

lemma password_explained: "emits (password_bytes rt i out) (\<lambda>r es. case r of Inr _ \<Rightarrow> list_all (harmless db) es
  | Inl err \<Rightarrow> es \<noteq> [] \<and> list_all (harmless db) (butlast es) \<and> (\<exists>k. last es = Drew k (Inl err)))"
proof (induction i arbitrary: out)
  case (Suc i)
  show ?case
    unfolding password_bytes.simps rand_int_def
    by (rule emits_bind, rule emits_call, rule emits_sum)
      (auto intro!: emits_ret emits_weaken [OF Suc.IH] split: sum.splits)
qed (simp add: emits_ret)

lemma generated_explained: "emits (GeneratedSecret rt db) (\<lambda>r es. case r of
    Inr s \<Rightarrow> list_all (harmless db) es \<and> sec_meta s = generated_meta db
  | Inl err \<Rightarrow> es \<noteq> [] \<and> list_all (harmless db) (butlast es) \<and> (\<exists>k. last es = Drew k (Inl err)))"
  unfolding GeneratedSecret_def randomPassword_def
  by (rule emits_bind, rule emits_weaken [OF password_explained [where db = db]])
    (auto intro!: emits_sum emits_ret simp: generated_meta_def split: sum.splits)

lemma createGeneratedSecret_explained:
  "emits (createGeneratedSecret l rt c db) (step_explained l db (list_ex is_creation))"
  unfolding createGeneratedSecret_def
proof (rule emits_bind, rule emits_weaken [OF generated_explained], rule emits_sum, goal_cases)
  case (1 r es err)
  then obtain k where "es \<noteq> []" "last es = Drew k (Inl err)" "list_all (harmless db) (butlast es)" by auto
  moreover from this have "es = butlast es @ [Drew k (Inl err)]" by (metis append_butlast_last_id)
  ultimately show ?case
    using blamed_last [of db "butlast es" "Drew k (Inl err)"] by (auto intro!: emits_ret simp: step_explained_def)
next
  case (2 r es s)
  then have ok: "list_all (harmless db) es" and meta: "sec_meta s = generated_meta db" by simp_all
  show ?case
  proof (rule emits_sum, goal_cases)
    case (1 err)
    then have "owner_refused l db es err"
      using meta by (auto simp: owned_secret_def owner_refused_def split: if_splits sum.splits)
    with ok show ?case by (auto intro!: emits_ret simp: step_explained_def blamed_def)
  next
    case (2 s')
    show ?case
      by (rule emits_bind, rule emits_call, rule emits_option)
        (use ok in \<open>auto intro!: emits_if emits_ret blamed_last simp: step_explained_def\<close>)
  qed
qed

lemma syncSecretOwnership_explained:
  assumes "GotSecret (Namespace db) (SecretName db) (Inr secret) = ev"
  shows "emits (syncSecretOwnership l c db secret) (\<lambda>r es. step_explained l db (\<lambda>_. True) r (ev # es))"
proof -
  have patch: "emits (call f (PatchedSecret a b) \<bind> (\<lambda>err. case err of
        Some e \<Rightarrow> ret (Some (Wrap ''patch secret owner'' e)) | None \<Rightarrow> ret None))
      (\<lambda>r es. step_explained l db (\<lambda>_. True) r (ev # es))" for f a b
    by (rule emits_bind, rule emits_call, rule emits_option)
      (use assms in \<open>auto intro!: emits_ret simp: step_explained_def blamed_def\<close>)
  have refused: "emits (ret (Some (Wrap t err))) (\<lambda>r es. step_explained l db (\<lambda>_. True) r (ev # es))"
    if "if SecretOwnedByDatabase db
      then set_controller_reference l (db_meta db) (sec_meta secret) = Inl err \<and> t = ''set secret owner''
      else remove_controller_reference l (db_meta db) (sec_meta secret) = Inl err \<and> t = ''remove secret owner''" for t err
  proof (rule emits_ret)
    have "owner_refused l db [ev] (Wrap t err)"
      unfolding owner_refused_def using that assms by (intro exI [where x = "sec_meta secret"] exI [where x = err]) auto
    then show "step_explained l db (\<lambda>_. True) (Some (Wrap t err)) (ev # [])"
      using assms by (auto simp: step_explained_def blamed_def)
  qed
  have silent: "emits (ret None) (\<lambda>r es. step_explained l db (\<lambda>_. True) r (ev # es))"
    using assms by (auto intro!: emits_ret simp: step_explained_def)
  show ?thesis
    unfolding syncSecretOwnership_def Let_def
    by (cases "SecretOwnedByDatabase db";
        cases "set_controller_reference l (db_meta db) (sec_meta secret)";
        cases "remove_controller_reference l (db_meta db) (sec_meta secret)")
      (auto intro!: emits_if patch refused silent)
qed

text \<open>The password step, with the first read in front.\<close>

definition secret_explained :: "lib \<Rightarrow> serenedb \<Rightarrow> go_error option \<Rightarrow> event list \<Rightarrow> bool" where
  "secret_explained l db r es \<longleftrightarrow> (\<exists>read rest. es = GotSecret (Namespace db) (SecretName db) read # rest \<and>
     (case read of Inl _ \<Rightarrow> r = None \<longrightarrow> list_ex is_creation rest
      | Inr s \<Rightarrow> map_of (sec_data s) (PasswordKey db) = None \<longrightarrow> rest = [] \<and> (\<exists>e. r = Some e \<and> reported db (hd es) e)) \<and>
     step_explained l db (\<lambda>_. True) r es)"

lemma reconcileSecret_explained: "emits (reconcileSecret l rt c db) (secret_explained l db)"
proof (cases "own_secret db")
  case True
  then have name: "SecretName db = Name db" and own: "\<not> au_existing_secret (sp_auth (db_spec db)) \<noteq> []"
    by (simp_all add: SecretName_def own_secret_def)
  show ?thesis
    unfolding reconcileSecret_def if_not_P [OF own] get_secret_def
  proof (rule emits_bind, rule emits_call, rule emits_sum, goal_cases)
    case (1 read err)
    show ?case
    proof (rule emits_if)
      assume "is_not_found err"
      then have ok: "harmless db (GotSecret (Namespace db) (Name db) (Inl err))" using True name by simp
      show "emits (createGeneratedSecret l rt c db) (\<lambda>b fs. secret_explained l db b ([GotSecret (Namespace db) (Name db) read] @ fs))"
        by (rule emits_weaken [OF createGeneratedSecret_explained])
          (use 1 ok blamed_after [of db "[GotSecret (Namespace db) (Name db) (Inl err)]"] in
            \<open>auto simp: secret_explained_def step_explained_def name split: option.splits\<close>)
    next
      assume "\<not> is_not_found err"
      then show "emits (ret (Some (Wrap ''get secret'' err)))
          (\<lambda>b fs. secret_explained l db b ([GotSecret (Namespace db) (Name db) read] @ fs))"
        using 1 True by (auto intro!: emits_ret blamed_single simp: secret_explained_def step_explained_def name)
    qed
  next
    case (2 read s)
    show ?case
    proof (rule emits_if)
      show "emits (ret (Some (Blocked \<lparr>reason = reasonSecretKeyMissing, message = ''secret '' @
            fmt_q (om_name (sec_meta s)) @ '' has no key '' @ fmt_q (PasswordKey db)\<rparr>)))
          (\<lambda>b fs. secret_explained l db b ([GotSecret (Namespace db) (Name db) read] @ fs))"
        if "map_of (sec_data s) (PasswordKey db) = None"
        using 2 True that by (auto intro!: emits_ret blamed_single simp: secret_explained_def step_explained_def name)
      show "emits (syncSecretOwnership l c db s)
          (\<lambda>b fs. secret_explained l db b ([GotSecret (Namespace db) (Name db) read] @ fs))"
        if "map_of (sec_data s) (PasswordKey db) \<noteq> None"
        by (rule emits_weaken [OF syncSecretOwnership_explained [OF refl]])
          (use 2 that in \<open>auto simp: secret_explained_def name\<close>)
    qed
  qed
next
  case False
  then have name: "au_existing_secret (sp_auth (db_spec db)) = SecretName db"
    and other: "au_existing_secret (sp_auth (db_spec db)) \<noteq> []"
    by (simp_all add: SecretName_def own_secret_def)
  show ?thesis
    unfolding reconcileSecret_def if_P [OF other] checkExistingSecret_def Let_def get_secret_def
    unfolding name
    by (rule emits_bind, rule emits_call, rule emits_sum)
      (use False in \<open>auto intro!: emits_if emits_ret blamed_single simp: secret_explained_def step_explained_def\<close>)
qed

lemma checkTLSSecret_explained:
  "emits (checkTLSSecret c db) (step_explained l db (\<lambda>es. tls_enabled (sp_tls (db_spec db)) \<longrightarrow>
     tls_secret_name (sp_tls (db_spec db)) \<noteq> [] \<and>
     (\<exists>s. GotSecret (Namespace db) (tls_secret_name (sp_tls (db_spec db))) (Inr s) \<in> set es)))"
  unfolding checkTLSSecret_def Let_def get_secret_def
  by (rule emits_if, simp add: emits_ret step_explained_def, rule emits_if,
      simp add: emits_ret step_explained_def blamed_def tls_unnamed_def, rule emits_bind, rule emits_call, rule emits_sum)
    (auto intro!: emits_if emits_ret blamed_single simp: step_explained_def reads_tls_def)

lemma reconcileConfigMap_explained:
  "emits (reconcileConfigMap l c db) (\<lambda>r es. step_explained l db (\<lambda>_. True) (err_of r) es)"
  unfolding reconcileConfigMap_def Let_def
  by (rule emits_bind, rule emits_call, rule emits_sum)
    (auto intro!: emits_ret blamed_single simp: step_explained_def)

lemma headless_name: "HeadlessServiceName db \<noteq> Name db"
  by (simp add: HeadlessServiceName_def Name_def)

lemma reconcileServices_explained: "emits (reconcileServices l c db) (step_explained l db (\<lambda>_. True))"
  unfolding reconcileServices_def applyService_def Let_def
  by (rule emits_bind, rule emits_bind, rule emits_call, rule emits_ret, rule emits_option, rule emits_bind,
      rule emits_bind, rule emits_call, rule emits_ret, rule emits_option)
    (auto intro!: emits_ret blamed_single simp: step_explained_def blamed_def headless_name err_of_def
      split: sum.splits)

lemma reconcileStatefulSet_explained: "emits (reconcileStatefulSet l c db h) (\<lambda>r es. case r of
    Inl e \<Rightarrow> blamed l db es e | Inr sts \<Rightarrow> list_all (harmless db) es \<and> (\<exists>x. AppliedStatefulSet x (Inr sts) \<in> set es))"
  unfolding reconcileStatefulSet_def Let_def
  by (rule emits_bind, rule emits_call, rule emits_sum) (auto intro!: emits_ret blamed_single)

lemma reconcileNetworkPolicy_explained: "emits (reconcileNetworkPolicy l c db) (step_explained l db (\<lambda>_. True))"
proof -
  have err: "ignore_not_found err = Some e \<Longrightarrow> \<exists>x. err = Some x \<and> \<not> is_not_found x"
    "ignore_not_found err = None \<Longrightarrow> err = None \<or> (\<exists>x. err = Some x \<and> is_not_found x)" for err e
    by (auto simp: ignore_not_found_def split: option.splits if_splits)
  show ?thesis
    unfolding reconcileNetworkPolicy_def deleteOwnedNetworkPolicy_def Let_def
    by (rule emits_if; rule emits_bind, rule emits_call, rule emits_sum)
      (auto intro!: emits_if emits_bind emits_call emits_option emits_ret blamed_single dest!: err
        simp: step_explained_def blamed_def)
qed

lemma emits_then:
  "emits m R \<Longrightarrow> (\<And>a es. R a es \<Longrightarrow> emits (f a) (\<lambda>b fs. Q b (es @ fs))) \<Longrightarrow> emits (m \<bind> f) Q"
  by (rule emits_bind) (rule emits_weaken)

lemma reconcileResources_explained: "emits (reconcileResources l rt c db) (explained l db)"
  unfolding reconcileResources_def
proof (rule emits_then [OF reconcileSecret_explained], rule emits_option, goal_cases)
  case (1 r es)
  then obtain read rest where got: "es = GotSecret (Namespace db) (SecretName db) read # rest"
    "case read of Inl _ \<Rightarrow> list_ex is_creation rest
      | Inr s \<Rightarrow> map_of (sec_data s) (PasswordKey db) = None \<longrightarrow> rest = [] \<and> (\<exists>e. None = Some e \<and> reported db (hd es) e)"
    "list_all (harmless db) es"
    unfolding secret_explained_def step_explained_def by (auto cong: sum.case_cong)
  then have es: "es = GotSecret (Namespace db) (SecretName db) read # rest"
    "case read of Inl _ \<Rightarrow> list_ex is_creation rest | Inr s \<Rightarrow> map_of (sec_data s) (PasswordKey db) \<noteq> None"
    "list_all (harmless db) es"
    by (simp_all split: sum.splits)
  have wrong: "explained l db (Inl e) (es @ fs)" if "blamed l db fs e" for e fs
    using es blamed_after [OF es(3) that] by (auto simp: explained_def split: sum.splits)
  show ?case
  proof (rule emits_then [OF checkTLSSecret_explained [of c db l]], rule emits_option, goal_cases)
    case (1 r tls)
    then have tls: "list_all (harmless db) tls" "tls_enabled (sp_tls (db_spec db)) \<longrightarrow>
       tls_secret_name (sp_tls (db_spec db)) \<noteq> [] \<and>
       (\<exists>s. GotSecret (Namespace db) (tls_secret_name (sp_tls (db_spec db))) (Inr s) \<in> set tls)"
      by (simp_all add: step_explained_def)
    show ?case
    proof (rule emits_then [OF reconcileConfigMap_explained], rule emits_sum, goal_cases)
      case (1 r cm e)
      then show ?case
        using wrong [OF blamed_after [OF tls(1)]] by (auto intro!: emits_ret simp: step_explained_def)
    next
      case (2 r cm h)
      then have cm: "list_all (harmless db) (tls @ cm)" using tls(1) by (simp add: step_explained_def)
      show ?case
      proof (rule emits_then [OF reconcileServices_explained], rule emits_option, goal_cases)
        case (1 r svc)
        then have svc: "list_all (harmless db) (tls @ cm @ svc)" using cm by (simp add: step_explained_def)
        show ?case
        proof (rule emits_then [OF reconcileStatefulSet_explained], rule emits_sum, goal_cases)
          case (1 r sts e)
          then show ?case
            using wrong [OF blamed_after [OF svc]] by (auto intro!: emits_ret)
        next
          case (2 r ss sts)
          then have ss: "list_all (harmless db) (tls @ cm @ svc @ ss)" "\<exists>x. AppliedStatefulSet x (Inr sts) \<in> set ss"
            using svc by auto
          show ?case
          proof (rule emits_then [OF reconcileNetworkPolicy_explained], rule emits_option, goal_cases)
            case (1 r np)
            then have np: "list_all (harmless db) np" by (simp add: step_explained_def)
            have "explained l db (Inr sts) (es @ tls @ cm @ svc @ ss @ np)"
              using es tls(2) ss np by (auto simp: explained_def split: sum.splits)
            then show ?case by (auto intro!: emits_ret)
          next
            case (2 r np e)
            then show ?case
              using wrong [OF blamed_after [OF ss(1)]] by (auto intro!: emits_ret simp: step_explained_def)
          qed
        qed
      next
        case (2 r svc e)
        then show ?case
          using wrong [OF blamed_after [OF cm]] by (auto intro!: emits_ret simp: step_explained_def)
      qed
    qed
  next
    case (2 r tls e)
    then show ?case using wrong by (auto intro!: emits_ret simp: step_explained_def)
  qed
next
  case (2 r es e)
  then obtain read rest where es: "es = GotSecret (Namespace db) (SecretName db) read # rest" "blamed l db es e"
    "case read of Inl _ \<Rightarrow> True
      | Inr s \<Rightarrow> map_of (sec_data s) (PasswordKey db) = None \<longrightarrow> rest = [] \<and> reported db (hd es) e"
    unfolding secret_explained_def step_explained_def by (auto cong: sum.case_cong)
  have "explained l db (Inl e) es"
    unfolding explained_def
    by (rule exI [where x = read], rule exI [where x = rest]) (use es in \<open>simp split: sum.splits\<close>)
  then show ?case by (simp add: emits_ret)
qed

text \<open>The answer, by the outcome of the steps.\<close>

definition answer_to :: "go_error + stateful_set \<Rightarrow> reconcile_result" where
  "answer_to r = (case r of
     Inl (Blocked b) \<Rightarrow> (\<lparr>requeue_after = missingDependencyRequeue\<rparr>, None)
   | Inl err \<Rightarrow> (no_requeue, Some err)
   | Inr _ \<Rightarrow> (no_requeue, None))"

definition answered :: "lib \<Rightarrow> reconcile_result \<Rightarrow> event list \<Rightarrow> bool" where
  "answered l answer es \<longleftrightarrow> (case es of
     GotSereneDB _ _ (Inl err) # rest \<Rightarrow> rest = [] \<and> answer = (no_requeue, ignore_not_found (Some err))
   | GotSereneDB _ _ (Inr db) # rest \<Rightarrow>
       if \<not> IsZero (om_deletion_timestamp (db_meta db)) then rest = [] \<and> answer = (no_requeue, None)
       else \<exists>steps r p. rest = steps @ [PatchedSereneDBStatus db (describe l db r) p] \<and> explained l db r steps \<and>
         answer = (case p of None \<Rightarrow> answer_to r | Some x \<Rightarrow> (no_requeue, Some (Wrap ''update status'' x)))
   | _ \<Rightarrow> False)"

text \<open>C26. The answer of a reconcile to the work queue follows from its calls. An unreadable SereneDB is
  an error unless it is gone, and one being deleted is left alone. Otherwise the steps run, the
  last call writes the status that describes their outcome, and the outcome is the one the
  steps' calls explain: the run stops at the first call that fails other than by an answer the
  code expects, and reports that failure and no other; a Secret that is missing, or lacks its
  key, or is not named, is the precondition with its reason; without a failure the outcome is
  the StatefulSet just applied. When the status is written, a precondition is no error and is
  looked at again after 30 seconds, any other failure is the error returned, and success asks
  for nothing; a failing status write is itself the error.\<close>

theorem reconcile_answer:
  "answered l (result_of (SereneDB_Reconcile l rt c ns n) e) (trace_of (SereneDB_Reconcile l rt c ns n) e)"
proof -
  have reply: "(case asBlocked (err_of r) of
               Some b \<Rightarrow> ret (\<lparr>requeue_after = missingDependencyRequeue\<rparr>, None)
             | None \<Rightarrow> ret (no_requeue, err_of r)) = ret (answer_to r)" for r
    by (cases r) (auto simp: answer_to_def asBlocked_def split: go_error.splits)
  have "emits (SereneDB_Reconcile l rt c ns n) (answered l)"
    unfolding SereneDB_Reconcile_def reply get_serenedb_def
  proof (rule emits_bind, rule emits_call, rule emits_sum, goal_cases)
    case (1 r err)
    then show ?case by (simp add: emits_ret answered_def)
  next
    case (2 r db)
    show ?case
    proof (rule emits_if)
      assume live: "\<not> \<not> IsZero (om_deletion_timestamp (db_meta db))"
      have final: "emits (call (k_patch_serenedb_status c db (describe l db x)) (PatchedSereneDBStatus db (describe l db x)) \<bind> (\<lambda>p.
           case p of Some e \<Rightarrow> ret (no_requeue, Some (Wrap ''update status'' e)) | None \<Rightarrow> ret (answer_to x)))
          (\<lambda>b fs. answered l b ([GotSereneDB ns n r] @ es @ fs))" if "explained l db x es" for x es
        by (rule emits_bind, rule emits_call, rule emits_option)
          (use that live 2 in \<open>auto intro!: emits_ret simp: answered_def\<close>)
      show "emits (reconcileResources l rt c db \<bind> (\<lambda>x.
          call (k_patch_serenedb_status c db (describe l db x)) (PatchedSereneDBStatus db (describe l db x)) \<bind> (\<lambda>p.
           case p of Some e \<Rightarrow> ret (no_requeue, Some (Wrap ''update status'' e)) | None \<Rightarrow> ret (answer_to x))))
          (\<lambda>b fs. answered l b ([GotSereneDB ns n r] @ fs))"
        by (rule emits_then [OF reconcileResources_explained], rule emits_weaken [OF final]) simp_all
    qed (use 2 in \<open>simp add: emits_ret answered_def\<close>)
  qed
  then show ?thesis by (rule emitsD)
qed

section \<open>A concrete run\<close>

text \<open>A server without TLS, whose generated Secret is there and kept when it is deleted.\<close>

definition plain_db :: serenedb where
  "plain_db = sample_db\<lparr>db_spec := sample_spec\<lparr>sp_tls := \<lparr>tls_enabled = False, tls_secret_name = [], tls_min_version = []\<rparr>\<rparr>\<rparr>"

lemma plain_facts:
  "IsZero (om_deletion_timestamp (db_meta plain_db))" "Name plain_db = ''mydb''" "Namespace plain_db = ''prod''"
  "own_secret plain_db" "PasswordKey plain_db = ''postgres-password''" "\<not> tls_enabled (sp_tls (db_spec plain_db))"
  "au_existing_secret (sp_auth (db_spec plain_db)) = []"
  by (simp_all add: plain_db_def sample_db_def sample_spec_def IsZero_def empty_meta_def Name_def own_secret_def
      PasswordKey_def DefaultPasswordKey_def)

definition plain_bed :: "unit client" where
  "plain_bed = static_client (empty_stock\<lparr>sk_serenedbs := [plain_db], sk_secrets := [superuser_secret]\<rparr>)"

lemma plain_reads:
  "k_get_serenedb plain_bed ''prod'' ''mydb'' e = (Inr plain_db, e)"
  "k_get_secret plain_bed ''prod'' ''mydb'' e = (Inr superuser_secret, e)"
  "k_get_network_policy plain_bed ''prod'' ''mydb'' e = (Inl (not_found ''mydb''), e)"
  "k_apply_config_map plain_bed cm f e = (f cm, e)" "k_apply_service plain_bed svc g e = (g svc, e)"
  "k_apply_stateful_set plain_bed sts h e = (h sts, e)" "k_patch_serenedb_status plain_bed d d' e = (None, e)"
  by (simp_all add: plain_bed_def static_client_def stocked_def empty_stock_def plain_db_def sample_db_def
      superuser_secret_def)

lemma plain_mutates:
  "\<exists>y. config_map_mutate plain_lib db cm = Inr y" "\<exists>y. service_mutate plain_lib db desired svc = Inr y"
  "\<exists>y. stateful_set_mutate plain_lib db wanted sts = Inr y"
  by (simp_all add: config_map_mutate_def service_mutate_def stateful_set_mutate_def Let_def plain_lib_def)

lemma plain_run:
  "\<exists>sts. AppliedStatefulSet \<lparr>sts_meta = named_meta (sts_meta (StatefulSet plain_db (ConfigHash plain_lib (ConfigMap plain_db)))),
      sts_spec = empty_sts_spec, sts_status = empty_sts_status\<rparr> (Inr sts) \<in>
    set (trace_of (SereneDB_Reconcile plain_lib (still_runtime 0) plain_bed ''prod'' ''mydb'') ())"
proof -
  have facts: "map_of (sec_data superuser_secret) ''postgres-password'' = Some ''s3cret''"
    "\<not> SecretOwnedByDatabase plain_db" "\<not> is_controlled_by plain_lib (sec_meta superuser_secret) (db_meta plain_db)"
    "\<not> nc_enabled (sp_network_policy (db_spec plain_db))"
    "om_name (np_meta (NetworkPolicy plain_db)) = ''mydb''" "om_namespace (np_meta (NetworkPolicy plain_db)) = ''prod''"
    by (simp_all add: superuser_secret_def SecretOwnedByDatabase_def plain_db_def sample_spec_def plain_lib_def
        empty_meta_def NetworkPolicy_def Let_def Name_def sample_db_def)
  obtain cm svc head sts where applied:
    "config_map_mutate plain_lib plain_db \<lparr>cm_meta = named_meta (cm_meta (ConfigMap plain_db)), cm_data = []\<rparr> = Inr cm"
    "service_mutate plain_lib plain_db (Service plain_db)
      \<lparr>svc_meta = named_meta (svc_meta (Service plain_db)), svc_spec = empty_service_spec\<rparr> = Inr svc"
    "service_mutate plain_lib plain_db (HeadlessService plain_db)
      \<lparr>svc_meta = named_meta (svc_meta (HeadlessService plain_db)), svc_spec = empty_service_spec\<rparr> = Inr head"
    "stateful_set_mutate plain_lib plain_db (StatefulSet plain_db (ConfigHash plain_lib (ConfigMap plain_db)))
      \<lparr>sts_meta = named_meta (sts_meta (StatefulSet plain_db (ConfigHash plain_lib (ConfigMap plain_db)))),
       sts_spec = empty_sts_spec, sts_status = empty_sts_status\<rparr> = Inr sts"
    using plain_mutates by metis
  show ?thesis
    by (simp add: trace_of_def SereneDB_Reconcile_def get_serenedb_def get_secret_def call_def plain_reads plain_facts
        facts reconcileResources_def reconcileSecret_def syncSecretOwnership_def checkTLSSecret_def Let_def
        reconcileConfigMap_def reconcileServices_def applyService_def reconcileStatefulSet_def applied
        reconcileNetworkPolicy_def deleteOwnedNetworkPolicy_def not_found_def)
qed

theorem rollout_follows_rule_witness:
  "owner_law plain_lib \<and> controller_law plain_lib \<and> condition_law plain_lib \<and>
    complies (rollout_rule plain_lib) rollout_watch_start
      (trace_of (SereneDB_Reconcile plain_lib (still_runtime 0) plain_bed ''prod'' ''mydb'') ()) \<and>
    (\<exists>sts. AppliedStatefulSet \<lparr>sts_meta = named_meta (sts_meta (StatefulSet plain_db (ConfigHash plain_lib (ConfigMap plain_db)))),
      sts_spec = empty_sts_spec, sts_status = empty_sts_status\<rparr> (Inr sts) \<in>
    set (trace_of (SereneDB_Reconcile plain_lib (still_runtime 0) plain_bed ''prod'' ''mydb'') ()))"
  using rollout_follows_rule [OF plain_lib_owner plain_lib_controller plain_lib_condition,
      of "still_runtime 0" plain_bed "''prod''" "''mydb''" "()"]
    plain_lib_owner plain_lib_controller plain_lib_condition plain_run by blast

text \<open>An API server that defaults what the operator leaves empty.\<close>

definition plain_server :: api_server where
  "plain_server = \<lparr>
     as_service_type = (\<lambda>t. if t = [] then ServiceTypeClusterIP else t),
     as_service_port = (\<lambda>p. if svp_protocol p = [] then p\<lparr>svp_protocol := ''TCP''\<rparr> else p),
     as_cluster_ip = (\<lambda>k. ''10.0.0.'' @ show_nat k),
     as_node_port = (\<lambda>k _. if even k then 30000 else 30001),
     as_replicas = (\<lambda>r. Some (case r of None \<Rightarrow> 1 | Some n \<Rightarrow> n)),
     as_pod_template = (\<lambda>t. t\<lparr>pt_spec := (pt_spec t)\<lparr>po_containers := map (\<lambda>c.
       if pb_timeout_seconds (co_startup_probe c) = 0
       then c\<lparr>co_startup_probe := (co_startup_probe c)\<lparr>pb_timeout_seconds := 1\<rparr>\<rparr> else c) (po_containers (pt_spec t))\<rparr>\<rparr>),
     as_update_strategy = id, as_retention_policy = id, as_claim_templates = id, as_network_policy = id\<rparr>"

lemma plain_server_law: "api_law plain_server"
  by (auto simp: api_law_def plain_server_def list_all_iff)

text \<open>A first reconcile of the headless Service creates it; the second sends it again and leaves the
  stored one alone.\<close>

theorem second_reconcile_settles_witness:
  "apply_law plain_lib plain_server plain_db \<and>
    (\<exists>x. put_service plain_lib plain_server plain_db (HeadlessService plain_db) 0 ''7'' None = (Some x, True) \<and>
      svs_type (svc_spec x) = ServiceTypeClusterIP \<and>
      put_service plain_lib plain_server plain_db (HeadlessService plain_db) 1 ''8'' (Some x) = (Some x, True))"
proof -
  have law: "apply_law plain_lib plain_server plain_db"
    by (simp add: apply_law_def plain_lib_owner plain_server_law plain_db_def sample_spec_def)
  obtain x where x: "put_service plain_lib plain_server plain_db (HeadlessService plain_db) 0 ''7'' None = (Some x, True)"
    "svs_type (svc_spec x) = ServiceTypeClusterIP"
    by (simp add: put_service_def create_or_update_def service_mutate_def Let_def plain_lib_def admit_service_def
        HeadlessService_def plain_server_def)
  have "put_service plain_lib plain_server plain_db (HeadlessService plain_db) 1 ''8''
      (fst (put_service plain_lib plain_server plain_db (HeadlessService plain_db) 0 ''7'' None)) =
    put_service plain_lib plain_server plain_db (HeadlessService plain_db) 0 ''7'' None"
    using second_reconcile_settles [OF law, of "''7''" None None None None None] by simp
  with law x show ?thesis by auto
qed

definition old_set :: stateful_set where
  "old_set = \<lparr>sts_meta = empty_meta\<lparr>om_name := ''mydb'', om_resource_version := ''7'', om_labels := [(''team'', ''a'')]\<rparr>,
     sts_spec = empty_sts_spec\<lparr>sts_selector := [(''app'', ''old'')], sts_replicas := Some 0\<rparr>, sts_status = empty_sts_status\<rparr>"

theorem stateful_set_update_keeps_witness:
  "\<exists>sts'. stateful_set_mutate plain_lib plain_db (StatefulSet plain_db ''h'') old_set = Inr sts' \<and>
    sts_selector (sts_spec sts') = [(''app'', ''old'')] \<and> sts_replicas (sts_spec sts') = Some 1 \<and>
    map_of (om_labels (sts_meta sts')) ''team'' = Some ''a''"
proof -
  obtain sts' where run: "stateful_set_mutate plain_lib plain_db (StatefulSet plain_db ''h'') old_set = Inr sts'"
    using plain_mutates(3) by blast
  have "map_of (Labels plain_db) ''team'' = None" by (simp add: Labels_def SelectorLabels_def)
  with stateful_set_update_keeps [OF plain_lib_owner run] run show ?thesis
    by (intro exI [where x = sts']) (simp add: old_set_def map_add_def)
qed

definition rolled_out :: stateful_set where
  "rolled_out = old_set\<lparr>sts_status := empty_sts_status\<lparr>sts_ready_replicas := 1, sts_updated_replicas := 1\<rparr>\<rparr>"

theorem status_reports_outcome_witness:
  "condition_law plain_lib \<and> verdict (describe plain_lib plain_db (Inr rolled_out)) ConditionReady =
      Some (ConditionTrue, reasonPodReady) \<and>
    st_version (db_status (describe plain_lib plain_db (Inr rolled_out))) = ImageTag plain_db"
proof -
  have "rolloutComplete rolled_out"
    by (simp add: rolloutComplete_def rolled_out_def old_set_def empty_sts_status_def empty_meta_def Let_def)
  with status_reports_outcome [OF plain_lib_condition, of plain_db "Inr rolled_out"] plain_lib_condition
  show ?thesis by simp
qed

end
