(* ===== verification/Manager.thy ===== *)
theory Manager
  imports Dependents BackupController ScheduledBackupController SereneDBController
begin

text \<open>
  How the reconcilers are hung into the controller manager: the \<open>SetupWithManager\<close> methods of
  internal/controller, the index functions they register, and \<open>requestsByIndex\<close> of
  dependent.go, which turns an event on a SereneDB or Secret into reconcile requests. The
  manager and its cache are controller-runtime and so a parameter; what is relied on is that
  an indexed list returns the objects whose registered index values hold the one asked for.
\<close>

section \<open>What the manager is told\<close>

datatype kind = KindSereneDB | KindDatabase | KindDatabaseRole | KindServerSecret | KindBackup
  | KindScheduledBackup | KindSecret | KindConfigMap | KindService | KindStatefulSet
  | KindNetworkPolicy | KindVolumeSnapshot

fun kind_of :: "api_object \<Rightarrow> kind" where
  "kind_of (DatabaseObject _) = KindDatabase"
| "kind_of (RoleObject _) = KindDatabaseRole"
| "kind_of (ServerSecretObject _) = KindServerSecret"
| "kind_of (BackupObject _) = KindBackup"
| "kind_of (ScheduleObject _) = KindScheduledBackup"

text \<open>\<open>client.IndexerFunc\<close>: its type assertion panics on an object of another kind.\<close>

type_synonym indexer = "api_object \<Rightarrow> string list go"

text \<open>One \<open>Watches(source, requestsByIndex(client, list, index))\<close>, and one finished builder.\<close>

record index_watch =
  wt_source :: kind
  wt_list :: kind
  wt_index :: string

record 'e registration =
  rg_name :: string
  rg_for :: kind
  rg_owns :: "kind list"
  rg_watches :: "index_watch list"
  rg_reconcile :: "string \<Rightarrow> string \<Rightarrow> ('e, reconcile_result go) eff"

text \<open>A certificate watcher is known by the two files it reads.\<close>

record cert_watcher =
  cw_cert :: string
  cw_key :: string

text \<open>\<open>func(*tls.Config)\<close>: the two the program makes.\<close>

datatype tls_option = DisableHTTP2 | GetCertificate cert_watcher

record metrics_options =
  mo_bind_address :: string
  mo_secure_serving :: bool
  mo_tls_opts :: "tls_option list"
  mo_authorized :: bool

record manager_options =
  op_metrics :: metrics_options
  op_webhook_tls_opts :: "tls_option list"
  op_probe_address :: string
  op_leader_election :: bool
  op_leader_election_id :: string

datatype 'e setup_event =
    IndexedField kind string indexer "go_error option"
  | MappedRest group_version_kind "go_error option"
  | Completed "'e registration" "go_error option"
  | WatchedCertificate string string "go_error option"
  | ReadConfig "go_error option"
  | CreatedManager manager_options "go_error option"
  | AddedRunnable cert_watcher "go_error option"
  | AddedHealthzCheck string "go_error option"
  | AddedReadyzCheck string "go_error option"
  | StartedManager "go_error option"

type_synonym ('e, 'a) enrolment = "('e, 'e setup_event, 'a) logged"

record 'e manager =
  mg_client :: "'e client"
  mg_list :: "kind \<Rightarrow> string \<Rightarrow> string \<Rightarrow> string \<Rightarrow> 'e \<Rightarrow> (go_error + api_object list) \<times> 'e"
  mg_index_field :: "kind \<Rightarrow> string \<Rightarrow> indexer \<Rightarrow> 'e \<Rightarrow> go_error option \<times> 'e"
  mg_rest_mapping :: "group_version_kind \<Rightarrow> 'e \<Rightarrow> go_error option \<times> 'e"
  mg_complete :: "'e registration \<Rightarrow> 'e \<Rightarrow> go_error option \<times> 'e"
  mg_add :: "cert_watcher \<Rightarrow> 'e \<Rightarrow> go_error option \<times> 'e"
  mg_add_healthz :: "string \<Rightarrow> 'e \<Rightarrow> go_error option \<times> 'e"
  mg_add_readyz :: "string \<Rightarrow> 'e \<Rightarrow> go_error option \<times> 'e"
  mg_start :: "'e \<Rightarrow> go_error option \<times> 'e"

definition IndexField :: "'e manager \<Rightarrow> kind \<Rightarrow> string \<Rightarrow> indexer \<Rightarrow> ('e, go_error option) enrolment" where
  "IndexField m kd idx f = call (mg_index_field m kd idx f) (IndexedField kd idx f)"

definition Complete :: "'e manager \<Rightarrow> 'e registration \<Rightarrow> ('e, go_error option) enrolment" where
  "Complete m rg = call (mg_complete m rg) (Completed rg)"

text \<open>\<open>if err != nil { return err }\<close> after a call.\<close>

definition unless_err :: "('e, 'v, go_error option) logged \<Rightarrow> ('e, 'v, go_error option) logged \<Rightarrow>
    ('e, 'v, go_error option) logged" where
  "unless_err m n = m \<bind> (\<lambda>r. case r of Some err \<Rightarrow> ret (Some err) | None \<Rightarrow> n)"

section \<open>Index functions\<close>

definition clusterIndex :: string where "clusterIndex = ''spec.cluster.name''"
definition secretIndex :: string where "secretIndex = ''spec.secretName''"

definition conversion_panic :: "'a go" where
  "conversion_panic = Panic ''interface conversion''"

definition Database_cluster_values :: indexer where
  "Database_cluster_values obj = (case obj of
     DatabaseObject da \<Rightarrow> Done [cr_name (dbs_cluster (da_spec da))] | _ \<Rightarrow> conversion_panic)"

definition Role_cluster_values :: indexer where
  "Role_cluster_values obj = (case obj of
     RoleObject dr \<Rightarrow> Done [cr_name (ro_cluster (dr_spec dr))] | _ \<Rightarrow> conversion_panic)"

definition Role_secret_values :: indexer where
  "Role_secret_values obj = (case obj of
     RoleObject dr \<Rightarrow> Done (case ro_password_secret (dr_spec dr) of None \<Rightarrow> [] | Some ref \<Rightarrow> [ps_name ref])
   | _ \<Rightarrow> conversion_panic)"

definition ServerSecret_cluster_values :: indexer where
  "ServerSecret_cluster_values obj = (case obj of
     ServerSecretObject se \<Rightarrow> Done [cr_name (ss_cluster (se_spec se))] | _ \<Rightarrow> conversion_panic)"

definition ServerSecret_secret_values :: indexer where
  "ServerSecret_secret_values obj = (case obj of
     ServerSecretObject se \<Rightarrow> Done (case ss_values_from (se_spec se) of None \<Rightarrow> [] | Some ref \<Rightarrow> [lor_name ref])
   | _ \<Rightarrow> conversion_panic)"

definition Backup_cluster_values :: indexer where
  "Backup_cluster_values obj = (case obj of
     BackupObject bk \<Rightarrow> Done [cr_name (ba_cluster (bk_spec bk))] | _ \<Rightarrow> conversion_panic)"

lemmas index_values =
  Database_cluster_values_def Role_cluster_values_def Role_secret_values_def
  ServerSecret_cluster_values_def ServerSecret_secret_values_def Backup_cluster_values_def

section \<open>Events to requests\<close>

text \<open>
  \<open>requestsByIndex\<close>: the typed lists it is used with always extract, and their items are
  objects, so the two further exits of the source cannot be taken.
\<close>

definition object_key :: "api_object \<Rightarrow> string \<times> string" where
  "object_key obj = (om_namespace (object_meta_of obj), om_name (object_meta_of obj))"

definition requestsByIndex :: "'e manager \<Rightarrow> kind \<Rightarrow> string \<Rightarrow> object_meta \<Rightarrow> 'e \<Rightarrow>
    (string \<times> string) list \<times> 'e" where
  "requestsByIndex m kd idx obj e = (case mg_list m kd idx (om_namespace obj) (om_name obj) e of
     (Inl err, e') \<Rightarrow> ([], e')
   | (Inr items, e') \<Rightarrow> (map object_key items, e'))"

section \<open>The controllers\<close>

definition WithClient :: "'e client \<Rightarrow> 'e connector \<Rightarrow> 'e dependents" where
  "WithClient c connector = \<lparr>dep_client = c, dep_connector = connector\<rparr>"

definition total :: "('a \<Rightarrow> 'b \<Rightarrow> ('e, 'r) eff) \<Rightarrow> 'a \<Rightarrow> 'b \<Rightarrow> ('e, 'r go) eff" where
  "total f x y = f x y \<bind> (\<lambda>r. ret (Done r))"

definition SereneDB_SetupWithManager :: "lib \<Rightarrow> 'e runtime \<Rightarrow> 'e client \<Rightarrow> 'e manager \<Rightarrow>
    ('e, go_error option) enrolment" where
  "SereneDB_SetupWithManager l rt c m = Complete m \<lparr>rg_name = ''serenedb'', rg_for = KindSereneDB,
     rg_owns = [KindStatefulSet, KindService, KindConfigMap, KindSecret, KindNetworkPolicy],
     rg_watches = [], rg_reconcile = total (SereneDB_Reconcile l rt c)\<rparr>"

definition Database_SetupWithManager :: "lib \<Rightarrow> 'e dependents \<Rightarrow> 'e manager \<Rightarrow>
    ('e, go_error option) enrolment" where
  "Database_SetupWithManager l d m =
     unless_err (IndexField m KindDatabase clusterIndex Database_cluster_values)
       (Complete m \<lparr>rg_name = ''database'', rg_for = KindDatabase, rg_owns = [],
          rg_watches = [\<lparr>wt_source = KindSereneDB, wt_list = KindDatabase, wt_index = clusterIndex\<rparr>],
          rg_reconcile = Database_Reconcile l d\<rparr>)"

definition Role_SetupWithManager :: "lib \<Rightarrow> 'e runtime \<Rightarrow> 'e dependents \<Rightarrow> 'e manager \<Rightarrow>
    ('e, go_error option) enrolment" where
  "Role_SetupWithManager l rt d m =
     unless_err (IndexField m KindDatabaseRole clusterIndex Role_cluster_values)
       (unless_err (IndexField m KindDatabaseRole secretIndex Role_secret_values)
         (Complete m \<lparr>rg_name = ''databaserole'', rg_for = KindDatabaseRole, rg_owns = [],
            rg_watches = [\<lparr>wt_source = KindSereneDB, wt_list = KindDatabaseRole, wt_index = clusterIndex\<rparr>,
              \<lparr>wt_source = KindSecret, wt_list = KindDatabaseRole, wt_index = secretIndex\<rparr>],
            rg_reconcile = Role_Reconcile l rt d\<rparr>))"

definition ServerSecret_SetupWithManager :: "lib \<Rightarrow> 'e runtime \<Rightarrow> 'e dependents \<Rightarrow> 'e manager \<Rightarrow>
    ('e, go_error option) enrolment" where
  "ServerSecret_SetupWithManager l rt d m =
     unless_err (IndexField m KindServerSecret clusterIndex ServerSecret_cluster_values)
       (unless_err (IndexField m KindServerSecret secretIndex ServerSecret_secret_values)
         (Complete m \<lparr>rg_name = ''serversecret'', rg_for = KindServerSecret, rg_owns = [],
            rg_watches = [\<lparr>wt_source = KindSereneDB, wt_list = KindServerSecret, wt_index = clusterIndex\<rparr>,
              \<lparr>wt_source = KindSecret, wt_list = KindServerSecret, wt_index = secretIndex\<rparr>],
            rg_reconcile = ServerSecret_Reconcile l rt d\<rparr>))"

definition Backup_SetupWithManager :: "lib \<Rightarrow> 'e runtime \<Rightarrow> 'e dependents \<Rightarrow> 'e manager \<Rightarrow>
    ('e, go_error option) enrolment" where
  "Backup_SetupWithManager l rt d m =
     unless_err (IndexField m KindBackup clusterIndex Backup_cluster_values)
       (let builder = \<lparr>rg_name = ''backup'', rg_for = KindBackup, rg_owns = [],
          rg_watches = [\<lparr>wt_source = KindSereneDB, wt_list = KindBackup, wt_index = clusterIndex\<rparr>],
          rg_reconcile = total (Backup_Reconcile l rt d)\<rparr> in
        call (mg_rest_mapping m VolumeSnapshotGVK) (MappedRest VolumeSnapshotGVK) \<bind> (\<lambda>err.
          Complete m (case err of
              None \<Rightarrow> builder\<lparr>rg_owns := rg_owns builder @ [KindVolumeSnapshot]\<rparr>
            | Some _ \<Rightarrow> builder)))"

definition ScheduledBackup_SetupWithManager :: "lib \<Rightarrow> 'e runtime \<Rightarrow> 'e scheduler \<Rightarrow> 'e manager \<Rightarrow>
    ('e, go_error option) enrolment" where
  "ScheduledBackup_SetupWithManager l rt r m = Complete m \<lparr>rg_name = ''scheduledbackup'',
     rg_for = KindScheduledBackup, rg_owns = [], rg_watches = [],
     rg_reconcile = ScheduledBackup_Reconcile l rt r\<rparr>"

lemmas setup_defs =
  SereneDB_SetupWithManager_def Database_SetupWithManager_def Role_SetupWithManager_def
  ServerSecret_SetupWithManager_def Backup_SetupWithManager_def ScheduledBackup_SetupWithManager_def
  unless_err_def IndexField_def Complete_def Let_def

end
