(* ===== verification/Startup.thy ===== *)
theory Startup
  imports Manager
begin

text \<open>
  cmd/main.go: from the parsed flags to the running manager. The manager, the certificate
  watchers and the kubeconfig are controller-runtime and so parameters; every one of them may
  fail, and each failure ends the process with status 1. Logging is left out.
\<close>

section \<open>filepath.Join\<close>

fun split_on :: "char \<Rightarrow> string \<Rightarrow> string list" where
  "split_on c [] = [[]]"
| "split_on c (x # xs) = (if x = c then [] # split_on c xs
     else (case split_on c xs of [] \<Rightarrow> [[x]] | seg # segs \<Rightarrow> (x # seg) # segs))"

text \<open>The segments kept so far, innermost first.\<close>

definition path_step :: "bool \<Rightarrow> string \<Rightarrow> string list \<Rightarrow> string list" where
  "path_step rooted seg kept =
     (if seg = [] \<or> seg = ''.'' then kept
      else if seg = ''..'' then
        (case kept of
           [] \<Rightarrow> if rooted then [] else [''..'']
         | inner # rest \<Rightarrow> if inner = ''..'' then ''..'' # kept else rest)
      else seg # kept)"

definition filepath_Clean :: "string \<Rightarrow> string" where
  "filepath_Clean path =
     (let rooted = (path \<noteq> [] \<and> hd path = CHR ''/'');
          body = join ''/'' (rev (fold (path_step rooted) (split_on (CHR ''/'') path) []))
      in if rooted then CHR ''/'' # body else if body = [] then ''.'' else body)"

fun filepath_Join :: "string list \<Rightarrow> string" where
  "filepath_Join [] = []"
| "filepath_Join (e # es) = (if e = [] then filepath_Join es else filepath_Clean (join ''/'' (e # es)))"

section \<open>The flags\<close>

record flags =
  metricsAddr :: string
  metricsCertPath :: string
  metricsCertName :: string
  metricsCertKey :: string
  webhookCertPath :: string
  webhookCertName :: string
  webhookCertKey :: string
  enableLeaderElection :: bool
  probeAddr :: string
  secureMetrics :: bool
  enableHTTP2 :: bool

definition default_flags :: flags where
  "default_flags = \<lparr>metricsAddr = ''0'', metricsCertPath = [], metricsCertName = ''tls.crt'',
     metricsCertKey = ''tls.key'', webhookCertPath = [], webhookCertName = ''tls.crt'',
     webhookCertKey = ''tls.key'', enableLeaderElection = False, probeAddr = '':8081'',
     secureMetrics = True, enableHTTP2 = False\<rparr>"

section \<open>main\<close>

record 'e platform =
  pf_cert_watcher :: "string \<Rightarrow> string \<Rightarrow> 'e \<Rightarrow> go_error option \<times> 'e"
  pf_config :: "'e \<Rightarrow> go_error option \<times> 'e"
  pf_manager :: "manager_options \<Rightarrow> 'e \<Rightarrow> (go_error + 'e manager) \<times> 'e"
  pf_pgx :: "'e pgx"

text \<open>\<open>os.Exit(1)\<close> after a failed call, the rest of \<open>main\<close> otherwise.\<close>

definition or_exit :: "('e, 'v, go_error option) logged \<Rightarrow> ('e, 'v, nat) logged \<Rightarrow> ('e, 'v, nat) logged" where
  "or_exit m k = m \<bind> (\<lambda>r. case r of Some err \<Rightarrow> ret 1 | None \<Rightarrow> k)"

text \<open>\<open>certwatcher.New\<close>, when a path is given.\<close>

definition watch_certificate :: "'e platform \<Rightarrow> string \<Rightarrow> string \<Rightarrow> string \<Rightarrow>
    ('e, go_error + cert_watcher option) enrolment" where
  "watch_certificate pf path name key =
     (if length path > 0 then
        (let cert = filepath_Join [path, name]; key = filepath_Join [path, key] in
         call (pf_cert_watcher pf cert key) (WatchedCertificate cert key) \<bind> (\<lambda>r. case r of
             Some err \<Rightarrow> ret (Inl err)
           | None \<Rightarrow> ret (Inr (Some \<lparr>cw_cert = cert, cw_key = key\<rparr>))))
      else ret (Inr None))"

text \<open>\<open>append\<close> of the watcher's option; the slices never share an array with room to spare.\<close>

definition with_certificate :: "tls_option list \<Rightarrow> cert_watcher option \<Rightarrow> tls_option list" where
  "with_certificate opts w = (case w of None \<Rightarrow> opts | Some cw \<Rightarrow> opts @ [GetCertificate cw])"

definition tls_opts :: "flags \<Rightarrow> tls_option list" where
  "tls_opts f = (if \<not> enableHTTP2 f then [DisableHTTP2] else [])"

definition metrics_server_options :: "flags \<Rightarrow> cert_watcher option \<Rightarrow> metrics_options" where
  "metrics_server_options f watcher = \<lparr>mo_bind_address = metricsAddr f, mo_secure_serving = secureMetrics f,
     mo_tls_opts = with_certificate (tls_opts f) watcher, mo_authorized = secureMetrics f\<rparr>"

definition register_controllers :: "lib \<Rightarrow> 'e runtime \<Rightarrow> 'e pgx \<Rightarrow> 'e manager \<Rightarrow> ('e, nat) enrolment \<Rightarrow>
    ('e, nat) enrolment" where
  "register_controllers l rt px m k =
     or_exit (SereneDB_SetupWithManager l rt (mg_client m) m)
       (let databaseReconciler = WithClient (mg_client m) (Connect px) in
        or_exit (Database_SetupWithManager l databaseReconciler m)
       (let databaseRoleReconciler = WithClient (mg_client m) (Connect px) in
        or_exit (Role_SetupWithManager l rt databaseRoleReconciler m)
       (let serverSecretReconciler = WithClient (mg_client m) (Connect px) in
        or_exit (ServerSecret_SetupWithManager l rt serverSecretReconciler m)
       (let backupReconciler = WithClient (mg_client m) (Connect px) in
        or_exit (Backup_SetupWithManager l rt backupReconciler m)
       (or_exit (ScheduledBackup_SetupWithManager l rt \<lparr>sr_client = mg_client m, sr_now = None\<rparr> m) k)))))"

definition add_watcher :: "'e manager \<Rightarrow> cert_watcher option \<Rightarrow> ('e, nat) enrolment \<Rightarrow> ('e, nat) enrolment" where
  "add_watcher m watcher k = (case watcher of
     None \<Rightarrow> k | Some cw \<Rightarrow> or_exit (call (mg_add m cw) (AddedRunnable cw)) k)"

definition start_manager :: "'e manager \<Rightarrow> cert_watcher option \<Rightarrow> cert_watcher option \<Rightarrow> ('e, nat) enrolment" where
  "start_manager m metricsCertWatcher webhookCertWatcher =
     add_watcher m metricsCertWatcher
       (add_watcher m webhookCertWatcher
         (or_exit (call (mg_add_healthz m ''healthz'') (AddedHealthzCheck ''healthz''))
           (or_exit (call (mg_add_readyz m ''readyz'') (AddedReadyzCheck ''readyz''))
             (or_exit (call (mg_start m) StartedManager) (ret 0)))))"

definition main :: "lib \<Rightarrow> 'e runtime \<Rightarrow> 'e platform \<Rightarrow> flags \<Rightarrow> ('e, nat) enrolment" where
  "main l rt pf f =
     watch_certificate pf (webhookCertPath f) (webhookCertName f) (webhookCertKey f) \<bind> (\<lambda>w. case w of
       Inl err \<Rightarrow> ret 1
     | Inr webhookCertWatcher \<Rightarrow>
         watch_certificate pf (metricsCertPath f) (metricsCertName f) (metricsCertKey f) \<bind> (\<lambda>w. case w of
           Inl err \<Rightarrow> ret 1
         | Inr metricsCertWatcher \<Rightarrow>
             or_exit (call (pf_config pf) ReadConfig)
               (let opts = \<lparr>op_metrics = metrics_server_options f metricsCertWatcher,
                    op_webhook_tls_opts = with_certificate (tls_opts f) webhookCertWatcher,
                    op_probe_address = probeAddr f, op_leader_election = enableLeaderElection f,
                    op_leader_election_id = ''8fb4a3ca.serenedb.com''\<rparr> in
                call (pf_manager pf opts) (\<lambda>r. CreatedManager opts (err_of r)) \<bind> (\<lambda>r. case r of
                    Inl err \<Rightarrow> ret 1
                  | Inr m \<Rightarrow> register_controllers l rt (pf_pgx pf) m
                      (start_manager m metricsCertWatcher webhookCertWatcher)))))"

section \<open>The rule of the start\<close>

text \<open>
  The monitor keeps what has been registered. Nothing follows a failed call; the one call whose
  failure is no failure of the start is the look-up of the snapshot API, which only decides
  whether the Backup controller owns snapshots. A controller is completed once, with the kinds
  it owns, and only after an index is registered for every one of its watches, on the kind it
  reconciles. The servers get the options the flags
  ask for. The manager is started with all six controllers, both checks and every certificate
  watcher that was made.
\<close>

record start_watch =
  sw_failed :: bool
  sw_started :: bool
  sw_indexes :: "(kind \<times> string) list"
  sw_mapped :: "bool option"
  sw_controllers :: "kind list"
  sw_made :: "cert_watcher list"
  sw_added :: "cert_watcher list"
  sw_checks :: "string list"

definition start_begin :: start_watch where
  "start_begin = \<lparr>sw_failed = False, sw_started = False, sw_indexes = [], sw_mapped = None, sw_controllers = [],
     sw_made = [], sw_added = [], sw_checks = []\<rparr>"

definition indexed :: "start_watch \<Rightarrow> 'e registration \<Rightarrow> bool" where
  "indexed w rg \<longleftrightarrow> list_all (\<lambda>wt. wt_list wt = rg_for rg \<and> (wt_list wt, wt_index wt) \<in> set (sw_indexes w))
     (rg_watches rg)"

text \<open>The kinds a controller owns: those the operator builds for a SereneDB, and the snapshots of a
  Backup exactly when the look-up found their API.\<close>

definition owns_as_due :: "start_watch \<Rightarrow> 'e registration \<Rightarrow> bool" where
  "owns_as_due w rg \<longleftrightarrow> (case rg_for rg of
     KindSereneDB \<Rightarrow> set (rg_owns rg) = {KindStatefulSet, KindService, KindConfigMap, KindSecret, KindNetworkPolicy}
   | KindBackup \<Rightarrow> (case sw_mapped w of None \<Rightarrow> False
       | Some served \<Rightarrow> rg_owns rg = (if served then [KindVolumeSnapshot] else []))
   | _ \<Rightarrow> rg_owns rg = [])"

text \<open>The TLS options of one server: HTTP/2 off unless asked for, and the certificate of its own flags.\<close>

definition tls_as_asked :: "flags \<Rightarrow> string \<Rightarrow> string \<Rightarrow> string \<Rightarrow> cert_watcher list \<Rightarrow> tls_option list \<Rightarrow> bool" where
  "tls_as_asked f path name key made opts \<longleftrightarrow>
     (let cw = \<lparr>cw_cert = filepath_Join [path, name], cw_key = filepath_Join [path, key]\<rparr> in
      set opts = (if enableHTTP2 f then {} else {DisableHTTP2}) \<union> (if path = [] then {} else {GetCertificate cw}) \<and>
      (path \<noteq> [] \<longrightarrow> cw \<in> set made))"

definition hardened :: "flags \<Rightarrow> cert_watcher list \<Rightarrow> manager_options \<Rightarrow> bool" where
  "hardened f made opts \<longleftrightarrow>
     tls_as_asked f (metricsCertPath f) (metricsCertName f) (metricsCertKey f) made (mo_tls_opts (op_metrics opts)) \<and>
     tls_as_asked f (webhookCertPath f) (webhookCertName f) (webhookCertKey f) made (op_webhook_tls_opts opts) \<and>
     mo_secure_serving (op_metrics opts) = secureMetrics f \<and> mo_authorized (op_metrics opts) = secureMetrics f \<and>
     mo_bind_address (op_metrics opts) = metricsAddr f \<and> op_probe_address opts = probeAddr f \<and>
     op_leader_election opts = enableLeaderElection f"

definition all_controllers :: "kind set" where
  "all_controllers = {KindSereneDB, KindDatabase, KindDatabaseRole, KindServerSecret, KindBackup, KindScheduledBackup}"

definition start_step :: "flags \<Rightarrow> start_watch \<Rightarrow> 'e setup_event \<Rightarrow> start_watch option" where
  "start_step f w ev = (if sw_failed w \<or> sw_started w then None else (case ev of
     IndexedField kd idx _ r \<Rightarrow> Some (case r of Some _ \<Rightarrow> w\<lparr>sw_failed := True\<rparr>
       | None \<Rightarrow> w\<lparr>sw_indexes := (kd, idx) # sw_indexes w\<rparr>)
   | MappedRest gvk r \<Rightarrow> if gvk = VolumeSnapshotGVK then Some (w\<lparr>sw_mapped := Some (r = None)\<rparr>) else None
   | Completed rg r \<Rightarrow>
       if indexed w rg \<and> owns_as_due w rg \<and> rg_for rg \<notin> set (sw_controllers w) then
         Some (case r of Some _ \<Rightarrow> w\<lparr>sw_failed := True\<rparr>
           | None \<Rightarrow> w\<lparr>sw_controllers := rg_for rg # sw_controllers w\<rparr>)
       else None
   | WatchedCertificate cert key r \<Rightarrow> Some (case r of Some _ \<Rightarrow> w\<lparr>sw_failed := True\<rparr>
       | None \<Rightarrow> w\<lparr>sw_made := \<lparr>cw_cert = cert, cw_key = key\<rparr> # sw_made w\<rparr>)
   | ReadConfig r \<Rightarrow> Some (w\<lparr>sw_failed := r \<noteq> None\<rparr>)
   | CreatedManager opts r \<Rightarrow> if hardened f (sw_made w) opts then Some (w\<lparr>sw_failed := r \<noteq> None\<rparr>) else None
   | AddedRunnable cw r \<Rightarrow> Some (case r of Some _ \<Rightarrow> w\<lparr>sw_failed := True\<rparr>
       | None \<Rightarrow> w\<lparr>sw_added := cw # sw_added w\<rparr>)
   | AddedHealthzCheck n r \<Rightarrow> Some (case r of Some _ \<Rightarrow> w\<lparr>sw_failed := True\<rparr>
       | None \<Rightarrow> w\<lparr>sw_checks := n # sw_checks w\<rparr>)
   | AddedReadyzCheck n r \<Rightarrow> Some (case r of Some _ \<Rightarrow> w\<lparr>sw_failed := True\<rparr>
       | None \<Rightarrow> w\<lparr>sw_checks := n # sw_checks w\<rparr>)
   | StartedManager r \<Rightarrow>
       if set (sw_controllers w) = all_controllers \<and> set (sw_made w) \<subseteq> set (sw_added w)
         \<and> set (sw_checks w) = {''healthz'', ''readyz''}
       then Some (w\<lparr>sw_failed := r \<noteq> None, sw_started := True\<rparr>) else None))"

section \<open>The code keeps the rule\<close>

text \<open>How the process may end: status 1 after a failed call, status 0 after the manager has run.\<close>

definition ended :: "nat \<Rightarrow> start_watch \<Rightarrow> bool" where
  "ended status w \<longleftrightarrow> (status = 1 \<and> sw_failed w) \<or> (status = 0 \<and> \<not> sw_failed w \<and> sw_started w)"

lemma wp_or_exit:
  "wp step m (\<lambda>r w'. case r of Some _ \<Rightarrow> Q 1 w' | None \<Rightarrow> wp step k Q w') w \<Longrightarrow> wp step (or_exit m k) Q w"
  unfolding or_exit_def by (rule wp_bind, erule wp_weaken) (auto intro!: wp_ret split: option.splits)

definition running :: "start_watch \<Rightarrow> bool" where
  "running w \<longleftrightarrow> \<not> sw_failed w \<and> \<not> sw_started w"

lemma start_manager_ends:
  assumes "running w" "set (sw_controllers w) = all_controllers" "sw_checks w = []" "sw_added w = []"
    and "set (sw_made w) = set_option a \<union> set_option b"
  shows "wp (start_step f) (start_manager m a b) ended w"
  using assms unfolding start_manager_def add_watcher_def running_def
  by (auto intro!: wp_or_exit wp_intro simp: start_step_def ended_def split: option.splits)

text \<open>
  The contract of a \<open>SetupWithManager\<close>: it registers the indexes its watches need, then completes
  one controller for its kind, or reports the first failure.
\<close>

definition enrolled :: "kind \<Rightarrow> start_watch \<Rightarrow> start_watch \<Rightarrow> bool" where
  "enrolled kd w w' \<longleftrightarrow> running w' \<and> sw_controllers w' = kd # sw_controllers w \<and> sw_checks w' = sw_checks w \<and>
     sw_added w' = sw_added w \<and> sw_made w' = sw_made w"

locale controller_setup =
  fixes enrol :: "('e, go_error option) enrolment" and kd :: kind
  assumes enrols: "running w \<Longrightarrow> kd \<notin> set (sw_controllers w) \<Longrightarrow>
    wp (start_step f) enrol (\<lambda>r w'. case r of Some _ \<Rightarrow> sw_failed w' | None \<Rightarrow> enrolled kd w w') w"
begin

lemma enrol_or_exit:
  assumes "running w" "kd \<notin> set (sw_controllers w)"
    and "\<And>w'. enrolled kd w w' \<Longrightarrow> wp (start_step f) k ended w'"
  shows "wp (start_step f) (or_exit enrol k) ended w"
  by (rule wp_or_exit, rule wp_weaken [OF enrols [OF assms(1,2)]])
    (auto intro: assms(3) simp: ended_def split: option.splits)

end

interpretation serenedb_setup: controller_setup "SereneDB_SetupWithManager l rt c m" KindSereneDB
  by unfold_locales (auto intro!: wp_intro simp: setup_defs start_step_def running_def enrolled_def indexed_def owns_as_due_def
      split: option.splits)

interpretation database_setup: controller_setup "Database_SetupWithManager l d m" KindDatabase
  by unfold_locales (auto intro!: wp_intro simp: setup_defs start_step_def running_def enrolled_def indexed_def owns_as_due_def
      split: option.splits)

interpretation role_setup: controller_setup "Role_SetupWithManager l rt d m" KindDatabaseRole
  by unfold_locales (auto intro!: wp_intro simp: setup_defs start_step_def running_def enrolled_def indexed_def owns_as_due_def
      split: option.splits)

interpretation server_secret_setup: controller_setup "ServerSecret_SetupWithManager l rt d m" KindServerSecret
  by unfold_locales (auto intro!: wp_intro simp: setup_defs start_step_def running_def enrolled_def indexed_def owns_as_due_def
      split: option.splits)

interpretation backup_setup: controller_setup "Backup_SetupWithManager l rt d m" KindBackup
  by unfold_locales (auto intro!: wp_intro simp: setup_defs start_step_def running_def enrolled_def indexed_def owns_as_due_def
      split: option.splits)

interpretation schedule_setup: controller_setup "ScheduledBackup_SetupWithManager l rt r m" KindScheduledBackup
  by unfold_locales (auto intro!: wp_intro simp: setup_defs start_step_def running_def enrolled_def indexed_def owns_as_due_def
      split: option.splits)

lemma register_controllers_ends:
  assumes "running w" "sw_controllers w = []"
    and "\<And>w'. running w' \<Longrightarrow> set (sw_controllers w') = all_controllers \<Longrightarrow> sw_checks w' = sw_checks w \<Longrightarrow>
      sw_added w' = sw_added w \<Longrightarrow> sw_made w' = sw_made w \<Longrightarrow> wp (start_step f) k ended w'"
  shows "wp (start_step f) (register_controllers l rt px m k) ended w"
  unfolding register_controllers_def Let_def
  by (rule serenedb_setup.enrol_or_exit database_setup.enrol_or_exit role_setup.enrol_or_exit
      server_secret_setup.enrol_or_exit backup_setup.enrol_or_exit schedule_setup.enrol_or_exit
      | simp add: enrolled_def assms)+
    (auto intro!: assms(3) simp: enrolled_def all_controllers_def assms(2))

text \<open>C8. Whatever the platform answers, the start of the operator keeps the rule: no call follows a
  failed one, except that the look-up of the snapshot API may fail, and then the start goes on
  with a Backup controller that does not own snapshots, as it owns them when the look-up
  succeeds; a controller is completed once, with the kinds it owns and only with an index
  registered on its own kind for each of its watches; both servers speak HTTP/2 only when the
  flag asks for it and serve the certificate of their own flags; metrics are served over TLS
  exactly when they are authorized, and at the addresses asked for; and the manager is started
  with all six controllers, both checks and every certificate watcher that was made. The exit
  status is 1 exactly when a call other than that look-up has failed, and otherwise it is 0 and
  the manager has run.\<close>

theorem start_follows_rule:
  "\<exists>w. watch (start_step f) start_begin (trace_of (main l rt pf f) e) = Some w \<and>
     ended (result_of (main l rt pf f) e) w"
proof -
  have "wp (start_step f) (main l rt pf f) ended start_begin"
    unfolding main_def watch_certificate_def
    by (auto intro!: wp_intro wp_or_exit register_controllers_ends start_manager_ends
      simp: start_step_def start_begin_def ended_def running_def hardened_def tls_as_asked_def
        metrics_server_options_def with_certificate_def tls_opts_def Let_def split: option.splits)
  then show ?thesis by (rule wpD)
qed

end
