(* ===== verification/Wakeups.thy ===== *)
theory Wakeups
  imports Startup
begin

text \<open>
  Which events bring a reconcile: what an event on an object requeues in each of the controllers a
  started operator has registered, by its \<open>For\<close>, its \<open>Owns\<close> and its \<open>Watches\<close> with their index
  functions.
\<close>

section \<open>References\<close>

text \<open>
  What an object names in its spec: the SereneDB it lives on and the Secret its password or
  options come from.
\<close>

fun references :: "api_object \<Rightarrow> kind \<Rightarrow> string set" where
  "references (DatabaseObject da) KindSereneDB = {cr_name (dbs_cluster (da_spec da))}"
| "references (RoleObject dr) KindSereneDB = {cr_name (ro_cluster (dr_spec dr))}"
| "references (RoleObject dr) KindSecret = set_option (map_option ps_name (ro_password_secret (dr_spec dr)))"
| "references (ServerSecretObject se) KindSereneDB = {cr_name (ss_cluster (se_spec se))}"
| "references (ServerSecretObject se) KindSecret = set_option (map_option lor_name (ss_values_from (se_spec se)))"
| "references (BackupObject bk) KindSereneDB = {cr_name (ba_cluster (bk_spec bk))}"
| "references (ScheduleObject sd) KindSereneDB = {cr_name (sb_cluster (sd_spec sd))}"
| "references _ _ = {}"

text \<open>
  The kinds whose controllers follow what their objects name. A ScheduledBackup names a SereneDB,
  and a SereneDB names Secrets in \<open>auth.existingSecret\<close> and \<open>tls.secretName\<close>, but their controllers
  watch nothing by name: a schedule runs by the clock, and a SereneDB that waits for a Secret is
  tried again after 30 seconds.
\<close>

definition followers :: "kind set" where
  "followers = {KindDatabase, KindDatabaseRole, KindServerSecret, KindBackup}"

section \<open>The cache\<close>

text \<open>The indexes a log has registered.\<close>

definition indexes_of :: "'e setup_event list \<Rightarrow> (kind \<times> string \<times> indexer) list" where
  "indexes_of es = concat (map (\<lambda>ev. case ev of IndexedField kd idx f None \<Rightarrow> [(kd, idx, f)] | _ \<Rightarrow> []) es)"

lemma indexes_of_append [simp]: "indexes_of (es @ fs) = indexes_of es @ indexes_of fs"
  by (simp add: indexes_of_def)

text \<open>
  A list by a registered index that answers holds the cached objects of the kind and namespace
  whose index values hold the value asked for.
\<close>

definition selects :: "indexer \<Rightarrow> string \<Rightarrow> api_object \<Rightarrow> bool" where
  "selects f v obj = (case f obj of Done vs \<Rightarrow> v \<in> set vs | Panic _ \<Rightarrow> False)"



section \<open>From an event to requests\<close>







section \<open>Every reference is watched through its index\<close>

definition well_watched :: "(kind \<times> string \<times> indexer) list \<Rightarrow> 'e registration \<Rightarrow> bool" where
  "well_watched reg rg \<longleftrightarrow>
     (\<forall>wt \<in> set (rg_watches rg). wt_list wt = rg_for rg \<and> (\<exists>f. (wt_list wt, wt_index wt, f) \<in> set reg)) \<and>
     (\<forall>obj src name. kind_of obj = rg_for rg \<longrightarrow> (rg_for rg \<in> followers \<and> name \<in> references obj src \<longleftrightarrow>
        (\<exists>wt \<in> set (rg_watches rg). wt_source wt = src \<and>
          (\<exists>f. (wt_list wt, wt_index wt, f) \<in> set reg \<and> selects f name obj))))"

text \<open>
  The kinds a controller owns: what the operator builds for a SereneDB, and the snapshot of a
  Backup when the cluster was found to serve them.
\<close>

definition owns_due :: "'e setup_event list \<Rightarrow> kind \<Rightarrow> kind set \<Rightarrow> bool" where
  "owns_due es kd owned \<longleftrightarrow> (case kd of
     KindSereneDB \<Rightarrow> owned = {KindStatefulSet, KindService, KindConfigMap, KindSecret, KindNetworkPolicy}
   | KindBackup \<Rightarrow> MappedRest VolumeSnapshotGVK None \<in> set es \<and> owned = {KindVolumeSnapshot} \<or>
       (\<exists>err. MappedRest VolumeSnapshotGVK (Some err) \<in> set es \<and> owned = {})
   | _ \<Rightarrow> owned = {})"


definition watched :: "'e setup_event list \<Rightarrow> bool" where
  "watched es \<longleftrightarrow> (\<forall>rg. Completed rg None \<in> set es \<longrightarrow>
     (\<exists>reg. set reg \<subseteq> set (indexes_of es) \<and> well_watched reg rg) \<and> owns_due es (rg_for rg) (set (rg_owns rg)))"

lemma watched_Nil [simp]: "watched []"
  by (simp add: watched_def)





lemma option_value_set: "v \<in> set (case x of None \<Rightarrow> [] | Some r \<Rightarrow> [f r]) \<longleftrightarrow> (\<exists>r. x = Some r \<and> v = f r)"
  by (cases x) simp_all

lemma selects_values [simp]:
  "selects Database_cluster_values v (DatabaseObject da) \<longleftrightarrow> v = cr_name (dbs_cluster (da_spec da))"
  "selects Role_cluster_values v (RoleObject dr) \<longleftrightarrow> v = cr_name (ro_cluster (dr_spec dr))"
  "selects Role_secret_values v (RoleObject dr) \<longleftrightarrow>
     (\<exists>ref. ro_password_secret (dr_spec dr) = Some ref \<and> v = ps_name ref)"
  "selects ServerSecret_cluster_values v (ServerSecretObject se) \<longleftrightarrow> v = cr_name (ss_cluster (se_spec se))"
  "selects ServerSecret_secret_values v (ServerSecretObject se) \<longleftrightarrow>
     (\<exists>ref. ss_values_from (se_spec se) = Some ref \<and> v = lor_name ref)"
  "selects Backup_cluster_values v (BackupObject bk) \<longleftrightarrow> v = cr_name (ba_cluster (bk_spec bk))"
  by (simp_all add: selects_def index_values option_value_set, (metis (no_types))+)

lemma index_names [simp]: "clusterIndex \<noteq> secretIndex" "secretIndex \<noteq> clusterIndex"
  by (simp_all add: clusterIndex_def secretIndex_def)





section \<open>The events of a controller\<close>




section \<open>A cache\<close>















end
