(* ===== verification/Memory.thy ===== *)
theory Memory
  imports Workload
begin

text \<open>
  Go memory, as far as the API types of api/v1alpha1 use it: pointers, slices and maps of one
  struct are references into a store of blocks, which other structs may hold as well. The types
  here are the structs as they lie in memory, reference by reference; the types of ApiTypes are
  the values they stand for. The contract of a deep copy is the locale \<open>deep_copying\<close>, and the
  lemmas build a copy of a struct out of copies of its fields.
\<close>

section \<open>Structs in memory\<close>

text \<open>
  A reference is \<open>nil\<close> or an address. A slice refers to its backing array, of which it sees the
  whole. Structs of other packages that may hold references of their own (\<open>ObjectMeta\<close>,
  \<open>Condition\<close>, \<open>EnvVar\<close> and the like) have the type \<open>'f\<close>.
\<close>

type_synonym reference = "nat option"

record type_meta =
  ty_kind :: string
  ty_api_version :: string

record config_mem =
  cm_log_level :: string
  cm_max_connections :: int32
  cm_cpu_threads :: int32
  cm_io_threads :: int32
  cm_background_threads :: int32
  cm_auth_timeout :: string
  cm_idle_session_timeout :: string
  cm_pg_max_message_bytes :: int64
  cm_hba :: string
  cm_extra_flags :: reference

record persistence_mem =
  pm_size :: reference
  pm_storage_class_name :: reference
  pm_access_modes :: reference
  pm_existing_claim :: string
  pm_retention_policy :: retention_policy_spec

record service_mem =
  vm_type :: string
  vm_node_port :: int32
  vm_annotations :: reference

record 'f serenedb_spec_mem =
  sm_bootstrap :: reference
  sm_image :: image_spec
  sm_image_pull_secrets :: reference
  sm_auth :: auth_spec
  sm_listeners :: listeners_spec
  sm_tls :: tls_spec
  sm_config :: config_mem
  sm_persistence :: persistence_mem
  sm_resources :: 'f
  sm_termination_grace_period_seconds :: reference
  sm_service :: service_mem
  sm_network_policy :: network_policy_spec_cr
  sm_env :: reference
  sm_pod_annotations :: reference
  sm_pod_labels :: reference
  sm_node_selector :: reference
  sm_tolerations :: reference
  sm_affinity :: reference
  sm_priority_class_name :: string

record serenedb_status_mem =
  tm_observed_generation :: int64
  tm_conditions :: reference
  tm_ready_replicas :: int32
  tm_version :: string
  tm_secret_name :: string
  tm_host :: string
  tm_port :: int32

record dependent_status_mem =
  dm_observed_generation :: int64
  dm_conditions :: reference

record database_role_spec_mem =
  rm_cluster :: cluster_ref
  rm_name :: string
  rm_login :: bool
  rm_superuser :: bool
  rm_create_db :: bool
  rm_create_role :: bool
  rm_inherit :: reference
  rm_connection_limit :: reference
  rm_valid_until :: string
  rm_password_secret :: reference
  rm_in_roles :: reference
  rm_reclaim_policy :: string

record database_role_status_mem =
  rk_dependent :: dependent_status_mem
  rk_password_secret_version :: string

record server_secret_spec_mem =
  em_cluster :: cluster_ref
  em_name :: string
  em_type :: string
  em_scope :: string
  em_options :: reference
  em_values_from :: reference

record server_secret_status_mem =
  et_dependent :: dependent_status_mem
  et_values_secret_version :: string

record backup_spec_mem =
  bm_cluster :: cluster_ref
  bm_method :: string
  bm_volume_snapshot_class_name :: reference

record backup_status_mem =
  bu_phase :: string
  bu_started_at :: reference
  bu_completed_at :: reference
  bu_snapshot_name :: string
  bu_error :: string

record scheduled_backup_spec_mem =
  hm_cluster :: cluster_ref
  hm_schedule :: string
  hm_suspend :: bool
  hm_immediate :: bool
  hm_keep :: reference
  hm_method :: string
  hm_volume_snapshot_class_name :: reference

record scheduled_backup_status_mem =
  hu_last_schedule_time :: reference
  hu_next_schedule_time :: reference
  hu_last_backup :: string
  hu_conditions :: reference

text \<open>The six kinds have one shape, and so have their lists.\<close>

record ('f, 's, 't) object_mem =
  o_type :: type_meta
  o_meta :: 'f
  o_spec :: 's
  o_status :: 't

record 'f list_mem =
  l_type :: type_meta
  l_meta :: 'f
  l_items :: reference

type_synonym 'f serenedb_mem = "('f, 'f serenedb_spec_mem, serenedb_status_mem) object_mem"
type_synonym 'f database_mem = "('f, database_spec, dependent_status_mem) object_mem"
type_synonym 'f database_role_mem = "('f, database_role_spec_mem, database_role_status_mem) object_mem"
type_synonym 'f server_secret_mem = "('f, server_secret_spec_mem, server_secret_status_mem) object_mem"
type_synonym 'f backup_mem = "('f, backup_spec_mem, backup_status_mem) object_mem"
type_synonym 'f scheduled_backup_mem = "('f, scheduled_backup_spec_mem, scheduled_backup_status_mem) object_mem"

type_synonym 'f serenedb_list_mem = "'f list_mem"
type_synonym 'f database_list_mem = "'f list_mem"
type_synonym 'f database_role_list_mem = "'f list_mem"
type_synonym 'f server_secret_list_mem = "'f list_mem"
type_synonym 'f backup_list_mem = "'f list_mem"
type_synonym 'f scheduled_backup_list_mem = "'f list_mem"

section \<open>The store\<close>

text \<open>One block is what one \<open>new\<close>, \<open>make\<close> or composite literal allocates.\<close>

datatype 'f block =
    StringCell string | BoolCell bool | Int32Cell int32 | Int64Cell int64
  | PasswordSecretRefCell password_secret_ref | BootstrapCell bootstrap_spec
  | LocalRefCell local_object_reference
  | StringsCell "string list" | LocalRefsCell "local_object_reference list" | MapCell gomap
  | ForeignCell 'f | ForeignsCell "'f list"
  | SereneDBsCell "'f serenedb_mem list" | DatabasesCell "'f database_mem list"
  | RolesCell "'f database_role_mem list" | ServerSecretsCell "'f server_secret_mem list"
  | BackupsCell "'f backup_mem list" | ScheduledBackupsCell "'f scheduled_backup_mem list"

type_synonym 'f memory = "'f block list"
type_synonym ('f, 'a) mem = "('f memory, 'a) state"

definition block_at :: "'f memory \<Rightarrow> nat \<Rightarrow> 'f block option" where
  "block_at m a = (if a < length m then Some (m ! a) else None)"

text \<open>Go memory is safe: what is not \<open>nil\<close> refers to an allocated block.\<close>

definition read :: "nat \<Rightarrow> ('f, 'f block) mem" where
  "read a = State (\<lambda>m. (m ! a, m))"

definition alloc :: "'f block \<Rightarrow> ('f, nat) mem" where
  "alloc b = State (\<lambda>m. (length m, m @ [b]))"

text \<open>The kinds of block, each with its content.\<close>

record ('f, 'x) cell_type =
  ct_get :: "'f block \<Rightarrow> 'x option"
  ct_put :: "'x \<Rightarrow> 'f block"

definition string_cell :: "('f, string) cell_type" where
  "string_cell = \<lparr>ct_get = (\<lambda>b. case b of StringCell x \<Rightarrow> Some x | _ \<Rightarrow> None),
      ct_put = StringCell\<rparr>"
definition bool_cell :: "('f, bool) cell_type" where
  "bool_cell = \<lparr>ct_get = (\<lambda>b. case b of BoolCell x \<Rightarrow> Some x | _ \<Rightarrow> None), ct_put
      = BoolCell\<rparr>"
definition int32_cell :: "('f, int32) cell_type" where
  "int32_cell = \<lparr>ct_get = (\<lambda>b. case b of Int32Cell x \<Rightarrow> Some x | _ \<Rightarrow> None),
      ct_put = Int32Cell\<rparr>"
definition int64_cell :: "('f, int64) cell_type" where
  "int64_cell = \<lparr>ct_get = (\<lambda>b. case b of Int64Cell x \<Rightarrow> Some x | _ \<Rightarrow> None),
      ct_put = Int64Cell\<rparr>"
definition password_secret_ref_cell :: "('f, password_secret_ref) cell_type" where
  "password_secret_ref_cell =
     \<lparr>ct_get = (\<lambda>b. case b of PasswordSecretRefCell x \<Rightarrow> Some x | _ \<Rightarrow> None),
         ct_put = PasswordSecretRefCell\<rparr>"
definition bootstrap_cell :: "('f, bootstrap_spec) cell_type" where
  "bootstrap_cell = \<lparr>ct_get = (\<lambda>b. case b of BootstrapCell x \<Rightarrow> Some x | _ \<Rightarrow>
      None), ct_put = BootstrapCell\<rparr>"
definition local_ref_cell :: "('f, local_object_reference) cell_type" where
  "local_ref_cell = \<lparr>ct_get = (\<lambda>b. case b of LocalRefCell x \<Rightarrow> Some x | _ \<Rightarrow>
      None), ct_put = LocalRefCell\<rparr>"
definition strings_cell :: "('f, string list) cell_type" where
  "strings_cell = \<lparr>ct_get = (\<lambda>b. case b of StringsCell x \<Rightarrow> Some x | _ \<Rightarrow> None),
      ct_put = StringsCell\<rparr>"
definition local_refs_cell :: "('f, local_object_reference list) cell_type" where
  "local_refs_cell = \<lparr>ct_get = (\<lambda>b. case b of LocalRefsCell x \<Rightarrow> Some x | _ \<Rightarrow>
      None), ct_put = LocalRefsCell\<rparr>"
definition map_cell :: "('f, gomap) cell_type" where
  "map_cell = \<lparr>ct_get = (\<lambda>b. case b of MapCell x \<Rightarrow> Some x | _ \<Rightarrow> None), ct_put =
      MapCell\<rparr>"
definition foreign_cell :: "('f, 'f) cell_type" where
  "foreign_cell = \<lparr>ct_get = (\<lambda>b. case b of ForeignCell x \<Rightarrow> Some x | _ \<Rightarrow> None),
      ct_put = ForeignCell\<rparr>"
definition foreigns_cell :: "('f, 'f list) cell_type" where
  "foreigns_cell = \<lparr>ct_get = (\<lambda>b. case b of ForeignsCell x \<Rightarrow> Some x | _ \<Rightarrow>
      None), ct_put = ForeignsCell\<rparr>"
definition serenedbs_cell :: "('f, 'f serenedb_mem list) cell_type" where
  "serenedbs_cell = \<lparr>ct_get = (\<lambda>b. case b of SereneDBsCell x \<Rightarrow> Some x | _ \<Rightarrow>
      None), ct_put = SereneDBsCell\<rparr>"
definition databases_cell :: "('f, 'f database_mem list) cell_type" where
  "databases_cell = \<lparr>ct_get = (\<lambda>b. case b of DatabasesCell x \<Rightarrow> Some x | _ \<Rightarrow>
      None), ct_put = DatabasesCell\<rparr>"
definition roles_cell :: "('f, 'f database_role_mem list) cell_type" where
  "roles_cell = \<lparr>ct_get = (\<lambda>b. case b of RolesCell x \<Rightarrow> Some x | _ \<Rightarrow> None),
      ct_put = RolesCell\<rparr>"
definition server_secrets_cell :: "('f, 'f server_secret_mem list) cell_type" where
  "server_secrets_cell = \<lparr>ct_get = (\<lambda>b. case b of ServerSecretsCell x \<Rightarrow> Some x | _
      \<Rightarrow> None), ct_put = ServerSecretsCell\<rparr>"
definition backups_cell :: "('f, 'f backup_mem list) cell_type" where
  "backups_cell = \<lparr>ct_get = (\<lambda>b. case b of BackupsCell x \<Rightarrow> Some x | _ \<Rightarrow> None),
      ct_put = BackupsCell\<rparr>"
definition scheduled_backups_cell :: "('f, 'f scheduled_backup_mem list) cell_type" where
  "scheduled_backups_cell =
     \<lparr>ct_get = (\<lambda>b. case b of ScheduledBackupsCell x \<Rightarrow> Some x | _ \<Rightarrow> None),
         ct_put = ScheduledBackupsCell\<rparr>"

definition cell_law :: "('f, 'x) cell_type \<Rightarrow> bool" where
  "cell_law c \<longleftrightarrow> (\<forall>x. ct_get c (ct_put c x) = Some x)"

lemma cell_laws:
  "cell_law string_cell" "cell_law bool_cell" "cell_law int32_cell" "cell_law int64_cell"
  "cell_law password_secret_ref_cell" "cell_law bootstrap_cell" "cell_law local_ref_cell" "cell_law strings_cell"
  "cell_law local_refs_cell" "cell_law map_cell" "cell_law foreign_cell" "cell_law foreigns_cell"
  "cell_law serenedbs_cell" "cell_law databases_cell" "cell_law roles_cell" "cell_law server_secrets_cell"
  "cell_law backups_cell" "cell_law scheduled_backups_cell"
  by (simp_all add: cell_law_def string_cell_def bool_cell_def int32_cell_def int64_cell_def
      password_secret_ref_cell_def bootstrap_cell_def local_ref_cell_def strings_cell_def local_refs_cell_def
      map_cell_def foreign_cell_def foreigns_cell_def serenedbs_cell_def databases_cell_def roles_cell_def
      server_secrets_cell_def backups_cell_def scheduled_backups_cell_def)

section \<open>Copying a reference\<close>

text \<open>
  \<open>if in.X != nil { ... }\<close>: \<open>nil\<close> stays \<open>nil\<close>, otherwise a new block takes the
      copied content. A
  pointee or the elements of a slice are copied by assignment (\<open>**out = **in\<close>, \<open>copy(*out, *in)\<close>)
  or by their own \<open>DeepCopyInto\<close>, a map entry by entry.
\<close>

definition copy_ref :: "('f, 'x) cell_type \<Rightarrow> ('x \<Rightarrow> ('f, 'x) mem) \<Rightarrow> reference
    \<Rightarrow> ('f, reference) mem" where
  "copy_ref c copy r = (case r of None \<Rightarrow> State_Monad.return None
     | Some a \<Rightarrow> do {
         b \<leftarrow> read a;
         x \<leftarrow> copy (the (ct_get c b));
         a' \<leftarrow> alloc (ct_put c x);
         State_Monad.return (Some a')
       })"

definition assign :: "'x \<Rightarrow> ('f, 'x) mem" where
  "assign x = State_Monad.return x"

definition copy_map :: "gomap \<Rightarrow> ('f, gomap) mem" where
  "copy_map g = State_Monad.return (maps_Copy [] g)"

text \<open>\<open>for i := range *in { (*in)[i].DeepCopyInto(&(*out)[i]) }\<close>\<close>

abbreviation copy_each :: "('x \<Rightarrow> ('f, 'x) mem) \<Rightarrow> 'x list \<Rightarrow> ('f, 'x list) mem" where
  "copy_each \<equiv> State_Monad.traverse_list"

section \<open>The contract of a deep copy\<close>

text \<open>
  \<open>load m x\<close> is the value \<open>x\<close> stands for, none when a reference dangles or has a block of the wrong
  kind behind it; \<open>refs m x\<close> are the blocks it reaches. A deep copy allocates only, stands for the
  same value, and reaches new blocks only.
\<close>

locale deep_copying =
  fixes copy :: "'a \<Rightarrow> ('f, 'a) mem"
    and load :: "'f memory \<Rightarrow> 'a \<Rightarrow> 'v option"
    and refs :: "'f memory \<Rightarrow> 'a \<Rightarrow> nat set"
  assumes frame: "\<forall>a \<in> refs m x. block_at m' a = block_at m a \<Longrightarrow> load m' x = load m x
      \<and> refs m' x = refs m x"
    and bounded: "load m x = Some v \<Longrightarrow> refs m x \<subseteq> {..<length m}"
    and copies: "load m x = Some v \<Longrightarrow> run_state (copy x) m = (y, m') \<Longrightarrow>
      (\<exists>new. m' = m @ new) \<and> load m' y = Some v \<and> refs m' y \<subseteq> {length m..}"
begin

lemma grows:
  assumes "load m x = Some v"
  shows "load (m @ new) x = Some v \<and> refs (m @ new) x = refs m x"
proof -
  have "\<forall>a \<in> refs m x. block_at (m @ new) a = block_at m a"
    using bounded [OF assms] by (auto simp: block_at_def nth_append)
  from frame [OF this] assms show ?thesis by simp
qed

end

lemma deep_copying_assign: "deep_copying assign (\<lambda>m. Some) (\<lambda>m x. {})"
  by unfold_locales (auto simp: assign_def)

definition load_map :: "gomap \<Rightarrow> gomap option" where
  "load_map g = (if distinct (map fst g) then Some g else None)"

lemma maps_Copy_distinct: "distinct (map fst (dst @ src)) \<Longrightarrow> maps_Copy dst src = dst @ src"
proof (induction src arbitrary: dst)
  case (Cons e src)
  obtain k v where e: "e = (k, v)" by (cases e)
  have "k \<notin> fst ` set dst" using Cons.prems by (auto simp: e)
  then have "AList.update k v dst = dst @ [e]" by (simp add: e) (induction dst; auto)
  with Cons.IH [of "dst @ [e]"] Cons.prems show ?case by (simp add: maps_Copy_def e)
qed (simp add: maps_Copy_def)

lemma deep_copying_map: "deep_copying copy_map (\<lambda>m. load_map) (\<lambda>m x. {})"
  using maps_Copy_distinct [of "[]"] by unfold_locales (auto simp: copy_map_def load_map_def split: if_splits)

text \<open>Behind a reference.\<close>

definition content :: "('f, 'x) cell_type \<Rightarrow> 'f memory \<Rightarrow> nat \<Rightarrow> 'x option" where
  "content c m a = Option.bind (block_at m a) (ct_get c)"

definition load_ref :: "('f, 'x) cell_type \<Rightarrow> ('f memory \<Rightarrow> 'x \<Rightarrow> 'v option)
    \<Rightarrow> 'f memory \<Rightarrow> reference \<Rightarrow> 'v option option" where
  "load_ref c load m r = (case r of None \<Rightarrow> Some None
     | Some a \<Rightarrow> Option.bind (content c m a) (\<lambda>x. map_option Some (load m x)))"

definition refs_ref :: "('f, 'x) cell_type \<Rightarrow> ('f memory \<Rightarrow> 'x \<Rightarrow> nat set)
    \<Rightarrow> 'f memory \<Rightarrow> reference \<Rightarrow> nat set" where
  "refs_ref c refs m r = (case r of None \<Rightarrow> {}
     | Some a \<Rightarrow> insert a (case content c m a of None \<Rightarrow> {} | Some x \<Rightarrow> refs m x))"

lemma content_at: "content c m a = Some x \<Longrightarrow> a < length m \<and> ct_get c (m ! a) = Some x"
  by (simp add: content_def block_at_def split: if_splits)

lemma deep_copying_ref:
  fixes copy :: "'x \<Rightarrow> ('f, 'x) mem"
  assumes "cell_law c" "deep_copying copy load refs"
  shows "deep_copying (copy_ref c copy) (load_ref c load) (refs_ref c refs)"
proof
  fix m m' :: "'f memory" and r :: reference
  assume same: "\<forall>a \<in> refs_ref c refs m r. block_at m' a = block_at m a"
  show "load_ref c load m' r = load_ref c load m r \<and> refs_ref c refs m' r = refs_ref c refs m r"
  proof (cases r)
    case (Some a)
    with same have a: "content c m' a = content c m a" by (simp add: refs_ref_def content_def)
    show ?thesis
    proof (cases "content c m a")
      case x: (Some x)
      with same Some have "\<forall>b \<in> refs m x. block_at m' b = block_at m b" by (simp add: refs_ref_def)
      from deep_copying.frame [OF assms(2) this] show ?thesis by (simp add: load_ref_def refs_ref_def Some a x)
    qed (simp add: load_ref_def refs_ref_def Some a)
  qed (simp add: load_ref_def refs_ref_def)
next
  fix m :: "'f memory" and r v
  assume "load_ref c load m r = Some v"
  then show "refs_ref c refs m r \<subseteq> {..<length m}"
    using deep_copying.bounded [OF assms(2)] content_at
    by (fastforce simp: load_ref_def refs_ref_def split: option.splits bind_splits)
next
  fix m m' :: "'f memory" and r r' v
  assume load: "load_ref c load m r = Some v" and run: "run_state (copy_ref c copy r) m = (r', m')"
  show "(\<exists>new. m' = m @ new) \<and> load_ref c load m' r' = Some v \<and> refs_ref c refs m' r' \<subseteq>
      {length m..}"
  proof (cases r)
    case None
    with load run show ?thesis by (simp add: copy_ref_def load_ref_def refs_ref_def)
  next
    case (Some a)
    with load obtain x w where x: "content c m a = Some x" "load m x = Some w" "v = Some w"
      by (auto simp: load_ref_def bind_eq_Some_conv)
    obtain y m1 where y: "run_state (copy x) m = (y, m1)" by fastforce
    from deep_copying.copies [OF assms(2) x(2) y] obtain new
      where new: "m1 = m @ new" "load m1 y = Some w" "refs m1 y \<subseteq> {length m..}" by blast
    from run Some content_at [OF x(1)] y have m': "r' = Some (length m1)" "m' = m1 @ [ct_put c y]"
      by (simp_all add: copy_ref_def read_def alloc_def)
    have "content c m' (length m1) = Some y"
      using assms(1) by (simp add: content_def block_at_def m'(2) cell_law_def)
    with deep_copying.grows [OF assms(2) new(2), of "[ct_put c y]"] new x(3) show ?thesis
      by (auto simp: load_ref_def refs_ref_def m')
  qed
qed

text \<open>Elements and fields are copied one after the other.\<close>

definition load_each :: "('f memory \<Rightarrow> 'x \<Rightarrow> 'v option) \<Rightarrow> 'f memory \<Rightarrow> 'x
    list \<Rightarrow> 'v list option" where
  "load_each load m xs = those (map (load m) xs)"

definition refs_each :: "('f memory \<Rightarrow> 'x \<Rightarrow> nat set) \<Rightarrow> 'f memory \<Rightarrow> 'x
    list \<Rightarrow> nat set" where
  "refs_each refs m xs = (\<Union>x \<in> set xs. refs m x)"

definition copy_pair :: "('x \<Rightarrow> ('f, 'x) mem) \<Rightarrow> ('y \<Rightarrow> ('f, 'y) mem) \<Rightarrow>
    'x \<times> 'y \<Rightarrow> ('f, 'x \<times> 'y) mem" where
  "copy_pair f g p = do { x \<leftarrow> f (fst p); y \<leftarrow> g (snd p); State_Monad.return (x, y) }"

definition load_pair :: "('f memory \<Rightarrow> 'x \<Rightarrow> 'v option) \<Rightarrow> ('f memory \<Rightarrow>
    'y \<Rightarrow> 'w option) \<Rightarrow>
    'f memory \<Rightarrow> 'x \<times> 'y \<Rightarrow> ('v \<times> 'w) option" where
  "load_pair f g m p = do { x \<leftarrow> f m (fst p); y \<leftarrow> g m (snd p); Some (x, y) }"

definition refs_pair :: "('f memory \<Rightarrow> 'x \<Rightarrow> nat set) \<Rightarrow> ('f memory \<Rightarrow> 'y
    \<Rightarrow> nat set) \<Rightarrow> 'f memory \<Rightarrow> 'x \<times> 'y \<Rightarrow> nat set" where
  "refs_pair f g m p = f m (fst p) \<union> g m (snd p)"

lemma deep_copying_pair:
  fixes f :: "'x \<Rightarrow> ('f, 'x) mem"
  assumes "deep_copying f lf rf" "deep_copying g lg rg"
  shows "deep_copying (copy_pair f g) (load_pair lf lg) (refs_pair rf rg)"
proof
  fix m m' :: "'f memory" and p
  assume same: "\<forall>a \<in> refs_pair rf rg m p. block_at m' a = block_at m a"
  then have "\<forall>a \<in> rf m (fst p). block_at m' a = block_at m a" "\<forall>a \<in> rg m (snd p). block_at m'
      a = block_at m a"
    by (simp_all add: refs_pair_def)
  from deep_copying.frame [OF assms(1) this(1)] deep_copying.frame [OF assms(2) this(2)]
  show "load_pair lf lg m' p = load_pair lf lg m p \<and> refs_pair rf rg m' p = refs_pair rf rg m p"
    by (simp add: load_pair_def refs_pair_def)
next
  fix m :: "'f memory" and p v
  assume "load_pair lf lg m p = Some v"
  then show "refs_pair rf rg m p \<subseteq> {..<length m}"
    using deep_copying.bounded [OF assms(1), of m "fst p"] deep_copying.bounded [OF assms(2), of m "snd p"]
    by (auto simp: load_pair_def refs_pair_def bind_eq_Some_conv)
next
  fix m m' :: "'f memory" and p p' v
  assume load: "load_pair lf lg m p = Some v" and run: "run_state (copy_pair f g p) m = (p', m')"
  from load obtain v1 v2 where v: "lf m (fst p) = Some v1" "lg m (snd p) = Some v2" "v = (v1, v2)"
    by (auto simp: load_pair_def bind_eq_Some_conv)
  obtain x m1 where x: "run_state (f (fst p)) m = (x, m1)" by fastforce
  from deep_copying.copies [OF assms(1) v(1) x] obtain n1
    where n1: "m1 = m @ n1" "lf m1 x = Some v1" "rf m1 x \<subseteq> {length m..}" by blast
  have "lg m1 (snd p) = Some v2" using deep_copying.grows [OF assms(2) v(2), of n1] by (simp add: n1(1))
  note v2 = this
  obtain y m2 where y: "run_state (g (snd p)) m1 = (y, m2)" by fastforce
  from deep_copying.copies [OF assms(2) v2 y] obtain n2
    where n2: "m2 = m1 @ n2" "lg m2 y = Some v2" "rg m2 y \<subseteq> {length m1..}" by blast
  have "p' = (x, y)" "m' = m2" using run x y by (simp_all add: copy_pair_def)
  moreover have "lf m2 x = Some v1" "rf m2 x \<subseteq> {length m..}"
    using deep_copying.grows [OF assms(1) n1(2), of n2] n1(3) by (simp_all add: n2(1))
  ultimately show "(\<exists>new. m' = m @ new) \<and> load_pair lf lg m' p' = Some v \<and> refs_pair rf rg m' p'
      \<subseteq> {length m..}"
    using n1(1) n2 v(3) by (auto simp: load_pair_def refs_pair_def)
qed

lemma deep_copying_each:
  fixes f :: "'x \<Rightarrow> ('f, 'x) mem"
  assumes "deep_copying f lf rf"
  shows "deep_copying (copy_each f) (load_each lf) (refs_each rf)"
proof
  fix m m' :: "'f memory" and xs
  assume same: "\<forall>a \<in> refs_each rf m xs. block_at m' a = block_at m a"
  have "lf m' x = lf m x \<and> rf m' x = rf m x" if "x \<in> set xs" for x
    by (rule deep_copying.frame [OF assms]) (use same that in \<open>auto simp: refs_each_def\<close>)
  then show "load_each lf m' xs = load_each lf m xs \<and> refs_each rf m' xs = refs_each rf m xs"
    by (simp add: load_each_def refs_each_def cong: map_cong)
next
  fix m :: "'f memory" and xs v
  assume "load_each lf m xs = Some v"
  then show "refs_each rf m xs \<subseteq> {..<length m}"
  proof (induction xs arbitrary: v)
    case (Cons x xs)
    then show ?case
      using deep_copying.bounded [OF assms, of m x] by (auto simp: load_each_def refs_each_def split: option.splits)
  qed (simp add: refs_each_def)
next
  fix m m' :: "'f memory" and xs ys v
  assume "load_each lf m xs = Some v" and "run_state (copy_each f xs) m = (ys, m')"
  then show "(\<exists>new. m' = m @ new) \<and> load_each lf m' ys = Some v \<and> refs_each rf m' ys \<subseteq>
      {length m..}"
  proof (induction xs arbitrary: m ys v m')
    case Nil
    then show ?case by (simp add: load_each_def refs_each_def)
  next
    case (Cons x xs)
    from Cons.prems(1) obtain w vs where v: "lf m x = Some w" "load_each lf m xs = Some vs" "v = w # vs"
      by (auto simp: load_each_def split: option.splits)
    obtain y m1 where y: "run_state (f x) m = (y, m1)" by fastforce
    from deep_copying.copies [OF assms v(1) y] obtain n1
      where n1: "m1 = m @ n1" "lf m1 y = Some w" "rf m1 y \<subseteq> {length m..}" by blast
    obtain zs m2 where zs: "run_state (copy_each f xs) m1 = (zs, m2)" by fastforce
    have "lf (m @ n1) a = Some b" if "lf m a = Some b" for a b
      using deep_copying.grows [OF assms that] by blast
    then have "load_each lf m1 xs = Some vs"
      using v(2) by (induction xs arbitrary: vs) (auto simp: n1(1) load_each_def split: option.splits)
    from Cons.IH [OF this zs] obtain n2
      where n2: "m2 = m1 @ n2" "load_each lf m2 zs = Some vs" "refs_each rf m2 zs \<subseteq> {length m1..}" by blast
    have "lf m2 y = Some w" "rf m2 y \<subseteq> {length m..}"
      using deep_copying.grows [OF assms n1(2), of n2] n1(3) by (simp_all add: n2(1))
    moreover have "ys = y # zs" "m' = m2" using Cons.prems(2) y zs by simp_all
    ultimately show ?case using n1(1) n2 v(3) by (auto simp: load_each_def refs_each_def)
  qed
qed

text \<open>
  A struct is copied by copying the tuple \<open>get s\<close> of those of its fields that hold references and
  putting the copies in their place; \<open>build\<close> makes the value out of theirs.
\<close>

lemma deep_copying_struct:
  assumes "deep_copying f lf rf"
    and "\<And>s. copy s = (f (get s) \<bind> (\<lambda>t. State_Monad.return (put s t)))"
    and "\<And>m s. load m s = map_option (build s) (lf m (get s))" and "\<And>m s. refs m s = rf m (get s)"
    and "\<And>s t. get (put s t) = t" and "\<And>s t. build (put s t) = build s"
  shows "deep_copying copy load refs"
proof
  show "load m' s = load m s \<and> refs m' s = refs m s" if "\<forall>a \<in> refs m s. block_at m' a = block_at m a"
      for m m' s
    using deep_copying.frame [OF assms(1) that [unfolded assms(4)]] by (simp add: assms(3,4))
  show "refs m s \<subseteq> {..<length m}" if "load m s = Some v" for m s v
    using deep_copying.bounded [OF assms(1), of m "get s"] that by (auto simp: assms(3,4))
  show "(\<exists>new. m' = m @ new) \<and> load m' s' = Some v \<and> refs m' s' \<subseteq> {length m..}"
    if load: "load m s = Some v" and run: "run_state (copy s) m = (s', m')" for m m' s s' v
  proof -
    obtain t m1 where t: "run_state (f (get s)) m = (t, m1)" by fastforce
    with run have s': "s' = put s t" "m1 = m'" unfolding assms(2) by simp_all
    obtain w where w: "lf m (get s) = Some w" "v = build s w" using load by (auto simp: assms(3))
    have l': "load m' s' = map_option (build s) (lf m' t)" "refs m' s' = rf m' t"
      unfolding assms(3,4) s'(1) assms(5,6) by (rule refl)+
    from deep_copying.copies [OF assms(1) w(1) t] show ?thesis unfolding l' s'(2) w(2) by simp
  qed
qed

end
