(* ===== verification/DeepCopy.thy ===== *)
theory DeepCopy
  imports Memory
begin

text \<open>
  api/v1alpha1/zz_generated.deepcopy.go: \<open>DeepCopyInto\<close>, \<open>DeepCopy\<close> and
      \<open>DeepCopyObject\<close> of every API
  type, on the structs in memory of theory Memory. \<open>DeepCopyInto\<close> answers what it leaves in
  \<open>*out\<close>: it starts as \<open>*in\<close> (\<open>*out = *in\<close>), and the fields that hold
      references are replaced in
  the order of the source. A receiver behind a pointer is the struct itself, \<open>None\<close> for \<open>nil\<close>.
\<close>

section \<open>Structs of other packages\<close>

text \<open>
  Their deep copies are parameters, with the value a struct stands for and the blocks it reaches;
  what is relied on is the contract \<open>deep_copying\<close>.
\<close>

record 'f foreign =
  fc_meta :: "'f \<Rightarrow> ('f, 'f) mem"
  fc_list_meta :: "'f \<Rightarrow> ('f, 'f) mem"
  fc_condition :: "'f \<Rightarrow> ('f, 'f) mem"
  fc_env_var :: "'f \<Rightarrow> ('f, 'f) mem"
  fc_toleration :: "'f \<Rightarrow> ('f, 'f) mem"
  fc_affinity :: "'f \<Rightarrow> ('f, 'f) mem"
  fc_resources :: "'f \<Rightarrow> ('f, 'f) mem"
  fc_quantity :: "'f \<Rightarrow> ('f, 'f) mem"
  fc_time :: "'f \<Rightarrow> ('f, 'f) mem"
  fv_meta :: "'f memory \<Rightarrow> 'f \<Rightarrow> object_meta option"
  fv_list_meta :: "'f memory \<Rightarrow> 'f \<Rightarrow> opaque option"
  fv_condition :: "'f memory \<Rightarrow> 'f \<Rightarrow> condition option"
  fv_env_var :: "'f memory \<Rightarrow> 'f \<Rightarrow> env_var option"
  fv_toleration :: "'f memory \<Rightarrow> 'f \<Rightarrow> opaque option"
  fv_affinity :: "'f memory \<Rightarrow> 'f \<Rightarrow> opaque option"
  fv_resources :: "'f memory \<Rightarrow> 'f \<Rightarrow> opaque option"
  fv_quantity :: "'f memory \<Rightarrow> 'f \<Rightarrow> quantity option"
  fv_time :: "'f memory \<Rightarrow> 'f \<Rightarrow> time option"
  f_refs :: "'f memory \<Rightarrow> 'f \<Rightarrow> nat set"

definition foreign_law :: "'f foreign \<Rightarrow> bool" where
  "foreign_law F \<longleftrightarrow>
     deep_copying (fc_meta F) (fv_meta F) (f_refs F) \<and> deep_copying (fc_list_meta F) (fv_list_meta F) (f_refs F) \<and>
     deep_copying (fc_condition F) (fv_condition F) (f_refs F) \<and> deep_copying (fc_env_var F) (fv_env_var F)
         (f_refs F) \<and>
     deep_copying (fc_toleration F) (fv_toleration F) (f_refs F) \<and> deep_copying (fc_affinity F) (fv_affinity F)
         (f_refs F) \<and>
     deep_copying (fc_resources F) (fv_resources F) (f_refs F) \<and> deep_copying (fc_quantity F) (fv_quantity F)
         (f_refs F) \<and>
     deep_copying (fc_time F) (fv_time F) (f_refs F)"

section \<open>Structs that hold no reference\<close>

definition AuthSpec_DeepCopyInto :: "auth_spec \<Rightarrow> ('f, auth_spec) mem" where
  "AuthSpec_DeepCopyInto s = assign s"

definition BootstrapSpec_DeepCopyInto :: "bootstrap_spec \<Rightarrow> ('f, bootstrap_spec) mem" where
  "BootstrapSpec_DeepCopyInto s = assign s"

definition ClusterRef_DeepCopyInto :: "cluster_ref \<Rightarrow> ('f, cluster_ref) mem" where
  "ClusterRef_DeepCopyInto s = assign s"

definition HTTPListenerSpec_DeepCopyInto :: "http_listener_spec \<Rightarrow> ('f, http_listener_spec) mem" where
  "HTTPListenerSpec_DeepCopyInto s = assign s"

definition ImageSpec_DeepCopyInto :: "image_spec \<Rightarrow> ('f, image_spec) mem" where
  "ImageSpec_DeepCopyInto s = assign s"

definition NetworkPolicySpec_DeepCopyInto :: "network_policy_spec_cr \<Rightarrow> ('f, network_policy_spec_cr) mem" where
  "NetworkPolicySpec_DeepCopyInto s = assign s"

definition PasswordSecretRef_DeepCopyInto :: "password_secret_ref \<Rightarrow> ('f, password_secret_ref) mem" where
  "PasswordSecretRef_DeepCopyInto s = assign s"

definition PostgresListenerSpec_DeepCopyInto :: "postgres_listener_spec \<Rightarrow> ('f, postgres_listener_spec) mem" where
  "PostgresListenerSpec_DeepCopyInto s = assign s"

definition RetentionPolicySpec_DeepCopyInto :: "retention_policy_spec \<Rightarrow> ('f, retention_policy_spec) mem" where
  "RetentionPolicySpec_DeepCopyInto s = assign s"

definition TLSSpec_DeepCopyInto :: "tls_spec \<Rightarrow> ('f, tls_spec) mem" where
  "TLSSpec_DeepCopyInto s = assign s"

definition ListenersSpec_DeepCopyInto :: "listeners_spec \<Rightarrow> ('f, listeners_spec) mem" where
  "ListenersSpec_DeepCopyInto s = assign (s\<lparr>ls_postgres := ls_postgres s, ls_http := ls_http s\<rparr>)"

definition DatabaseSpec_DeepCopyInto :: "database_spec \<Rightarrow> ('f, database_spec) mem" where
  "DatabaseSpec_DeepCopyInto s = assign (s\<lparr>dbs_cluster := dbs_cluster s\<rparr>)"

section \<open>Structs with references\<close>

abbreviation copy_pointer :: "('f, 'x) cell_type \<Rightarrow> reference \<Rightarrow> ('f, reference) mem" where
  "copy_pointer c \<equiv> copy_ref c assign"

abbreviation copy_slice :: "('f, 'x) cell_type \<Rightarrow> reference \<Rightarrow> ('f, reference) mem" where
  "copy_slice c \<equiv> copy_ref c assign"

abbreviation copy_entries :: "reference \<Rightarrow> ('f, reference) mem" where
  "copy_entries \<equiv> copy_ref map_cell copy_map"

definition ConfigSpec_DeepCopyInto :: "config_mem \<Rightarrow> ('f, config_mem) mem" where
  "ConfigSpec_DeepCopyInto s = do {
     flags \<leftarrow> copy_slice strings_cell (cm_extra_flags s);
     State_Monad.return (s\<lparr>cm_extra_flags := flags\<rparr>)
   }"

definition PersistenceSpec_DeepCopyInto :: "'f foreign \<Rightarrow> persistence_mem \<Rightarrow> ('f,
    persistence_mem) mem" where
  "PersistenceSpec_DeepCopyInto F s = do {
     size \<leftarrow> copy_ref foreign_cell (fc_quantity F) (pm_size s);
     storage_class \<leftarrow> copy_pointer string_cell (pm_storage_class_name s);
     modes \<leftarrow> copy_slice strings_cell (pm_access_modes s);
     State_Monad.return (s\<lparr>pm_size := size, pm_storage_class_name := storage_class, pm_access_modes := modes\<rparr>)
   }"

definition ServiceSpec_DeepCopyInto :: "service_mem \<Rightarrow> ('f, service_mem) mem" where
  "ServiceSpec_DeepCopyInto s = do {
     annotations \<leftarrow> copy_entries (vm_annotations s);
     State_Monad.return (s\<lparr>vm_annotations := annotations\<rparr>)
   }"

definition SereneDBSpec_DeepCopyInto :: "'f foreign \<Rightarrow> 'f serenedb_spec_mem \<Rightarrow> ('f, 'f
    serenedb_spec_mem) mem" where
  "SereneDBSpec_DeepCopyInto F s = do {
     bootstrap \<leftarrow> copy_pointer bootstrap_cell (sm_bootstrap s);
     pull_secrets \<leftarrow> copy_slice local_refs_cell (sm_image_pull_secrets s);
     config \<leftarrow> ConfigSpec_DeepCopyInto (sm_config s);
     persistence \<leftarrow> PersistenceSpec_DeepCopyInto F (sm_persistence s);
     resources \<leftarrow> fc_resources F (sm_resources s);
     grace \<leftarrow> copy_pointer int64_cell (sm_termination_grace_period_seconds s);
     service \<leftarrow> ServiceSpec_DeepCopyInto (sm_service s);
     env \<leftarrow> copy_ref foreigns_cell (copy_each (fc_env_var F)) (sm_env s);
     annotations \<leftarrow> copy_entries (sm_pod_annotations s);
     labels \<leftarrow> copy_entries (sm_pod_labels s);
     selector \<leftarrow> copy_entries (sm_node_selector s);
     tolerations \<leftarrow> copy_ref foreigns_cell (copy_each (fc_toleration F)) (sm_tolerations s);
     affinity \<leftarrow> copy_ref foreign_cell (fc_affinity F) (sm_affinity s);
     State_Monad.return (s\<lparr>sm_bootstrap := bootstrap, sm_image_pull_secrets := pull_secrets, sm_config := config,
       sm_persistence := persistence, sm_resources := resources, sm_termination_grace_period_seconds := grace,
       sm_service := service, sm_env := env, sm_pod_annotations := annotations, sm_pod_labels := labels,
       sm_node_selector := selector, sm_tolerations := tolerations, sm_affinity := affinity\<rparr>)
   }"

definition SereneDBStatus_DeepCopyInto :: "'f foreign \<Rightarrow> serenedb_status_mem \<Rightarrow> ('f,
    serenedb_status_mem) mem" where
  "SereneDBStatus_DeepCopyInto F s = do {
     conditions \<leftarrow> copy_ref foreigns_cell (copy_each (fc_condition F)) (tm_conditions s);
     State_Monad.return (s\<lparr>tm_conditions := conditions\<rparr>)
   }"

definition DependentStatus_DeepCopyInto :: "'f foreign \<Rightarrow> dependent_status_mem \<Rightarrow> ('f,
    dependent_status_mem) mem" where
  "DependentStatus_DeepCopyInto F s = do {
     conditions \<leftarrow> copy_ref foreigns_cell (copy_each (fc_condition F)) (dm_conditions s);
     State_Monad.return (s\<lparr>dm_conditions := conditions\<rparr>)
   }"

text \<open>\<open>DatabaseStatus\<close> is the embedded \<open>DependentStatus\<close> alone.\<close>

definition DatabaseStatus_DeepCopyInto :: "'f foreign \<Rightarrow> dependent_status_mem \<Rightarrow> ('f,
    dependent_status_mem) mem" where
  "DatabaseStatus_DeepCopyInto F s = DependentStatus_DeepCopyInto F s"

definition DatabaseRoleSpec_DeepCopyInto :: "database_role_spec_mem \<Rightarrow> ('f, database_role_spec_mem) mem" where
  "DatabaseRoleSpec_DeepCopyInto s = do {
     inherit \<leftarrow> copy_pointer bool_cell (rm_inherit s);
     limit \<leftarrow> copy_pointer int32_cell (rm_connection_limit s);
     password \<leftarrow> copy_pointer password_secret_ref_cell (rm_password_secret s);
     roles \<leftarrow> copy_slice strings_cell (rm_in_roles s);
     State_Monad.return (s\<lparr>rm_inherit := inherit, rm_connection_limit := limit, rm_password_secret := password,
       rm_in_roles := roles\<rparr>)
   }"

definition DatabaseRoleStatus_DeepCopyInto :: "'f foreign \<Rightarrow> database_role_status_mem \<Rightarrow> ('f,
    database_role_status_mem) mem" where
  "DatabaseRoleStatus_DeepCopyInto F s = do {
     dependent \<leftarrow> DependentStatus_DeepCopyInto F (rk_dependent s);
     State_Monad.return (s\<lparr>rk_dependent := dependent\<rparr>)
   }"

definition ServerSecretSpec_DeepCopyInto :: "server_secret_spec_mem \<Rightarrow> ('f, server_secret_spec_mem) mem" where
  "ServerSecretSpec_DeepCopyInto s = do {
     options \<leftarrow> copy_entries (em_options s);
     values_from \<leftarrow> copy_pointer local_ref_cell (em_values_from s);
     State_Monad.return (s\<lparr>em_options := options, em_values_from := values_from\<rparr>)
   }"

definition ServerSecretStatus_DeepCopyInto :: "'f foreign \<Rightarrow> server_secret_status_mem \<Rightarrow> ('f,
    server_secret_status_mem) mem" where
  "ServerSecretStatus_DeepCopyInto F s = do {
     dependent \<leftarrow> DependentStatus_DeepCopyInto F (et_dependent s);
     State_Monad.return (s\<lparr>et_dependent := dependent\<rparr>)
   }"

definition BackupSpec_DeepCopyInto :: "backup_spec_mem \<Rightarrow> ('f, backup_spec_mem) mem" where
  "BackupSpec_DeepCopyInto s = do {
     class \<leftarrow> copy_pointer string_cell (bm_volume_snapshot_class_name s);
     State_Monad.return (s\<lparr>bm_volume_snapshot_class_name := class\<rparr>)
   }"

definition BackupStatus_DeepCopyInto :: "'f foreign \<Rightarrow> backup_status_mem \<Rightarrow> ('f,
    backup_status_mem) mem" where
  "BackupStatus_DeepCopyInto F s = do {
     started \<leftarrow> copy_ref foreign_cell (fc_time F) (bu_started_at s);
     completed \<leftarrow> copy_ref foreign_cell (fc_time F) (bu_completed_at s);
     State_Monad.return (s\<lparr>bu_started_at := started, bu_completed_at := completed\<rparr>)
   }"

definition ScheduledBackupSpec_DeepCopyInto :: "scheduled_backup_spec_mem \<Rightarrow> ('f,
    scheduled_backup_spec_mem) mem" where
  "ScheduledBackupSpec_DeepCopyInto s = do {
     keep \<leftarrow> copy_pointer int32_cell (hm_keep s);
     class \<leftarrow> copy_pointer string_cell (hm_volume_snapshot_class_name s);
     State_Monad.return (s\<lparr>hm_keep := keep, hm_volume_snapshot_class_name := class\<rparr>)
   }"

definition ScheduledBackupStatus_DeepCopyInto :: "'f foreign \<Rightarrow> scheduled_backup_status_mem \<Rightarrow>
    ('f, scheduled_backup_status_mem) mem" where
  "ScheduledBackupStatus_DeepCopyInto F s = do {
     last_time \<leftarrow> copy_ref foreign_cell (fc_time F) (hu_last_schedule_time s);
     next_time \<leftarrow> copy_ref foreign_cell (fc_time F) (hu_next_schedule_time s);
     conditions \<leftarrow> copy_ref foreigns_cell (copy_each (fc_condition F)) (hu_conditions s);
     State_Monad.return (s\<lparr>hu_last_schedule_time := last_time, hu_next_schedule_time := next_time,
         hu_conditions := conditions\<rparr>)
   }"

section \<open>The kinds and their lists\<close>

definition SereneDB_DeepCopyInto :: "'f foreign \<Rightarrow> 'f serenedb_mem \<Rightarrow> ('f, 'f serenedb_mem) mem" where
  "SereneDB_DeepCopyInto F s = do {
     meta \<leftarrow> fc_meta F (o_meta s);
     spec \<leftarrow> SereneDBSpec_DeepCopyInto F (o_spec s);
     status \<leftarrow> SereneDBStatus_DeepCopyInto F (o_status s);
     State_Monad.return (s\<lparr>o_type := o_type s, o_meta := meta, o_spec := spec, o_status := status\<rparr>)
   }"

definition SereneDBList_DeepCopyInto :: "'f foreign \<Rightarrow> 'f serenedb_list_mem \<Rightarrow> ('f, 'f
    serenedb_list_mem) mem" where
  "SereneDBList_DeepCopyInto F s = do {
     meta \<leftarrow> fc_list_meta F (l_meta s);
     items \<leftarrow> copy_ref serenedbs_cell (copy_each (SereneDB_DeepCopyInto F)) (l_items s);
     State_Monad.return (s\<lparr>l_type := l_type s, l_meta := meta, l_items := items\<rparr>)
   }"

definition Database_DeepCopyInto :: "'f foreign \<Rightarrow> 'f database_mem \<Rightarrow> ('f, 'f database_mem) mem" where
  "Database_DeepCopyInto F s = do {
     meta \<leftarrow> fc_meta F (o_meta s);
     status \<leftarrow> DatabaseStatus_DeepCopyInto F (o_status s);
     State_Monad.return (s\<lparr>o_type := o_type s, o_meta := meta, o_spec := o_spec s, o_status := status\<rparr>)
   }"

definition DatabaseList_DeepCopyInto :: "'f foreign \<Rightarrow> 'f database_list_mem \<Rightarrow> ('f, 'f
    database_list_mem) mem" where
  "DatabaseList_DeepCopyInto F s = do {
     meta \<leftarrow> fc_list_meta F (l_meta s);
     items \<leftarrow> copy_ref databases_cell (copy_each (Database_DeepCopyInto F)) (l_items s);
     State_Monad.return (s\<lparr>l_type := l_type s, l_meta := meta, l_items := items\<rparr>)
   }"

definition DatabaseRole_DeepCopyInto :: "'f foreign \<Rightarrow> 'f database_role_mem \<Rightarrow> ('f, 'f
    database_role_mem) mem" where
  "DatabaseRole_DeepCopyInto F s = do {
     meta \<leftarrow> fc_meta F (o_meta s);
     spec \<leftarrow> DatabaseRoleSpec_DeepCopyInto (o_spec s);
     status \<leftarrow> DatabaseRoleStatus_DeepCopyInto F (o_status s);
     State_Monad.return (s\<lparr>o_type := o_type s, o_meta := meta, o_spec := spec, o_status := status\<rparr>)
   }"

definition DatabaseRoleList_DeepCopyInto :: "'f foreign \<Rightarrow> 'f database_role_list_mem \<Rightarrow> ('f, 'f
    database_role_list_mem) mem" where
  "DatabaseRoleList_DeepCopyInto F s = do {
     meta \<leftarrow> fc_list_meta F (l_meta s);
     items \<leftarrow> copy_ref roles_cell (copy_each (DatabaseRole_DeepCopyInto F)) (l_items s);
     State_Monad.return (s\<lparr>l_type := l_type s, l_meta := meta, l_items := items\<rparr>)
   }"

definition ServerSecret_DeepCopyInto :: "'f foreign \<Rightarrow> 'f server_secret_mem \<Rightarrow> ('f, 'f
    server_secret_mem) mem" where
  "ServerSecret_DeepCopyInto F s = do {
     meta \<leftarrow> fc_meta F (o_meta s);
     spec \<leftarrow> ServerSecretSpec_DeepCopyInto (o_spec s);
     status \<leftarrow> ServerSecretStatus_DeepCopyInto F (o_status s);
     State_Monad.return (s\<lparr>o_type := o_type s, o_meta := meta, o_spec := spec, o_status := status\<rparr>)
   }"

definition ServerSecretList_DeepCopyInto :: "'f foreign \<Rightarrow> 'f server_secret_list_mem \<Rightarrow> ('f, 'f
    server_secret_list_mem) mem" where
  "ServerSecretList_DeepCopyInto F s = do {
     meta \<leftarrow> fc_list_meta F (l_meta s);
     items \<leftarrow> copy_ref server_secrets_cell (copy_each (ServerSecret_DeepCopyInto F)) (l_items s);
     State_Monad.return (s\<lparr>l_type := l_type s, l_meta := meta, l_items := items\<rparr>)
   }"

definition Backup_DeepCopyInto :: "'f foreign \<Rightarrow> 'f backup_mem \<Rightarrow> ('f, 'f backup_mem) mem" where
  "Backup_DeepCopyInto F s = do {
     meta \<leftarrow> fc_meta F (o_meta s);
     spec \<leftarrow> BackupSpec_DeepCopyInto (o_spec s);
     status \<leftarrow> BackupStatus_DeepCopyInto F (o_status s);
     State_Monad.return (s\<lparr>o_type := o_type s, o_meta := meta, o_spec := spec, o_status := status\<rparr>)
   }"

definition BackupList_DeepCopyInto :: "'f foreign \<Rightarrow> 'f backup_list_mem \<Rightarrow> ('f, 'f
    backup_list_mem) mem" where
  "BackupList_DeepCopyInto F s = do {
     meta \<leftarrow> fc_list_meta F (l_meta s);
     items \<leftarrow> copy_ref backups_cell (copy_each (Backup_DeepCopyInto F)) (l_items s);
     State_Monad.return (s\<lparr>l_type := l_type s, l_meta := meta, l_items := items\<rparr>)
   }"

definition ScheduledBackup_DeepCopyInto :: "'f foreign \<Rightarrow> 'f scheduled_backup_mem \<Rightarrow> ('f, 'f
    scheduled_backup_mem) mem" where
  "ScheduledBackup_DeepCopyInto F s = do {
     meta \<leftarrow> fc_meta F (o_meta s);
     spec \<leftarrow> ScheduledBackupSpec_DeepCopyInto (o_spec s);
     status \<leftarrow> ScheduledBackupStatus_DeepCopyInto F (o_status s);
     State_Monad.return (s\<lparr>o_type := o_type s, o_meta := meta, o_spec := spec, o_status := status\<rparr>)
   }"

definition ScheduledBackupList_DeepCopyInto :: "'f foreign \<Rightarrow> 'f scheduled_backup_list_mem \<Rightarrow>
    ('f, 'f scheduled_backup_list_mem) mem" where
  "ScheduledBackupList_DeepCopyInto F s = do {
     meta \<leftarrow> fc_list_meta F (l_meta s);
     items \<leftarrow> copy_ref scheduled_backups_cell (copy_each (ScheduledBackup_DeepCopyInto F)) (l_items s);
     State_Monad.return (s\<lparr>l_type := l_type s, l_meta := meta, l_items := items\<rparr>)
   }"

section \<open>Copies behind pointers and interfaces\<close>

text \<open>\<open>if in == nil { return nil }; out := new(T); in.DeepCopyInto(out); return out\<close>\<close>

definition copy_new :: "('a \<Rightarrow> ('f, 'a) mem) \<Rightarrow> 'a option \<Rightarrow> ('f, 'a option) mem" where
  "copy_new into p = (case p of None \<Rightarrow> State_Monad.return None
     | Some s \<Rightarrow> do { out \<leftarrow> into s; State_Monad.return (Some out) })"

definition AuthSpec_DeepCopy :: "auth_spec option \<Rightarrow> ('f, auth_spec option) mem" where
  "AuthSpec_DeepCopy = copy_new AuthSpec_DeepCopyInto"

definition BootstrapSpec_DeepCopy :: "bootstrap_spec option \<Rightarrow> ('f, bootstrap_spec option) mem" where
  "BootstrapSpec_DeepCopy = copy_new BootstrapSpec_DeepCopyInto"

definition ClusterRef_DeepCopy :: "cluster_ref option \<Rightarrow> ('f, cluster_ref option) mem" where
  "ClusterRef_DeepCopy = copy_new ClusterRef_DeepCopyInto"

definition HTTPListenerSpec_DeepCopy :: "http_listener_spec option \<Rightarrow> ('f, http_listener_spec option) mem" where
  "HTTPListenerSpec_DeepCopy = copy_new HTTPListenerSpec_DeepCopyInto"

definition ImageSpec_DeepCopy :: "image_spec option \<Rightarrow> ('f, image_spec option) mem" where
  "ImageSpec_DeepCopy = copy_new ImageSpec_DeepCopyInto"

definition NetworkPolicySpec_DeepCopy :: "network_policy_spec_cr option \<Rightarrow> ('f, network_policy_spec_cr
    option) mem" where
  "NetworkPolicySpec_DeepCopy = copy_new NetworkPolicySpec_DeepCopyInto"

definition PasswordSecretRef_DeepCopy :: "password_secret_ref option \<Rightarrow> ('f, password_secret_ref option)
    mem" where
  "PasswordSecretRef_DeepCopy = copy_new PasswordSecretRef_DeepCopyInto"

definition PostgresListenerSpec_DeepCopy :: "postgres_listener_spec option \<Rightarrow> ('f, postgres_listener_spec
    option) mem" where
  "PostgresListenerSpec_DeepCopy = copy_new PostgresListenerSpec_DeepCopyInto"

definition RetentionPolicySpec_DeepCopy :: "retention_policy_spec option \<Rightarrow> ('f, retention_policy_spec
    option) mem" where
  "RetentionPolicySpec_DeepCopy = copy_new RetentionPolicySpec_DeepCopyInto"

definition TLSSpec_DeepCopy :: "tls_spec option \<Rightarrow> ('f, tls_spec option) mem" where
  "TLSSpec_DeepCopy = copy_new TLSSpec_DeepCopyInto"

definition ListenersSpec_DeepCopy :: "listeners_spec option \<Rightarrow> ('f, listeners_spec option) mem" where
  "ListenersSpec_DeepCopy = copy_new ListenersSpec_DeepCopyInto"

definition DatabaseSpec_DeepCopy :: "database_spec option \<Rightarrow> ('f, database_spec option) mem" where
  "DatabaseSpec_DeepCopy = copy_new DatabaseSpec_DeepCopyInto"

definition ConfigSpec_DeepCopy :: "config_mem option \<Rightarrow> ('f, config_mem option) mem" where
  "ConfigSpec_DeepCopy = copy_new ConfigSpec_DeepCopyInto"

definition ServiceSpec_DeepCopy :: "service_mem option \<Rightarrow> ('f, service_mem option) mem" where
  "ServiceSpec_DeepCopy = copy_new ServiceSpec_DeepCopyInto"

definition DatabaseRoleSpec_DeepCopy :: "database_role_spec_mem option \<Rightarrow> ('f, database_role_spec_mem
    option) mem" where
  "DatabaseRoleSpec_DeepCopy = copy_new DatabaseRoleSpec_DeepCopyInto"

definition ServerSecretSpec_DeepCopy :: "server_secret_spec_mem option \<Rightarrow> ('f, server_secret_spec_mem
    option) mem" where
  "ServerSecretSpec_DeepCopy = copy_new ServerSecretSpec_DeepCopyInto"

definition BackupSpec_DeepCopy :: "backup_spec_mem option \<Rightarrow> ('f, backup_spec_mem option) mem" where
  "BackupSpec_DeepCopy = copy_new BackupSpec_DeepCopyInto"

definition ScheduledBackupSpec_DeepCopy :: "scheduled_backup_spec_mem option \<Rightarrow> ('f,
    scheduled_backup_spec_mem option) mem" where
  "ScheduledBackupSpec_DeepCopy = copy_new ScheduledBackupSpec_DeepCopyInto"

definition PersistenceSpec_DeepCopy :: "'f foreign \<Rightarrow> persistence_mem option \<Rightarrow> ('f,
    persistence_mem option) mem" where
  "PersistenceSpec_DeepCopy F = copy_new (PersistenceSpec_DeepCopyInto F)"

definition SereneDBSpec_DeepCopy :: "'f foreign \<Rightarrow> 'f serenedb_spec_mem option \<Rightarrow> ('f, 'f
    serenedb_spec_mem option) mem" where
  "SereneDBSpec_DeepCopy F = copy_new (SereneDBSpec_DeepCopyInto F)"

definition SereneDBStatus_DeepCopy :: "'f foreign \<Rightarrow> serenedb_status_mem option \<Rightarrow> ('f,
    serenedb_status_mem option) mem" where
  "SereneDBStatus_DeepCopy F = copy_new (SereneDBStatus_DeepCopyInto F)"

definition DependentStatus_DeepCopy :: "'f foreign \<Rightarrow> dependent_status_mem option \<Rightarrow> ('f,
    dependent_status_mem option) mem" where
  "DependentStatus_DeepCopy F = copy_new (DependentStatus_DeepCopyInto F)"

definition DatabaseStatus_DeepCopy :: "'f foreign \<Rightarrow> dependent_status_mem option \<Rightarrow> ('f,
    dependent_status_mem option) mem" where
  "DatabaseStatus_DeepCopy F = copy_new (DatabaseStatus_DeepCopyInto F)"

definition DatabaseRoleStatus_DeepCopy :: "'f foreign \<Rightarrow> database_role_status_mem option \<Rightarrow> ('f,
    database_role_status_mem option) mem" where
  "DatabaseRoleStatus_DeepCopy F = copy_new (DatabaseRoleStatus_DeepCopyInto F)"

definition ServerSecretStatus_DeepCopy :: "'f foreign \<Rightarrow> server_secret_status_mem option \<Rightarrow> ('f,
    server_secret_status_mem option) mem" where
  "ServerSecretStatus_DeepCopy F = copy_new (ServerSecretStatus_DeepCopyInto F)"

definition BackupStatus_DeepCopy :: "'f foreign \<Rightarrow> backup_status_mem option \<Rightarrow> ('f,
    backup_status_mem option) mem" where
  "BackupStatus_DeepCopy F = copy_new (BackupStatus_DeepCopyInto F)"

definition ScheduledBackupStatus_DeepCopy :: "'f foreign \<Rightarrow> scheduled_backup_status_mem option
    \<Rightarrow> ('f, scheduled_backup_status_mem option) mem" where
  "ScheduledBackupStatus_DeepCopy F = copy_new (ScheduledBackupStatus_DeepCopyInto F)"

definition SereneDB_DeepCopy :: "'f foreign \<Rightarrow> 'f serenedb_mem option \<Rightarrow> ('f, 'f serenedb_mem
    option) mem" where
  "SereneDB_DeepCopy F = copy_new (SereneDB_DeepCopyInto F)"

definition Database_DeepCopy :: "'f foreign \<Rightarrow> 'f database_mem option \<Rightarrow> ('f, 'f database_mem
    option) mem" where
  "Database_DeepCopy F = copy_new (Database_DeepCopyInto F)"

definition DatabaseRole_DeepCopy :: "'f foreign \<Rightarrow> 'f database_role_mem option \<Rightarrow> ('f, 'f
    database_role_mem option) mem" where
  "DatabaseRole_DeepCopy F = copy_new (DatabaseRole_DeepCopyInto F)"

definition ServerSecret_DeepCopy :: "'f foreign \<Rightarrow> 'f server_secret_mem option \<Rightarrow> ('f, 'f
    server_secret_mem option) mem" where
  "ServerSecret_DeepCopy F = copy_new (ServerSecret_DeepCopyInto F)"

definition Backup_DeepCopy :: "'f foreign \<Rightarrow> 'f backup_mem option \<Rightarrow> ('f, 'f backup_mem option)
    mem" where
  "Backup_DeepCopy F = copy_new (Backup_DeepCopyInto F)"

definition ScheduledBackup_DeepCopy :: "'f foreign \<Rightarrow> 'f scheduled_backup_mem option \<Rightarrow> ('f, 'f
    scheduled_backup_mem option) mem" where
  "ScheduledBackup_DeepCopy F = copy_new (ScheduledBackup_DeepCopyInto F)"

definition SereneDBList_DeepCopy :: "'f foreign \<Rightarrow> 'f serenedb_list_mem option \<Rightarrow> ('f, 'f
    serenedb_list_mem option) mem" where
  "SereneDBList_DeepCopy F = copy_new (SereneDBList_DeepCopyInto F)"

definition DatabaseList_DeepCopy :: "'f foreign \<Rightarrow> 'f database_list_mem option \<Rightarrow> ('f, 'f
    database_list_mem option) mem" where
  "DatabaseList_DeepCopy F = copy_new (DatabaseList_DeepCopyInto F)"

definition DatabaseRoleList_DeepCopy :: "'f foreign \<Rightarrow> 'f database_role_list_mem option \<Rightarrow> ('f,
    'f database_role_list_mem option) mem" where
  "DatabaseRoleList_DeepCopy F = copy_new (DatabaseRoleList_DeepCopyInto F)"

definition ServerSecretList_DeepCopy :: "'f foreign \<Rightarrow> 'f server_secret_list_mem option \<Rightarrow> ('f,
    'f server_secret_list_mem option) mem" where
  "ServerSecretList_DeepCopy F = copy_new (ServerSecretList_DeepCopyInto F)"

definition BackupList_DeepCopy :: "'f foreign \<Rightarrow> 'f backup_list_mem option \<Rightarrow> ('f, 'f
    backup_list_mem option) mem" where
  "BackupList_DeepCopy F = copy_new (BackupList_DeepCopyInto F)"

definition ScheduledBackupList_DeepCopy :: "'f foreign \<Rightarrow> 'f scheduled_backup_list_mem option \<Rightarrow>
    ('f, 'f scheduled_backup_list_mem option) mem" where
  "ScheduledBackupList_DeepCopy F = copy_new (ScheduledBackupList_DeepCopyInto F)"

text \<open>The interface \<open>runtime.Object\<close>; a \<open>nil\<close> pointer becomes the \<open>nil\<close>
    interface, not an interface that holds it.\<close>

datatype 'f runtime_object =
    SereneDBRuntime "'f serenedb_mem" | SereneDBListRuntime "'f serenedb_list_mem"
  | DatabaseRuntime "'f database_mem" | DatabaseListRuntime "'f database_list_mem"
  | DatabaseRoleRuntime "'f database_role_mem" | DatabaseRoleListRuntime "'f database_role_list_mem"
  | ServerSecretRuntime "'f server_secret_mem" | ServerSecretListRuntime "'f server_secret_list_mem"
  | BackupRuntime "'f backup_mem" | BackupListRuntime "'f backup_list_mem"
  | ScheduledBackupRuntime "'f scheduled_backup_mem" | ScheduledBackupListRuntime "'f backup_list_mem"

definition copy_object :: "('a \<Rightarrow> 'f runtime_object) \<Rightarrow> ('a option \<Rightarrow> ('f, 'a option)
    mem) \<Rightarrow> 'a option \<Rightarrow>
    ('f, 'f runtime_object option) mem" where
  "copy_object wrap copy p = do { c \<leftarrow> copy p; State_Monad.return (case c of Some x \<Rightarrow> Some (wrap
      x) | None \<Rightarrow> None) }"

definition SereneDB_DeepCopyObject :: "'f foreign \<Rightarrow> 'f serenedb_mem option \<Rightarrow> ('f, 'f
    runtime_object option) mem" where
  "SereneDB_DeepCopyObject F = copy_object SereneDBRuntime (SereneDB_DeepCopy F)"

definition SereneDBList_DeepCopyObject :: "'f foreign \<Rightarrow> 'f serenedb_list_mem option \<Rightarrow> ('f, 'f
    runtime_object option) mem" where
  "SereneDBList_DeepCopyObject F = copy_object SereneDBListRuntime (SereneDBList_DeepCopy F)"

definition Database_DeepCopyObject :: "'f foreign \<Rightarrow> 'f database_mem option \<Rightarrow> ('f, 'f
    runtime_object option) mem" where
  "Database_DeepCopyObject F = copy_object DatabaseRuntime (Database_DeepCopy F)"

definition DatabaseList_DeepCopyObject :: "'f foreign \<Rightarrow> 'f database_list_mem option \<Rightarrow> ('f, 'f
    runtime_object option) mem" where
  "DatabaseList_DeepCopyObject F = copy_object DatabaseListRuntime (DatabaseList_DeepCopy F)"

definition DatabaseRole_DeepCopyObject :: "'f foreign \<Rightarrow> 'f database_role_mem option \<Rightarrow> ('f, 'f
    runtime_object option) mem" where
  "DatabaseRole_DeepCopyObject F = copy_object DatabaseRoleRuntime (DatabaseRole_DeepCopy F)"

definition DatabaseRoleList_DeepCopyObject :: "'f foreign \<Rightarrow> 'f database_role_list_mem option \<Rightarrow>
    ('f, 'f runtime_object option) mem" where
  "DatabaseRoleList_DeepCopyObject F = copy_object DatabaseRoleListRuntime (DatabaseRoleList_DeepCopy F)"

definition ServerSecret_DeepCopyObject :: "'f foreign \<Rightarrow> 'f server_secret_mem option \<Rightarrow> ('f, 'f
    runtime_object option) mem" where
  "ServerSecret_DeepCopyObject F = copy_object ServerSecretRuntime (ServerSecret_DeepCopy F)"

definition ServerSecretList_DeepCopyObject :: "'f foreign \<Rightarrow> 'f server_secret_list_mem option \<Rightarrow>
    ('f, 'f runtime_object option) mem" where
  "ServerSecretList_DeepCopyObject F = copy_object ServerSecretListRuntime (ServerSecretList_DeepCopy F)"

definition Backup_DeepCopyObject :: "'f foreign \<Rightarrow> 'f backup_mem option \<Rightarrow> ('f, 'f
    runtime_object option) mem" where
  "Backup_DeepCopyObject F = copy_object BackupRuntime (Backup_DeepCopy F)"

definition BackupList_DeepCopyObject :: "'f foreign \<Rightarrow> 'f backup_list_mem option \<Rightarrow> ('f, 'f
    runtime_object option) mem" where
  "BackupList_DeepCopyObject F = copy_object BackupListRuntime (BackupList_DeepCopy F)"

definition ScheduledBackup_DeepCopyObject :: "'f foreign \<Rightarrow> 'f scheduled_backup_mem option \<Rightarrow>
    ('f, 'f runtime_object option) mem" where
  "ScheduledBackup_DeepCopyObject F = copy_object ScheduledBackupRuntime (ScheduledBackup_DeepCopy F)"

definition ScheduledBackupList_DeepCopyObject :: "'f foreign \<Rightarrow> 'f scheduled_backup_list_mem option
    \<Rightarrow> ('f, 'f runtime_object option) mem" where
  "ScheduledBackupList_DeepCopyObject F = copy_object ScheduledBackupListRuntime (ScheduledBackupList_DeepCopy F)"

end
