(* ===== verification/DeepCopies.thy ===== *)
theory DeepCopies
  imports DeepCopy
begin

text \<open>
  What the generated deep copies promise: the values the structs in memory stand for, the types
  of ApiTypes, and the contract \<open>deep_copying\<close> for every type that holds references. With it a
  copy taken before a status is written is a snapshot, which is how the other theories read
  \<open>original := obj.DeepCopy()\<close>.
\<close>

section \<open>The value a struct stands for\<close>

text \<open>A \<open>nil\<close> slice or map stands for the empty one.\<close>

definition elements :: "'a list option \<Rightarrow> 'a list" where
  "elements xs = (case xs of None \<Rightarrow> [] | Some xs \<Rightarrow> xs)"

abbreviation plain :: "'f memory \<Rightarrow> 'x \<Rightarrow> 'x option" where
  "plain \<equiv> \<lambda>m. Some"

abbreviation plain_refs :: "'f memory \<Rightarrow> 'x \<Rightarrow> nat set" where
  "plain_refs \<equiv> \<lambda>m x. {}"

abbreviation load_pointer :: "('f, 'x) cell_type \<Rightarrow> 'f memory \<Rightarrow> reference \<Rightarrow> 'x
    option option" where
  "load_pointer c \<equiv> load_ref c plain"

abbreviation load_entries :: "'f memory \<Rightarrow> reference \<Rightarrow> gomap option option" where
  "load_entries \<equiv> load_ref map_cell (\<lambda>m. load_map)"

abbreviation pointer_refs :: "('f, 'x) cell_type \<Rightarrow> 'f memory \<Rightarrow> reference \<Rightarrow> nat set" where
  "pointer_refs c \<equiv> refs_ref c plain_refs"

abbreviation foreign_refs :: "'f foreign \<Rightarrow> 'f memory \<Rightarrow> reference \<Rightarrow> nat set" where
  "foreign_refs F \<equiv> refs_ref foreign_cell (f_refs F)"

abbreviation foreigns_refs :: "'f foreign \<Rightarrow> 'f memory \<Rightarrow> reference \<Rightarrow> nat set" where
  "foreigns_refs F \<equiv> refs_ref foreigns_cell (refs_each (f_refs F))"

definition config_load :: "'f memory \<Rightarrow> config_mem \<Rightarrow> config_spec option" where
  "config_load m s = do {
     flags \<leftarrow> load_pointer strings_cell m (cm_extra_flags s);
     Some \<lparr>cf_log_level = cm_log_level s, cf_max_connections = cm_max_connections s, cf_cpu_threads =
         cm_cpu_threads s,
       cf_io_threads = cm_io_threads s, cf_background_threads = cm_background_threads s, cf_auth_timeout = cm_auth_timeout s,
       cf_idle_session_timeout = cm_idle_session_timeout s, cf_pg_max_message_bytes = cm_pg_max_message_bytes s,
       cf_hba = cm_hba s, cf_extra_flags = elements flags\<rparr>
   }"

definition config_refs :: "'f memory \<Rightarrow> config_mem \<Rightarrow> nat set" where
  "config_refs m s = pointer_refs strings_cell m (cm_extra_flags s)"

definition persistence_load :: "'f foreign \<Rightarrow> 'f memory \<Rightarrow> persistence_mem \<Rightarrow>
    persistence_spec option" where
  "persistence_load F m s = do {
     size \<leftarrow> load_ref foreign_cell (fv_quantity F) m (pm_size s);
     storage_class \<leftarrow> load_pointer string_cell m (pm_storage_class_name s);
     modes \<leftarrow> load_pointer strings_cell m (pm_access_modes s);
     Some \<lparr>pe_size = size, pe_storage_class_name = storage_class, pe_access_modes = elements modes,
       pe_existing_claim = pm_existing_claim s, pe_retention_policy = pm_retention_policy s\<rparr>
   }"

definition persistence_refs :: "'f foreign \<Rightarrow> 'f memory \<Rightarrow> persistence_mem \<Rightarrow> nat set" where
  "persistence_refs F m s = foreign_refs F m (pm_size s) \<union>
     pointer_refs string_cell m (pm_storage_class_name s) \<union>
     pointer_refs strings_cell m (pm_access_modes s)"

definition service_load :: "'f memory \<Rightarrow> service_mem \<Rightarrow> service_spec_cr option" where
  "service_load m s = do {
     annotations \<leftarrow> load_entries m (vm_annotations s);
     Some \<lparr>sc_type = vm_type s, sc_node_port = vm_node_port s, sc_annotations = elements annotations\<rparr>
   }"

definition service_refs :: "'f memory \<Rightarrow> service_mem \<Rightarrow> nat set" where
  "service_refs m s = pointer_refs map_cell m (vm_annotations s)"

definition serenedb_spec_load :: "'f foreign \<Rightarrow> 'f memory \<Rightarrow> 'f serenedb_spec_mem \<Rightarrow>
    serenedb_spec option" where
  "serenedb_spec_load F m s = do {
     bootstrap \<leftarrow> load_pointer bootstrap_cell m (sm_bootstrap s);
     pull_secrets \<leftarrow> load_pointer local_refs_cell m (sm_image_pull_secrets s);
     config \<leftarrow> config_load m (sm_config s);
     persistence \<leftarrow> persistence_load F m (sm_persistence s);
     resources \<leftarrow> fv_resources F m (sm_resources s);
     grace \<leftarrow> load_pointer int64_cell m (sm_termination_grace_period_seconds s);
     service \<leftarrow> service_load m (sm_service s);
     env \<leftarrow> load_ref foreigns_cell (load_each (fv_env_var F)) m (sm_env s);
     annotations \<leftarrow> load_entries m (sm_pod_annotations s);
     labels \<leftarrow> load_entries m (sm_pod_labels s);
     selector \<leftarrow> load_entries m (sm_node_selector s);
     tolerations \<leftarrow> load_ref foreigns_cell (load_each (fv_toleration F)) m (sm_tolerations s);
     affinity \<leftarrow> load_ref foreign_cell (fv_affinity F) m (sm_affinity s);
     Some \<lparr>sp_bootstrap = bootstrap, sp_image = sm_image s, sp_image_pull_secrets = elements pull_secrets,
         sp_auth = sm_auth s,
       sp_listeners = sm_listeners s, sp_tls = sm_tls s, sp_config = config, sp_persistence = persistence,
       sp_resources = resources, sp_termination_grace_period_seconds = grace, sp_service = service,
       sp_network_policy = sm_network_policy s, sp_env = elements env, sp_pod_annotations = elements annotations,
       sp_pod_labels = elements labels, sp_node_selector = elements selector, sp_tolerations = elements tolerations,
       sp_affinity = affinity, sp_priority_class_name = sm_priority_class_name s\<rparr>
   }"

definition serenedb_spec_refs :: "'f foreign \<Rightarrow> 'f memory \<Rightarrow> 'f serenedb_spec_mem \<Rightarrow>
    nat set" where
  "serenedb_spec_refs F m s = pointer_refs bootstrap_cell m (sm_bootstrap s) \<union>
     pointer_refs local_refs_cell m (sm_image_pull_secrets s) \<union>
     config_refs m (sm_config s) \<union>
     persistence_refs F m (sm_persistence s) \<union>
     f_refs F m (sm_resources s) \<union>
     pointer_refs int64_cell m (sm_termination_grace_period_seconds s) \<union>
     service_refs m (sm_service s) \<union>
     foreigns_refs F m (sm_env s) \<union>
     pointer_refs map_cell m (sm_pod_annotations s) \<union>
     pointer_refs map_cell m (sm_pod_labels s) \<union>
     pointer_refs map_cell m (sm_node_selector s) \<union>
     foreigns_refs F m (sm_tolerations s) \<union>
     foreign_refs F m (sm_affinity s)"

definition serenedb_status_load :: "'f foreign \<Rightarrow> 'f memory \<Rightarrow> serenedb_status_mem \<Rightarrow>
    serenedb_status option" where
  "serenedb_status_load F m s = do {
     conditions \<leftarrow> load_ref foreigns_cell (load_each (fv_condition F)) m (tm_conditions s);
     Some \<lparr>st_observed_generation = tm_observed_generation s, st_conditions = elements conditions,
       st_ready_replicas = tm_ready_replicas s, st_version = tm_version s, st_secret_name = tm_secret_name s,
       st_host = tm_host s, st_port = tm_port s\<rparr>
   }"

definition serenedb_status_refs :: "'f foreign \<Rightarrow> 'f memory \<Rightarrow> serenedb_status_mem \<Rightarrow>
    nat set" where
  "serenedb_status_refs F m s = foreigns_refs F m (tm_conditions s)"

definition dependent_status_load :: "'f foreign \<Rightarrow> 'f memory \<Rightarrow> dependent_status_mem
    \<Rightarrow> dependent_status option" where
  "dependent_status_load F m s = do {
     conditions \<leftarrow> load_ref foreigns_cell (load_each (fv_condition F)) m (dm_conditions s);
     Some \<lparr>ds_observed_generation = dm_observed_generation s, ds_conditions = elements conditions\<rparr>
   }"

definition dependent_status_refs :: "'f foreign \<Rightarrow> 'f memory \<Rightarrow> dependent_status_mem
    \<Rightarrow> nat set" where
  "dependent_status_refs F m s = foreigns_refs F m (dm_conditions s)"

definition database_role_spec_load :: "'f memory \<Rightarrow> database_role_spec_mem \<Rightarrow> database_role_spec
    option" where
  "database_role_spec_load m s = do {
     inherit \<leftarrow> load_pointer bool_cell m (rm_inherit s);
     limit \<leftarrow> load_pointer int32_cell m (rm_connection_limit s);
     password \<leftarrow> load_pointer password_secret_ref_cell m (rm_password_secret s);
     roles \<leftarrow> load_pointer strings_cell m (rm_in_roles s);
     Some \<lparr>ro_cluster = rm_cluster s, ro_name = rm_name s, ro_login = rm_login s, ro_superuser = rm_superuser s,
       ro_create_db = rm_create_db s, ro_create_role = rm_create_role s, ro_inherit = inherit, ro_connection_limit = limit,
       ro_valid_until = rm_valid_until s, ro_password_secret = password, ro_in_roles = elements roles,
       ro_reclaim_policy = rm_reclaim_policy s\<rparr>
   }"

definition database_role_spec_refs :: "'f memory \<Rightarrow> database_role_spec_mem \<Rightarrow> nat set" where
  "database_role_spec_refs m s = pointer_refs bool_cell m (rm_inherit s) \<union>
     pointer_refs int32_cell m (rm_connection_limit s) \<union>
     pointer_refs password_secret_ref_cell m (rm_password_secret s) \<union>
     pointer_refs strings_cell m (rm_in_roles s)"

definition database_role_status_load :: "'f foreign \<Rightarrow> 'f memory \<Rightarrow> database_role_status_mem
    \<Rightarrow> database_role_status option" where
  "database_role_status_load F m s = do {
     dependent \<leftarrow> dependent_status_load F m (rk_dependent s);
     Some \<lparr>ds_observed_generation = ds_observed_generation dependent, ds_conditions = ds_conditions dependent,
       rs_password_secret_version = rk_password_secret_version s\<rparr>
   }"

definition database_role_status_refs :: "'f foreign \<Rightarrow> 'f memory \<Rightarrow> database_role_status_mem
    \<Rightarrow> nat set" where
  "database_role_status_refs F m s = dependent_status_refs F m (rk_dependent s)"

definition server_secret_spec_load :: "'f memory \<Rightarrow> server_secret_spec_mem \<Rightarrow> server_secret_spec
    option" where
  "server_secret_spec_load m s = do {
     options \<leftarrow> load_entries m (em_options s);
     values_from \<leftarrow> load_pointer local_ref_cell m (em_values_from s);
     Some \<lparr>ss_cluster = em_cluster s, ss_name = em_name s, ss_type = em_type s, ss_scope = em_scope s,
       ss_options = elements options, ss_values_from = values_from\<rparr>
   }"

definition server_secret_spec_refs :: "'f memory \<Rightarrow> server_secret_spec_mem \<Rightarrow> nat set" where
  "server_secret_spec_refs m s = pointer_refs map_cell m (em_options s) \<union>
     pointer_refs local_ref_cell m (em_values_from s)"

definition server_secret_status_load :: "'f foreign \<Rightarrow> 'f memory \<Rightarrow> server_secret_status_mem
    \<Rightarrow> server_secret_status option" where
  "server_secret_status_load F m s = do {
     dependent \<leftarrow> dependent_status_load F m (et_dependent s);
     Some \<lparr>ds_observed_generation = ds_observed_generation dependent, ds_conditions = ds_conditions dependent,
       sv_values_secret_version = et_values_secret_version s\<rparr>
   }"

definition server_secret_status_refs :: "'f foreign \<Rightarrow> 'f memory \<Rightarrow> server_secret_status_mem
    \<Rightarrow> nat set" where
  "server_secret_status_refs F m s = dependent_status_refs F m (et_dependent s)"

definition backup_spec_load :: "'f memory \<Rightarrow> backup_spec_mem \<Rightarrow> backup_spec option" where
  "backup_spec_load m s = do {
     class \<leftarrow> load_pointer string_cell m (bm_volume_snapshot_class_name s);
     Some \<lparr>ba_cluster = bm_cluster s, ba_method = bm_method s, ba_volume_snapshot_class_name = class\<rparr>
   }"

definition backup_spec_refs :: "'f memory \<Rightarrow> backup_spec_mem \<Rightarrow> nat set" where
  "backup_spec_refs m s = pointer_refs string_cell m (bm_volume_snapshot_class_name s)"

definition backup_status_load :: "'f foreign \<Rightarrow> 'f memory \<Rightarrow> backup_status_mem \<Rightarrow>
    backup_status option" where
  "backup_status_load F m s = do {
     started \<leftarrow> load_ref foreign_cell (fv_time F) m (bu_started_at s);
     completed \<leftarrow> load_ref foreign_cell (fv_time F) m (bu_completed_at s);
     Some \<lparr>bt_phase = bu_phase s, bt_started_at = started, bt_completed_at = completed,
       bt_snapshot_name = bu_snapshot_name s, bt_error = bu_error s\<rparr>
   }"

definition backup_status_refs :: "'f foreign \<Rightarrow> 'f memory \<Rightarrow> backup_status_mem \<Rightarrow> nat
    set" where
  "backup_status_refs F m s = foreign_refs F m (bu_started_at s) \<union>
     foreign_refs F m (bu_completed_at s)"

definition scheduled_backup_spec_load :: "'f memory \<Rightarrow> scheduled_backup_spec_mem \<Rightarrow>
    scheduled_backup_spec option" where
  "scheduled_backup_spec_load m s = do {
     keep \<leftarrow> load_pointer int32_cell m (hm_keep s);
     class \<leftarrow> load_pointer string_cell m (hm_volume_snapshot_class_name s);
     Some \<lparr>sb_cluster = hm_cluster s, sb_schedule = hm_schedule s, sb_suspend = hm_suspend s, sb_immediate =
         hm_immediate s,
       sb_keep = keep, sb_method = hm_method s, sb_volume_snapshot_class_name = class\<rparr>
   }"

definition scheduled_backup_spec_refs :: "'f memory \<Rightarrow> scheduled_backup_spec_mem \<Rightarrow> nat set" where
  "scheduled_backup_spec_refs m s = pointer_refs int32_cell m (hm_keep s) \<union>
     pointer_refs string_cell m (hm_volume_snapshot_class_name s)"

definition scheduled_backup_status_load :: "'f foreign \<Rightarrow> 'f memory \<Rightarrow>
    scheduled_backup_status_mem \<Rightarrow> scheduled_backup_status option" where
  "scheduled_backup_status_load F m s = do {
     last_time \<leftarrow> load_ref foreign_cell (fv_time F) m (hu_last_schedule_time s);
     next_time \<leftarrow> load_ref foreign_cell (fv_time F) m (hu_next_schedule_time s);
     conditions \<leftarrow> load_ref foreigns_cell (load_each (fv_condition F)) m (hu_conditions s);
     Some \<lparr>su_last_schedule_time = last_time, su_next_schedule_time = next_time, su_last_backup = hu_last_backup s,
       su_conditions = elements conditions\<rparr>
   }"

definition scheduled_backup_status_refs :: "'f foreign \<Rightarrow> 'f memory \<Rightarrow>
    scheduled_backup_status_mem \<Rightarrow> nat set" where
  "scheduled_backup_status_refs F m s = foreign_refs F m (hu_last_schedule_time s) \<union>
     foreign_refs F m (hu_next_schedule_time s) \<union>
     foreigns_refs F m (hu_conditions s)"

definition serenedb_load :: "'f foreign \<Rightarrow> 'f memory \<Rightarrow> 'f serenedb_mem \<Rightarrow> (type_meta
    \<times> serenedb) option" where
  "serenedb_load F m s = do {
     meta \<leftarrow> fv_meta F m (o_meta s);
     spec \<leftarrow> serenedb_spec_load F m (o_spec s);
     status \<leftarrow> serenedb_status_load F m (o_status s);
     Some (o_type s, \<lparr>db_meta = meta, db_spec = spec, db_status = status\<rparr>)
   }"

definition serenedb_refs :: "'f foreign \<Rightarrow> 'f memory \<Rightarrow> 'f serenedb_mem \<Rightarrow> nat set" where
  "serenedb_refs F m s = f_refs F m (o_meta s) \<union>
     serenedb_spec_refs F m (o_spec s) \<union>
     serenedb_status_refs F m (o_status s)"

definition serenedb_list_load :: "'f foreign \<Rightarrow> 'f memory \<Rightarrow> 'f serenedb_list_mem \<Rightarrow>
    (type_meta \<times> opaque \<times> (type_meta \<times> serenedb) list) option" where
  "serenedb_list_load F m s = do {
     meta \<leftarrow> fv_list_meta F m (l_meta s);
     items \<leftarrow> load_ref serenedbs_cell (load_each (serenedb_load F)) m (l_items s);
     Some (l_type s, meta, elements items)
   }"

definition serenedb_list_refs :: "'f foreign \<Rightarrow> 'f memory \<Rightarrow> 'f serenedb_list_mem \<Rightarrow>
    nat set" where
  "serenedb_list_refs F m s = f_refs F m (l_meta s) \<union>
     refs_ref serenedbs_cell (refs_each (serenedb_refs F)) m (l_items s)"

definition database_load :: "'f foreign \<Rightarrow> 'f memory \<Rightarrow> 'f database_mem \<Rightarrow> (type_meta
    \<times> database) option" where
  "database_load F m s = do {
     meta \<leftarrow> fv_meta F m (o_meta s);
     status \<leftarrow> dependent_status_load F m (o_status s);
     Some (o_type s, \<lparr>da_meta = meta, da_spec = o_spec s, da_status = status\<rparr>)
   }"

definition database_refs :: "'f foreign \<Rightarrow> 'f memory \<Rightarrow> 'f database_mem \<Rightarrow> nat set" where
  "database_refs F m s = f_refs F m (o_meta s) \<union>
     dependent_status_refs F m (o_status s)"

definition database_list_load :: "'f foreign \<Rightarrow> 'f memory \<Rightarrow> 'f database_list_mem \<Rightarrow>
    (type_meta \<times> opaque \<times> (type_meta \<times> database) list) option" where
  "database_list_load F m s = do {
     meta \<leftarrow> fv_list_meta F m (l_meta s);
     items \<leftarrow> load_ref databases_cell (load_each (database_load F)) m (l_items s);
     Some (l_type s, meta, elements items)
   }"

definition database_list_refs :: "'f foreign \<Rightarrow> 'f memory \<Rightarrow> 'f database_list_mem \<Rightarrow>
    nat set" where
  "database_list_refs F m s = f_refs F m (l_meta s) \<union>
     refs_ref databases_cell (refs_each (database_refs F)) m (l_items s)"

definition database_role_load :: "'f foreign \<Rightarrow> 'f memory \<Rightarrow> 'f database_role_mem \<Rightarrow>
    (type_meta \<times> database_role) option" where
  "database_role_load F m s = do {
     meta \<leftarrow> fv_meta F m (o_meta s);
     spec \<leftarrow> database_role_spec_load m (o_spec s);
     status \<leftarrow> database_role_status_load F m (o_status s);
     Some (o_type s, \<lparr>dr_meta = meta, dr_spec = spec, dr_status = status\<rparr>)
   }"

definition database_role_refs :: "'f foreign \<Rightarrow> 'f memory \<Rightarrow> 'f database_role_mem \<Rightarrow>
    nat set" where
  "database_role_refs F m s = f_refs F m (o_meta s) \<union>
     database_role_spec_refs m (o_spec s) \<union>
     database_role_status_refs F m (o_status s)"

definition database_role_list_load :: "'f foreign \<Rightarrow> 'f memory \<Rightarrow> 'f database_role_list_mem
    \<Rightarrow> (type_meta \<times> opaque \<times> (type_meta \<times> database_role) list) option" where
  "database_role_list_load F m s = do {
     meta \<leftarrow> fv_list_meta F m (l_meta s);
     items \<leftarrow> load_ref roles_cell (load_each (database_role_load F)) m (l_items s);
     Some (l_type s, meta, elements items)
   }"

definition database_role_list_refs :: "'f foreign \<Rightarrow> 'f memory \<Rightarrow> 'f database_role_list_mem
    \<Rightarrow> nat set" where
  "database_role_list_refs F m s = f_refs F m (l_meta s) \<union>
     refs_ref roles_cell (refs_each (database_role_refs F)) m (l_items s)"

definition server_secret_load :: "'f foreign \<Rightarrow> 'f memory \<Rightarrow> 'f server_secret_mem \<Rightarrow>
    (type_meta \<times> server_secret) option" where
  "server_secret_load F m s = do {
     meta \<leftarrow> fv_meta F m (o_meta s);
     spec \<leftarrow> server_secret_spec_load m (o_spec s);
     status \<leftarrow> server_secret_status_load F m (o_status s);
     Some (o_type s, \<lparr>se_meta = meta, se_spec = spec, se_status = status\<rparr>)
   }"

definition server_secret_refs :: "'f foreign \<Rightarrow> 'f memory \<Rightarrow> 'f server_secret_mem \<Rightarrow>
    nat set" where
  "server_secret_refs F m s = f_refs F m (o_meta s) \<union>
     server_secret_spec_refs m (o_spec s) \<union>
     server_secret_status_refs F m (o_status s)"

definition server_secret_list_load :: "'f foreign \<Rightarrow> 'f memory \<Rightarrow> 'f server_secret_list_mem
    \<Rightarrow> (type_meta \<times> opaque \<times> (type_meta \<times> server_secret) list) option" where
  "server_secret_list_load F m s = do {
     meta \<leftarrow> fv_list_meta F m (l_meta s);
     items \<leftarrow> load_ref server_secrets_cell (load_each (server_secret_load F)) m (l_items s);
     Some (l_type s, meta, elements items)
   }"

definition server_secret_list_refs :: "'f foreign \<Rightarrow> 'f memory \<Rightarrow> 'f server_secret_list_mem
    \<Rightarrow> nat set" where
  "server_secret_list_refs F m s = f_refs F m (l_meta s) \<union>
     refs_ref server_secrets_cell (refs_each (server_secret_refs F)) m (l_items s)"

definition backup_load :: "'f foreign \<Rightarrow> 'f memory \<Rightarrow> 'f backup_mem \<Rightarrow> (type_meta
    \<times> backup) option" where
  "backup_load F m s = do {
     meta \<leftarrow> fv_meta F m (o_meta s);
     spec \<leftarrow> backup_spec_load m (o_spec s);
     status \<leftarrow> backup_status_load F m (o_status s);
     Some (o_type s, \<lparr>bk_meta = meta, bk_spec = spec, bk_status = status\<rparr>)
   }"

definition backup_refs :: "'f foreign \<Rightarrow> 'f memory \<Rightarrow> 'f backup_mem \<Rightarrow> nat set" where
  "backup_refs F m s = f_refs F m (o_meta s) \<union>
     backup_spec_refs m (o_spec s) \<union>
     backup_status_refs F m (o_status s)"

definition backup_list_load :: "'f foreign \<Rightarrow> 'f memory \<Rightarrow> 'f backup_list_mem \<Rightarrow>
    (type_meta \<times> opaque \<times> (type_meta \<times> backup) list) option" where
  "backup_list_load F m s = do {
     meta \<leftarrow> fv_list_meta F m (l_meta s);
     items \<leftarrow> load_ref backups_cell (load_each (backup_load F)) m (l_items s);
     Some (l_type s, meta, elements items)
   }"

definition backup_list_refs :: "'f foreign \<Rightarrow> 'f memory \<Rightarrow> 'f backup_list_mem \<Rightarrow> nat
    set" where
  "backup_list_refs F m s = f_refs F m (l_meta s) \<union>
     refs_ref backups_cell (refs_each (backup_refs F)) m (l_items s)"

definition scheduled_backup_load :: "'f foreign \<Rightarrow> 'f memory \<Rightarrow> 'f scheduled_backup_mem
    \<Rightarrow> (type_meta \<times> scheduled_backup) option" where
  "scheduled_backup_load F m s = do {
     meta \<leftarrow> fv_meta F m (o_meta s);
     spec \<leftarrow> scheduled_backup_spec_load m (o_spec s);
     status \<leftarrow> scheduled_backup_status_load F m (o_status s);
     Some (o_type s, \<lparr>sd_meta = meta, sd_spec = spec, sd_status = status\<rparr>)
   }"

definition scheduled_backup_refs :: "'f foreign \<Rightarrow> 'f memory \<Rightarrow> 'f scheduled_backup_mem
    \<Rightarrow> nat set" where
  "scheduled_backup_refs F m s = f_refs F m (o_meta s) \<union>
     scheduled_backup_spec_refs m (o_spec s) \<union>
     scheduled_backup_status_refs F m (o_status s)"

definition scheduled_backup_list_load :: "'f foreign \<Rightarrow> 'f memory \<Rightarrow> 'f
    scheduled_backup_list_mem \<Rightarrow> (type_meta \<times> opaque \<times> (type_meta \<times> scheduled_backup)
    list) option" where
  "scheduled_backup_list_load F m s = do {
     meta \<leftarrow> fv_list_meta F m (l_meta s);
     items \<leftarrow> load_ref scheduled_backups_cell (load_each (scheduled_backup_load F)) m (l_items s);
     Some (l_type s, meta, elements items)
   }"

definition scheduled_backup_list_refs :: "'f foreign \<Rightarrow> 'f memory \<Rightarrow> 'f
    scheduled_backup_list_mem \<Rightarrow> nat set" where
  "scheduled_backup_list_refs F m s = f_refs F m (l_meta s) \<union>
     refs_ref scheduled_backups_cell (refs_each (scheduled_backup_refs F)) m (l_items s)"

section \<open>The contract\<close>

lemma map_option_as_bind: "map_option f x = Option.bind x (\<lambda>y. Some (f y))"
  by (cases x) simp_all

lemma bind_bind: "Option.bind (Option.bind x f) g = Option.bind x (\<lambda>y. Option.bind (f y) g)"
  by (cases x) simp_all

lemma foreign_copies:
  assumes "foreign_law F"
  shows "deep_copying (fc_meta F) (fv_meta F) (f_refs F)" "deep_copying (fc_list_meta F) (fv_list_meta F) (f_refs F)"
    "deep_copying (fc_condition F) (fv_condition F) (f_refs F)" "deep_copying (fc_env_var F) (fv_env_var F) (f_refs F)"
    "deep_copying (fc_toleration F) (fv_toleration F) (f_refs F)" "deep_copying (fc_affinity F) (fv_affinity F) (f_refs F)"
    "deep_copying (fc_resources F) (fv_resources F) (f_refs F)" "deep_copying (fc_quantity F) (fv_quantity F) (f_refs F)"
    "deep_copying (fc_time F) (fv_time F) (f_refs F)"
  using assms by (simp_all add: foreign_law_def)

lemmas struct_simps = copy_pair_def load_pair_def refs_pair_def map_option_as_bind bind_bind Un_assoc

text \<open>What is behind a pointer, or in the slice behind one, is copied with it.\<close>

lemmas copied_at = cell_laws [THEN deep_copying_ref, OF deep_copying_assign]
lemmas copied_map = deep_copying_ref [OF cell_laws(10) deep_copying_map]
lemmas copied_foreign = deep_copying_ref [OF cell_laws(11)]
lemmas copied_foreigns = deep_copying_ref [OF cell_laws(12) deep_copying_each]

lemma ConfigSpec_copies:
  "deep_copying ConfigSpec_DeepCopyInto config_load config_refs"
  by (rule deep_copying_struct [where get = "\<lambda>s. cm_extra_flags s" and
        put = "\<lambda>s. \<lambda>flags. s\<lparr>cm_extra_flags := flags\<rparr>" and
        build = "\<lambda>s. \<lambda>flags. \<lparr>cf_log_level = cm_log_level s, cf_max_connections =
            cm_max_connections s, cf_cpu_threads = cm_cpu_threads s,
       cf_io_threads = cm_io_threads s, cf_background_threads = cm_background_threads s, cf_auth_timeout = cm_auth_timeout s,
       cf_idle_session_timeout = cm_idle_session_timeout s, cf_pg_max_message_bytes = cm_pg_max_message_bytes s,
       cf_hba = cm_hba s, cf_extra_flags = elements flags\<rparr>",
      OF copied_at(8)])
    (auto simp: ConfigSpec_DeepCopyInto_def config_load_def config_refs_def struct_simps)

lemma PersistenceSpec_copies:
  assumes F: "foreign_law F"
  shows "deep_copying (PersistenceSpec_DeepCopyInto F) (persistence_load F) (persistence_refs F)"
  by (rule deep_copying_struct [where get = "\<lambda>s. (pm_size s, pm_storage_class_name s, pm_access_modes s)" and
        put = "\<lambda>s. \<lambda>(size, storage_class, modes). s\<lparr>pm_size := size, pm_storage_class_name :=
            storage_class, pm_access_modes := modes\<rparr>" and
        build = "\<lambda>s. \<lambda>(size, storage_class, modes). \<lparr>pe_size = size, pe_storage_class_name =
            storage_class, pe_access_modes = elements modes,
       pe_existing_claim = pm_existing_claim s, pe_retention_policy = pm_retention_policy s\<rparr>",
      OF deep_copying_pair [OF copied_foreign [OF foreign_copies(8) [OF F]] deep_copying_pair [OF copied_at(1)
          copied_at(8)]]])
    (auto simp: PersistenceSpec_DeepCopyInto_def persistence_load_def persistence_refs_def struct_simps)

lemma ServiceSpec_copies:
  "deep_copying ServiceSpec_DeepCopyInto service_load service_refs"
  by (rule deep_copying_struct [where get = "\<lambda>s. vm_annotations s" and
        put = "\<lambda>s. \<lambda>annotations. s\<lparr>vm_annotations := annotations\<rparr>" and
        build = "\<lambda>s. \<lambda>annotations. \<lparr>sc_type = vm_type s, sc_node_port = vm_node_port s,
            sc_annotations = elements annotations\<rparr>",
      OF copied_map])
    (auto simp: ServiceSpec_DeepCopyInto_def service_load_def service_refs_def struct_simps)

lemma SereneDBSpec_copies:
  assumes F: "foreign_law F"
  shows "deep_copying (SereneDBSpec_DeepCopyInto F) (serenedb_spec_load F) (serenedb_spec_refs F)"
  by (rule deep_copying_struct [where get = "\<lambda>s. (sm_bootstrap s, sm_image_pull_secrets s, sm_config s,
      sm_persistence s, sm_resources s, sm_termination_grace_period_seconds s, sm_service s, sm_env s, sm_pod_annotations
      s, sm_pod_labels s, sm_node_selector s, sm_tolerations s, sm_affinity s)" and
        put = "\<lambda>s. \<lambda>(bootstrap, pull_secrets, config, persistence, resources, grace, service, env,
            annotations, labels, selector, tolerations, affinity). s\<lparr>sm_bootstrap := bootstrap,
            sm_image_pull_secrets := pull_secrets, sm_config := config, sm_persistence := persistence, sm_resources :=
            resources, sm_termination_grace_period_seconds := grace, sm_service := service, sm_env := env,
            sm_pod_annotations := annotations, sm_pod_labels := labels, sm_node_selector := selector, sm_tolerations :=
            tolerations, sm_affinity := affinity\<rparr>" and
        build = "\<lambda>s. \<lambda>(bootstrap, pull_secrets, config, persistence, resources, grace, service, env,
            annotations, labels, selector, tolerations, affinity). \<lparr>sp_bootstrap = bootstrap, sp_image = sm_image
            s, sp_image_pull_secrets = elements pull_secrets, sp_auth = sm_auth s,
       sp_listeners = sm_listeners s, sp_tls = sm_tls s, sp_config = config, sp_persistence = persistence,
       sp_resources = resources, sp_termination_grace_period_seconds = grace, sp_service = service,
       sp_network_policy = sm_network_policy s, sp_env = elements env, sp_pod_annotations = elements annotations,
       sp_pod_labels = elements labels, sp_node_selector = elements selector, sp_tolerations = elements tolerations,
       sp_affinity = affinity, sp_priority_class_name = sm_priority_class_name s\<rparr>",
      OF deep_copying_pair [OF copied_at(6) deep_copying_pair [OF copied_at(9) deep_copying_pair [OF
          ConfigSpec_copies deep_copying_pair [OF PersistenceSpec_copies [OF F] deep_copying_pair [OF foreign_copies(7)
          [OF F] deep_copying_pair [OF copied_at(4) deep_copying_pair [OF ServiceSpec_copies deep_copying_pair [OF
          copied_foreigns [OF foreign_copies(4) [OF F]] deep_copying_pair [OF copied_map deep_copying_pair [OF
          copied_map deep_copying_pair [OF copied_map deep_copying_pair [OF copied_foreigns [OF foreign_copies(5) [OF
          F]] copied_foreign [OF foreign_copies(6) [OF F]]]]]]]]]]]]]]])
    (auto simp: SereneDBSpec_DeepCopyInto_def serenedb_spec_load_def serenedb_spec_refs_def struct_simps)

lemma SereneDBStatus_copies:
  assumes F: "foreign_law F"
  shows "deep_copying (SereneDBStatus_DeepCopyInto F) (serenedb_status_load F) (serenedb_status_refs F)"
  by (rule deep_copying_struct [where get = "\<lambda>s. tm_conditions s" and
        put = "\<lambda>s. \<lambda>conditions. s\<lparr>tm_conditions := conditions\<rparr>" and
        build = "\<lambda>s. \<lambda>conditions. \<lparr>st_observed_generation = tm_observed_generation s,
            st_conditions = elements conditions,
       st_ready_replicas = tm_ready_replicas s, st_version = tm_version s, st_secret_name = tm_secret_name s,
       st_host = tm_host s, st_port = tm_port s\<rparr>",
      OF copied_foreigns [OF foreign_copies(3) [OF F]]])
    (auto simp: SereneDBStatus_DeepCopyInto_def serenedb_status_load_def serenedb_status_refs_def struct_simps)

lemma DependentStatus_copies:
  assumes F: "foreign_law F"
  shows "deep_copying (DependentStatus_DeepCopyInto F) (dependent_status_load F) (dependent_status_refs F)"
  by (rule deep_copying_struct [where get = "\<lambda>s. dm_conditions s" and
        put = "\<lambda>s. \<lambda>conditions. s\<lparr>dm_conditions := conditions\<rparr>" and
        build = "\<lambda>s. \<lambda>conditions. \<lparr>ds_observed_generation = dm_observed_generation s,
            ds_conditions = elements conditions\<rparr>",
      OF copied_foreigns [OF foreign_copies(3) [OF F]]])
    (auto simp: DependentStatus_DeepCopyInto_def dependent_status_load_def dependent_status_refs_def struct_simps)

lemma DatabaseStatus_copies:
  assumes F: "foreign_law F"
  shows "deep_copying (DatabaseStatus_DeepCopyInto F) (dependent_status_load F) (dependent_status_refs F)"
  using DependentStatus_copies [OF assms] by (simp add: DatabaseStatus_DeepCopyInto_def [abs_def] fun_eq_iff)

lemma DatabaseRoleSpec_copies:
  "deep_copying DatabaseRoleSpec_DeepCopyInto database_role_spec_load database_role_spec_refs"
  by (rule deep_copying_struct [where get = "\<lambda>s. (rm_inherit s, rm_connection_limit s, rm_password_secret s,
      rm_in_roles s)" and
        put = "\<lambda>s. \<lambda>(inherit, limit, password, roles). s\<lparr>rm_inherit := inherit,
            rm_connection_limit := limit, rm_password_secret := password, rm_in_roles := roles\<rparr>" and
        build = "\<lambda>s. \<lambda>(inherit, limit, password, roles). \<lparr>ro_cluster = rm_cluster s, ro_name =
            rm_name s, ro_login = rm_login s, ro_superuser = rm_superuser s,
       ro_create_db = rm_create_db s, ro_create_role = rm_create_role s, ro_inherit = inherit, ro_connection_limit = limit,
       ro_valid_until = rm_valid_until s, ro_password_secret = password, ro_in_roles = elements roles,
       ro_reclaim_policy = rm_reclaim_policy s\<rparr>",
      OF deep_copying_pair [OF copied_at(2) deep_copying_pair [OF copied_at(3) deep_copying_pair [OF copied_at(5)
          copied_at(8)]]]])
    (auto simp: DatabaseRoleSpec_DeepCopyInto_def database_role_spec_load_def database_role_spec_refs_def struct_simps)

lemma DatabaseRoleStatus_copies:
  assumes F: "foreign_law F"
  shows "deep_copying (DatabaseRoleStatus_DeepCopyInto F) (database_role_status_load F) (database_role_status_refs F)"
  by (rule deep_copying_struct [where get = "\<lambda>s. rk_dependent s" and
        put = "\<lambda>s. \<lambda>dependent. s\<lparr>rk_dependent := dependent\<rparr>" and
        build = "\<lambda>s. \<lambda>dependent. \<lparr>ds_observed_generation = ds_observed_generation dependent,
            ds_conditions = ds_conditions dependent,
       rs_password_secret_version = rk_password_secret_version s\<rparr>",
      OF DependentStatus_copies [OF F]])
    (auto simp: DatabaseRoleStatus_DeepCopyInto_def database_role_status_load_def database_role_status_refs_def struct_simps)

lemma ServerSecretSpec_copies:
  "deep_copying ServerSecretSpec_DeepCopyInto server_secret_spec_load server_secret_spec_refs"
  by (rule deep_copying_struct [where get = "\<lambda>s. (em_options s, em_values_from s)" and
        put = "\<lambda>s. \<lambda>(options, values_from). s\<lparr>em_options := options, em_values_from :=
            values_from\<rparr>" and
        build = "\<lambda>s. \<lambda>(options, values_from). \<lparr>ss_cluster = em_cluster s, ss_name = em_name s,
            ss_type = em_type s, ss_scope = em_scope s,
       ss_options = elements options, ss_values_from = values_from\<rparr>",
      OF deep_copying_pair [OF copied_map copied_at(7)]])
    (auto simp: ServerSecretSpec_DeepCopyInto_def server_secret_spec_load_def server_secret_spec_refs_def struct_simps)

lemma ServerSecretStatus_copies:
  assumes F: "foreign_law F"
  shows "deep_copying (ServerSecretStatus_DeepCopyInto F) (server_secret_status_load F) (server_secret_status_refs F)"
  by (rule deep_copying_struct [where get = "\<lambda>s. et_dependent s" and
        put = "\<lambda>s. \<lambda>dependent. s\<lparr>et_dependent := dependent\<rparr>" and
        build = "\<lambda>s. \<lambda>dependent. \<lparr>ds_observed_generation = ds_observed_generation dependent,
            ds_conditions = ds_conditions dependent,
       sv_values_secret_version = et_values_secret_version s\<rparr>",
      OF DependentStatus_copies [OF F]])
    (auto simp: ServerSecretStatus_DeepCopyInto_def server_secret_status_load_def server_secret_status_refs_def struct_simps)

lemma BackupSpec_copies:
  "deep_copying BackupSpec_DeepCopyInto backup_spec_load backup_spec_refs"
  by (rule deep_copying_struct [where get = "\<lambda>s. bm_volume_snapshot_class_name s" and
        put = "\<lambda>s. \<lambda>class. s\<lparr>bm_volume_snapshot_class_name := class\<rparr>" and
        build = "\<lambda>s. \<lambda>class. \<lparr>ba_cluster = bm_cluster s, ba_method = bm_method s,
            ba_volume_snapshot_class_name = class\<rparr>",
      OF copied_at(1)])
    (auto simp: BackupSpec_DeepCopyInto_def backup_spec_load_def backup_spec_refs_def struct_simps)

lemma BackupStatus_copies:
  assumes F: "foreign_law F"
  shows "deep_copying (BackupStatus_DeepCopyInto F) (backup_status_load F) (backup_status_refs F)"
  by (rule deep_copying_struct [where get = "\<lambda>s. (bu_started_at s, bu_completed_at s)" and
        put = "\<lambda>s. \<lambda>(started, completed). s\<lparr>bu_started_at := started, bu_completed_at :=
            completed\<rparr>" and
        build = "\<lambda>s. \<lambda>(started, completed). \<lparr>bt_phase = bu_phase s, bt_started_at = started,
            bt_completed_at = completed,
       bt_snapshot_name = bu_snapshot_name s, bt_error = bu_error s\<rparr>",
      OF deep_copying_pair [OF copied_foreign [OF foreign_copies(9) [OF F]] copied_foreign [OF foreign_copies(9) [OF
          F]]]])
    (auto simp: BackupStatus_DeepCopyInto_def backup_status_load_def backup_status_refs_def struct_simps)

lemma ScheduledBackupSpec_copies:
  "deep_copying ScheduledBackupSpec_DeepCopyInto scheduled_backup_spec_load scheduled_backup_spec_refs"
  by (rule deep_copying_struct [where get = "\<lambda>s. (hm_keep s, hm_volume_snapshot_class_name s)" and
        put = "\<lambda>s. \<lambda>(keep, class). s\<lparr>hm_keep := keep, hm_volume_snapshot_class_name :=
            class\<rparr>" and
        build = "\<lambda>s. \<lambda>(keep, class). \<lparr>sb_cluster = hm_cluster s, sb_schedule = hm_schedule s,
            sb_suspend = hm_suspend s, sb_immediate = hm_immediate s,
       sb_keep = keep, sb_method = hm_method s, sb_volume_snapshot_class_name = class\<rparr>",
      OF deep_copying_pair [OF copied_at(3) copied_at(1)]])
    (auto simp: ScheduledBackupSpec_DeepCopyInto_def scheduled_backup_spec_load_def scheduled_backup_spec_refs_def
        struct_simps)

lemma ScheduledBackupStatus_copies:
  assumes F: "foreign_law F"
  shows "deep_copying (ScheduledBackupStatus_DeepCopyInto F) (scheduled_backup_status_load F)
      (scheduled_backup_status_refs F)"
  by (rule deep_copying_struct [where get = "\<lambda>s. (hu_last_schedule_time s, hu_next_schedule_time s,
      hu_conditions s)" and
        put = "\<lambda>s. \<lambda>(last_time, next_time, conditions). s\<lparr>hu_last_schedule_time := last_time,
            hu_next_schedule_time := next_time, hu_conditions := conditions\<rparr>" and
        build = "\<lambda>s. \<lambda>(last_time, next_time, conditions). \<lparr>su_last_schedule_time = last_time,
            su_next_schedule_time = next_time, su_last_backup = hu_last_backup s,
       su_conditions = elements conditions\<rparr>",
      OF deep_copying_pair [OF copied_foreign [OF foreign_copies(9) [OF F]] deep_copying_pair [OF copied_foreign [OF
          foreign_copies(9) [OF F]] copied_foreigns [OF foreign_copies(3) [OF F]]]]])
    (auto simp: ScheduledBackupStatus_DeepCopyInto_def scheduled_backup_status_load_def
        scheduled_backup_status_refs_def struct_simps)

lemma SereneDB_copies:
  assumes F: "foreign_law F"
  shows "deep_copying (SereneDB_DeepCopyInto F) (serenedb_load F) (serenedb_refs F)"
  by (rule deep_copying_struct [where get = "\<lambda>s. (o_meta s, o_spec s, o_status s)" and
        put = "\<lambda>s. \<lambda>(meta, spec, status). s\<lparr>o_meta := meta, o_spec := spec, o_status :=
            status\<rparr>" and
        build = "\<lambda>s. \<lambda>(meta, spec, status). (o_type s, \<lparr>db_meta = meta, db_spec = spec,
            db_status = status\<rparr>)",
      OF deep_copying_pair [OF foreign_copies(1) [OF F] deep_copying_pair [OF SereneDBSpec_copies [OF F]
          SereneDBStatus_copies [OF F]]]])
    (auto simp: SereneDB_DeepCopyInto_def serenedb_load_def serenedb_refs_def struct_simps)

lemma SereneDBList_copies:
  assumes F: "foreign_law F"
  shows "deep_copying (SereneDBList_DeepCopyInto F) (serenedb_list_load F) (serenedb_list_refs F)"
  by (rule deep_copying_struct [where get = "\<lambda>s. (l_meta s, l_items s)" and
        put = "\<lambda>s. \<lambda>(meta, items). s\<lparr>l_meta := meta, l_items := items\<rparr>" and
        build = "\<lambda>s. \<lambda>(meta, items). (l_type s, meta, elements items)",
      OF deep_copying_pair [OF foreign_copies(2) [OF F] deep_copying_ref [OF cell_laws(13) deep_copying_each [OF
          SereneDB_copies [OF F]]]]])
    (auto simp: SereneDBList_DeepCopyInto_def serenedb_list_load_def serenedb_list_refs_def struct_simps)

lemma Database_copies:
  assumes F: "foreign_law F"
  shows "deep_copying (Database_DeepCopyInto F) (database_load F) (database_refs F)"
  by (rule deep_copying_struct [where get = "\<lambda>s. (o_meta s, o_status s)" and
        put = "\<lambda>s. \<lambda>(meta, status). s\<lparr>o_meta := meta, o_status := status\<rparr>" and
        build = "\<lambda>s. \<lambda>(meta, status). (o_type s, \<lparr>da_meta = meta, da_spec = o_spec s, da_status
            = status\<rparr>)",
      OF deep_copying_pair [OF foreign_copies(1) [OF F] DatabaseStatus_copies [OF F]]])
    (auto simp: Database_DeepCopyInto_def database_load_def database_refs_def struct_simps)

lemma DatabaseList_copies:
  assumes F: "foreign_law F"
  shows "deep_copying (DatabaseList_DeepCopyInto F) (database_list_load F) (database_list_refs F)"
  by (rule deep_copying_struct [where get = "\<lambda>s. (l_meta s, l_items s)" and
        put = "\<lambda>s. \<lambda>(meta, items). s\<lparr>l_meta := meta, l_items := items\<rparr>" and
        build = "\<lambda>s. \<lambda>(meta, items). (l_type s, meta, elements items)",
      OF deep_copying_pair [OF foreign_copies(2) [OF F] deep_copying_ref [OF cell_laws(14) deep_copying_each [OF
          Database_copies [OF F]]]]])
    (auto simp: DatabaseList_DeepCopyInto_def database_list_load_def database_list_refs_def struct_simps)

lemma DatabaseRole_copies:
  assumes F: "foreign_law F"
  shows "deep_copying (DatabaseRole_DeepCopyInto F) (database_role_load F) (database_role_refs F)"
  by (rule deep_copying_struct [where get = "\<lambda>s. (o_meta s, o_spec s, o_status s)" and
        put = "\<lambda>s. \<lambda>(meta, spec, status). s\<lparr>o_meta := meta, o_spec := spec, o_status :=
            status\<rparr>" and
        build = "\<lambda>s. \<lambda>(meta, spec, status). (o_type s, \<lparr>dr_meta = meta, dr_spec = spec,
            dr_status = status\<rparr>)",
      OF deep_copying_pair [OF foreign_copies(1) [OF F] deep_copying_pair [OF DatabaseRoleSpec_copies
          DatabaseRoleStatus_copies [OF F]]]])
    (auto simp: DatabaseRole_DeepCopyInto_def database_role_load_def database_role_refs_def struct_simps)

lemma DatabaseRoleList_copies:
  assumes F: "foreign_law F"
  shows "deep_copying (DatabaseRoleList_DeepCopyInto F) (database_role_list_load F) (database_role_list_refs F)"
  by (rule deep_copying_struct [where get = "\<lambda>s. (l_meta s, l_items s)" and
        put = "\<lambda>s. \<lambda>(meta, items). s\<lparr>l_meta := meta, l_items := items\<rparr>" and
        build = "\<lambda>s. \<lambda>(meta, items). (l_type s, meta, elements items)",
      OF deep_copying_pair [OF foreign_copies(2) [OF F] deep_copying_ref [OF cell_laws(15) deep_copying_each [OF
          DatabaseRole_copies [OF F]]]]])
    (auto simp: DatabaseRoleList_DeepCopyInto_def database_role_list_load_def database_role_list_refs_def struct_simps)

lemma ServerSecret_copies:
  assumes F: "foreign_law F"
  shows "deep_copying (ServerSecret_DeepCopyInto F) (server_secret_load F) (server_secret_refs F)"
  by (rule deep_copying_struct [where get = "\<lambda>s. (o_meta s, o_spec s, o_status s)" and
        put = "\<lambda>s. \<lambda>(meta, spec, status). s\<lparr>o_meta := meta, o_spec := spec, o_status :=
            status\<rparr>" and
        build = "\<lambda>s. \<lambda>(meta, spec, status). (o_type s, \<lparr>se_meta = meta, se_spec = spec,
            se_status = status\<rparr>)",
      OF deep_copying_pair [OF foreign_copies(1) [OF F] deep_copying_pair [OF ServerSecretSpec_copies
          ServerSecretStatus_copies [OF F]]]])
    (auto simp: ServerSecret_DeepCopyInto_def server_secret_load_def server_secret_refs_def struct_simps)

lemma ServerSecretList_copies:
  assumes F: "foreign_law F"
  shows "deep_copying (ServerSecretList_DeepCopyInto F) (server_secret_list_load F) (server_secret_list_refs F)"
  by (rule deep_copying_struct [where get = "\<lambda>s. (l_meta s, l_items s)" and
        put = "\<lambda>s. \<lambda>(meta, items). s\<lparr>l_meta := meta, l_items := items\<rparr>" and
        build = "\<lambda>s. \<lambda>(meta, items). (l_type s, meta, elements items)",
      OF deep_copying_pair [OF foreign_copies(2) [OF F] deep_copying_ref [OF cell_laws(16) deep_copying_each [OF
          ServerSecret_copies [OF F]]]]])
    (auto simp: ServerSecretList_DeepCopyInto_def server_secret_list_load_def server_secret_list_refs_def struct_simps)

lemma Backup_copies:
  assumes F: "foreign_law F"
  shows "deep_copying (Backup_DeepCopyInto F) (backup_load F) (backup_refs F)"
  by (rule deep_copying_struct [where get = "\<lambda>s. (o_meta s, o_spec s, o_status s)" and
        put = "\<lambda>s. \<lambda>(meta, spec, status). s\<lparr>o_meta := meta, o_spec := spec, o_status :=
            status\<rparr>" and
        build = "\<lambda>s. \<lambda>(meta, spec, status). (o_type s, \<lparr>bk_meta = meta, bk_spec = spec,
            bk_status = status\<rparr>)",
      OF deep_copying_pair [OF foreign_copies(1) [OF F] deep_copying_pair [OF BackupSpec_copies BackupStatus_copies
          [OF F]]]])
    (auto simp: Backup_DeepCopyInto_def backup_load_def backup_refs_def struct_simps)

lemma BackupList_copies:
  assumes F: "foreign_law F"
  shows "deep_copying (BackupList_DeepCopyInto F) (backup_list_load F) (backup_list_refs F)"
  by (rule deep_copying_struct [where get = "\<lambda>s. (l_meta s, l_items s)" and
        put = "\<lambda>s. \<lambda>(meta, items). s\<lparr>l_meta := meta, l_items := items\<rparr>" and
        build = "\<lambda>s. \<lambda>(meta, items). (l_type s, meta, elements items)",
      OF deep_copying_pair [OF foreign_copies(2) [OF F] deep_copying_ref [OF cell_laws(17) deep_copying_each [OF
          Backup_copies [OF F]]]]])
    (auto simp: BackupList_DeepCopyInto_def backup_list_load_def backup_list_refs_def struct_simps)

lemma ScheduledBackup_copies:
  assumes F: "foreign_law F"
  shows "deep_copying (ScheduledBackup_DeepCopyInto F) (scheduled_backup_load F) (scheduled_backup_refs F)"
  by (rule deep_copying_struct [where get = "\<lambda>s. (o_meta s, o_spec s, o_status s)" and
        put = "\<lambda>s. \<lambda>(meta, spec, status). s\<lparr>o_meta := meta, o_spec := spec, o_status :=
            status\<rparr>" and
        build = "\<lambda>s. \<lambda>(meta, spec, status). (o_type s, \<lparr>sd_meta = meta, sd_spec = spec,
            sd_status = status\<rparr>)",
      OF deep_copying_pair [OF foreign_copies(1) [OF F] deep_copying_pair [OF ScheduledBackupSpec_copies
          ScheduledBackupStatus_copies [OF F]]]])
    (auto simp: ScheduledBackup_DeepCopyInto_def scheduled_backup_load_def scheduled_backup_refs_def struct_simps)

lemma ScheduledBackupList_copies:
  assumes F: "foreign_law F"
  shows "deep_copying (ScheduledBackupList_DeepCopyInto F) (scheduled_backup_list_load F) (scheduled_backup_list_refs F)"
  by (rule deep_copying_struct [where get = "\<lambda>s. (l_meta s, l_items s)" and
        put = "\<lambda>s. \<lambda>(meta, items). s\<lparr>l_meta := meta, l_items := items\<rparr>" and
        build = "\<lambda>s. \<lambda>(meta, items). (l_type s, meta, elements items)",
      OF deep_copying_pair [OF foreign_copies(2) [OF F] deep_copying_ref [OF cell_laws(18) deep_copying_each [OF
          ScheduledBackup_copies [OF F]]]]])
    (auto simp: ScheduledBackupList_DeepCopyInto_def scheduled_backup_list_load_def scheduled_backup_list_refs_def
        struct_simps)

end
