(* ===== verification/Snapshots.thy ===== *)
theory Snapshots
  imports DeepCopies
begin

text \<open>
  What a \<open>DeepCopy\<close> behind a pointer gives its caller: the same value, in memory that shares no
  block with the object copied. The reconcilers take one before they work on an object, to compute
  a status patch against. The last section makes up structs of other packages that hold a pointer,
  on which the parameters of the model can be evaluated.
\<close>

section \<open>Copies of the types without foreign structs\<close>

interpretation config_copy: deep_copying ConfigSpec_DeepCopyInto config_load config_refs
  by (rule ConfigSpec_copies)

interpretation service_copy: deep_copying ServiceSpec_DeepCopyInto service_load service_refs
  by (rule ServiceSpec_copies)

interpretation role_spec_copy: deep_copying DatabaseRoleSpec_DeepCopyInto database_role_spec_load database_role_spec_refs
  by (rule DatabaseRoleSpec_copies)

interpretation server_secret_spec_copy: deep_copying ServerSecretSpec_DeepCopyInto server_secret_spec_load
    server_secret_spec_refs
  by (rule ServerSecretSpec_copies)

interpretation backup_spec_copy: deep_copying BackupSpec_DeepCopyInto backup_spec_load backup_spec_refs
  by (rule BackupSpec_copies)

interpretation schedule_spec_copy: deep_copying ScheduledBackupSpec_DeepCopyInto scheduled_backup_spec_load
    scheduled_backup_spec_refs
  by (rule ScheduledBackupSpec_copies)

section \<open>The copy behind a pointer\<close>

text \<open>
  \<open>nil\<close> is copied to \<open>nil\<close>. Otherwise memory only grows, the copy and the object stand for
      the value
  the object stood for, and there is no block both reach.
\<close>

definition copies_deeply :: "('a \<Rightarrow> 'b) \<Rightarrow> ('a option \<Rightarrow> ('f, 'b option) mem)
    \<Rightarrow> ('f memory \<Rightarrow> 'a \<Rightarrow> 'v option) \<Rightarrow>
    ('f memory \<Rightarrow> 'a \<Rightarrow> nat set) \<Rightarrow> bool" where
  "copies_deeply wrap copy load refs \<longleftrightarrow> (\<forall>m. run_state (copy None) m = (None, m)) \<and>
     (\<forall>m p v. load m p = Some v \<longrightarrow> (\<exists>q new. run_state (copy (Some p)) m = (Some (wrap
         q), m @ new) \<and>
        load (m @ new) q = Some v \<and> load (m @ new) p = Some v \<and> refs (m @ new) p \<inter> refs (m @ new) q = {}))"

lemma copies_deeply_DeepCopy:
  assumes "deep_copying into load refs"
  shows "copies_deeply (\<lambda>x. x) (copy_new into) load refs"
  unfolding copies_deeply_def
proof (intro conjI allI impI)
  fix m :: "'b memory" and p v
  assume load: "load m p = Some v"
  obtain q m' where run: "run_state (into p) m = (q, m')" by fastforce
  from deep_copying.copies [OF assms load run] obtain new
    where new: "m' = m @ new" "load m' q = Some v" "refs m' q \<subseteq> {length m..}" by blast
  have old: "load m' p = Some v" "refs m' p \<subseteq> {..<length m}"
    using deep_copying.grows [OF assms load, of new] deep_copying.bounded [OF assms load] by (simp_all add: new(1))
  have "refs m' p \<inter> refs m' q = {}" using new(3) old(2) by fastforce
  with new old run show "\<exists>q new. run_state (copy_new into (Some p)) m = (Some q, m @ new) \<and>
      load (m @ new) q = Some v \<and> load (m @ new) p = Some v \<and> refs (m @ new) p \<inter> refs (m @ new) q = {}"
    by (auto simp: copy_new_def)
qed (simp add: copy_new_def)

lemma copies_deeply_DeepCopyObject:
  assumes "copies_deeply (\<lambda>x. x) copy load refs"
  shows "copies_deeply wrap (copy_object wrap copy) load refs"
  unfolding copies_deeply_def
proof (intro conjI allI impI)
  fix m :: "'b memory" and p v
  assume load: "load m p = Some v"
  from assms have "\<exists>q new. run_state (copy (Some p)) m = (Some q, m @ new) \<and> load (m @ new) q = Some v \<and>
      load (m @ new) p = Some v \<and> refs (m @ new) p \<inter> refs (m @ new) q = {}"
    using load unfolding copies_deeply_def by blast
  then show "\<exists>q new. run_state (copy_object wrap copy (Some p)) m = (Some (wrap q), m @ new) \<and>
      load (m @ new) q = Some v \<and> load (m @ new) p = Some v \<and> refs (m @ new) p \<inter> refs (m @ new) q = {}"
    by (auto simp: copy_object_def)
qed (use assms in \<open>simp add: copies_deeply_def copy_object_def\<close>)

section \<open>The kinds\<close>

lemmas kind_copies =
  SereneDB_copies SereneDBList_copies Database_copies DatabaseList_copies DatabaseRole_copies DatabaseRoleList_copies
  ServerSecret_copies ServerSecretList_copies Backup_copies BackupList_copies ScheduledBackup_copies
      ScheduledBackupList_copies

lemmas DeepCopy_defs =
  SereneDB_DeepCopy_def SereneDBList_DeepCopy_def Database_DeepCopy_def DatabaseList_DeepCopy_def
      DatabaseRole_DeepCopy_def DatabaseRoleList_DeepCopy_def
  ServerSecret_DeepCopy_def ServerSecretList_DeepCopy_def Backup_DeepCopy_def BackupList_DeepCopy_def
      ScheduledBackup_DeepCopy_def ScheduledBackupList_DeepCopy_def
  SereneDB_DeepCopyObject_def SereneDBList_DeepCopyObject_def Database_DeepCopyObject_def
      DatabaseList_DeepCopyObject_def DatabaseRole_DeepCopyObject_def DatabaseRoleList_DeepCopyObject_def
  ServerSecret_DeepCopyObject_def ServerSecretList_DeepCopyObject_def Backup_DeepCopyObject_def
      BackupList_DeepCopyObject_def ScheduledBackup_DeepCopyObject_def ScheduledBackupList_DeepCopyObject_def

text \<open>C12. DeepCopy and DeepCopyObject of every kind and of its list, as the code generator wrote
  them, are deep copies: \<open>nil\<close> answers \<open>nil\<close>; for any other object memory only grows, the
      copy stands
  for the very value of ApiTypes the object stands for, the object still does, and no block of memory
  is reached from both. DeepCopyObject puts the copy behind the right kind of runtime.Object. What is
  assumed is that the deep copies of the structs of other packages are deep copies.\<close>

theorem deep_copies_refine:
  assumes "foreign_law F"
  shows "copies_deeply (\<lambda>x. x) (SereneDB_DeepCopy F) (serenedb_load F) (serenedb_refs F) \<and>
     copies_deeply SereneDBRuntime (SereneDB_DeepCopyObject F) (serenedb_load F) (serenedb_refs F) \<and>
     copies_deeply (\<lambda>x. x) (SereneDBList_DeepCopy F) (serenedb_list_load F) (serenedb_list_refs F) \<and>
     copies_deeply SereneDBListRuntime (SereneDBList_DeepCopyObject F) (serenedb_list_load F) (serenedb_list_refs F) \<and>
     copies_deeply (\<lambda>x. x) (Database_DeepCopy F) (database_load F) (database_refs F) \<and>
     copies_deeply DatabaseRuntime (Database_DeepCopyObject F) (database_load F) (database_refs F) \<and>
     copies_deeply (\<lambda>x. x) (DatabaseList_DeepCopy F) (database_list_load F) (database_list_refs F) \<and>
     copies_deeply DatabaseListRuntime (DatabaseList_DeepCopyObject F) (database_list_load F) (database_list_refs F) \<and>
     copies_deeply (\<lambda>x. x) (DatabaseRole_DeepCopy F) (database_role_load F) (database_role_refs F) \<and>
     copies_deeply DatabaseRoleRuntime (DatabaseRole_DeepCopyObject F) (database_role_load F) (database_role_refs F) \<and>
     copies_deeply (\<lambda>x. x) (DatabaseRoleList_DeepCopy F) (database_role_list_load F) (database_role_list_refs
         F) \<and>
     copies_deeply DatabaseRoleListRuntime (DatabaseRoleList_DeepCopyObject F) (database_role_list_load F)
         (database_role_list_refs F) \<and>
     copies_deeply (\<lambda>x. x) (ServerSecret_DeepCopy F) (server_secret_load F) (server_secret_refs F) \<and>
     copies_deeply ServerSecretRuntime (ServerSecret_DeepCopyObject F) (server_secret_load F) (server_secret_refs F) \<and>
     copies_deeply (\<lambda>x. x) (ServerSecretList_DeepCopy F) (server_secret_list_load F) (server_secret_list_refs
         F) \<and>
     copies_deeply ServerSecretListRuntime (ServerSecretList_DeepCopyObject F) (server_secret_list_load F)
         (server_secret_list_refs F) \<and>
     copies_deeply (\<lambda>x. x) (Backup_DeepCopy F) (backup_load F) (backup_refs F) \<and>
     copies_deeply BackupRuntime (Backup_DeepCopyObject F) (backup_load F) (backup_refs F) \<and>
     copies_deeply (\<lambda>x. x) (BackupList_DeepCopy F) (backup_list_load F) (backup_list_refs F) \<and>
     copies_deeply BackupListRuntime (BackupList_DeepCopyObject F) (backup_list_load F) (backup_list_refs F) \<and>
     copies_deeply (\<lambda>x. x) (ScheduledBackup_DeepCopy F) (scheduled_backup_load F) (scheduled_backup_refs F) \<and>
     copies_deeply ScheduledBackupRuntime (ScheduledBackup_DeepCopyObject F) (scheduled_backup_load F)
         (scheduled_backup_refs F) \<and>
     copies_deeply (\<lambda>x. x) (ScheduledBackupList_DeepCopy F) (scheduled_backup_list_load F)
         (scheduled_backup_list_refs F) \<and>
     copies_deeply ScheduledBackupListRuntime (ScheduledBackupList_DeepCopyObject F) (scheduled_backup_list_load F)
         (scheduled_backup_list_refs F)"
  unfolding DeepCopy_defs by (intro conjI copies_deeply_DeepCopyObject copies_deeply_DeepCopy kind_copies assms)

section \<open>Structs with a pointer\<close>

text \<open>
  A struct of another package is here either flat or one pointer to a flat one, as
  \<open>metav1.Time\<close> and \<open>resource.Quantity\<close> are inside.
\<close>

datatype flat_struct = MetaStruct object_meta | ConditionStruct condition | EnvVarStruct env_var
  | OpaqueStruct opaque | QuantityStruct quantity | TimeStruct time

datatype boxed_struct = Flat flat_struct | Boxed nat

definition unbox :: "boxed_struct memory \<Rightarrow> boxed_struct \<Rightarrow> flat_struct option" where
  "unbox m x = (case x of Flat v \<Rightarrow> Some v
     | Boxed a \<Rightarrow> Option.bind (content foreign_cell m a) (\<lambda>y. case y of Flat v \<Rightarrow> Some v
         | Boxed _ \<Rightarrow> None))"

definition box_refs :: "boxed_struct memory \<Rightarrow> boxed_struct \<Rightarrow> nat set" where
  "box_refs m x = (case x of Flat _ \<Rightarrow> {} | Boxed a \<Rightarrow> {a})"

definition copy_box :: "boxed_struct \<Rightarrow> (boxed_struct, boxed_struct) mem" where
  "copy_box x = (case x of Flat _ \<Rightarrow> State_Monad.return x
     | Boxed a \<Rightarrow> do { b \<leftarrow> read a; a' \<leftarrow> alloc b; State_Monad.return (Boxed a') })"

lemma copy_box_copies: "deep_copying copy_box (\<lambda>m x. Option.bind (unbox m x) sel) box_refs"
  by unfold_locales
    (auto simp: copy_box_def unbox_def box_refs_def content_def block_at_def read_def alloc_def nth_append
      split: boxed_struct.splits bind_splits if_splits)

definition boxed_foreign :: "boxed_struct foreign" where
  "boxed_foreign = (let opaque_of = \<lambda>m x. Option.bind (unbox m x) (\<lambda>v. case v of OpaqueStruct y
      \<Rightarrow> Some y | _ \<Rightarrow> None) in
     \<lparr>fc_meta = copy_box, fc_list_meta = copy_box, fc_condition = copy_box, fc_env_var = copy_box,
         fc_toleration = copy_box,
      fc_affinity = copy_box, fc_resources = copy_box, fc_quantity = copy_box, fc_time = copy_box,
      fv_meta = (\<lambda>m x. Option.bind (unbox m x) (\<lambda>v. case v of MetaStruct y \<Rightarrow> Some y | _
          \<Rightarrow> None)),
      fv_list_meta = opaque_of,
      fv_condition = (\<lambda>m x. Option.bind (unbox m x) (\<lambda>v. case v of ConditionStruct y \<Rightarrow>
          Some y | _ \<Rightarrow> None)),
      fv_env_var = (\<lambda>m x. Option.bind (unbox m x) (\<lambda>v. case v of EnvVarStruct y \<Rightarrow> Some y |
          _ \<Rightarrow> None)),
      fv_toleration = opaque_of, fv_affinity = opaque_of, fv_resources = opaque_of,
      fv_quantity = (\<lambda>m x. Option.bind (unbox m x) (\<lambda>v. case v of QuantityStruct y \<Rightarrow> Some
          y | _ \<Rightarrow> None)),
      fv_time = (\<lambda>m x. Option.bind (unbox m x) (\<lambda>v. case v of TimeStruct y \<Rightarrow> Some y | _
          \<Rightarrow> None)),
      f_refs = box_refs\<rparr>)"

lemma boxed_foreign_law: "foreign_law boxed_foreign"
  by (simp add: foreign_law_def boxed_foreign_def Let_def copy_box_copies)

text \<open>A Database whose one condition lies behind its status.\<close>

definition condition_of :: "string \<Rightarrow> condition" where
  "condition_of status = \<lparr>c_type = ''Ready'', c_status = status, c_reason = ''Applied'', c_message = [],
      c_observed_generation = 1\<rparr>"

definition boxed_memory :: "boxed_struct memory" where
  "boxed_memory = [ForeignCell (Flat (ConditionStruct (condition_of ConditionFalse))), ForeignsCell [Boxed 0]]"

definition boxed_meta :: object_meta where
  "boxed_meta = empty_meta\<lparr>om_name := ''app'', om_generation := 1\<rparr>"

definition boxed_database :: "boxed_struct database_mem" where
  "boxed_database = \<lparr>o_type = \<lparr>ty_kind = ''Database'', ty_api_version =
      ''database.serenedb.com/v1alpha1''\<rparr>,
     o_meta = Flat (MetaStruct boxed_meta),
     o_spec = \<lparr>dbs_cluster = \<lparr>cr_name = ''db''\<rparr>, dbs_name = ''app'', dbs_reclaim_policy =
         ''Retain''\<rparr>,
     o_status = \<lparr>dm_observed_generation = 0, dm_conditions = Some 1\<rparr>\<rparr>"

definition boxed_value :: "string \<Rightarrow> int64 \<Rightarrow> type_meta \<times> database" where
  "boxed_value status seen = (o_type boxed_database, \<lparr>da_meta = boxed_meta, da_spec = o_spec boxed_database,
     da_status = \<lparr>ds_observed_generation = seen, ds_conditions = [condition_of status]\<rparr>\<rparr>)"

lemma boxed_database_load: "database_load boxed_foreign boxed_memory boxed_database = Some (boxed_value ConditionFalse 0)"
  by code_simp

theorem deep_copies_refine_witness:
  "\<exists>q new. run_state (Database_DeepCopy boxed_foreign (Some boxed_database)) boxed_memory = (Some q,
      boxed_memory @ new) \<and>
     database_load boxed_foreign (boxed_memory @ new) q = Some (boxed_value ConditionFalse 0) \<and>
     database_refs boxed_foreign (boxed_memory @ new) boxed_database \<inter>
       database_refs boxed_foreign (boxed_memory @ new) q = {}"
proof -
  have "copies_deeply (\<lambda>x. x) (Database_DeepCopy boxed_foreign) (database_load boxed_foreign) (database_refs
      boxed_foreign)"
    using deep_copies_refine [OF boxed_foreign_law] by (elim conjE)
  then show ?thesis using boxed_database_load unfolding copies_deeply_def by blast
qed

end
