(* ===== verification/Scheme.thy ===== *)
theory Scheme
  imports Startup
begin

text \<open>
  Which Go types the client and the manager can name: the group and version of
  api/v1alpha1/groupversion_info.go, the \<open>init\<close> functions of the six api files, and the \<open>init\<close> of
  cmd/main.go, which fills the scheme before \<open>main\<close> runs. The scheme and its builder are
  apimachinery and controller-runtime, and so parameters.
\<close>

section \<open>Go types and their names in the API\<close>

datatype go_type =
    SereneDBType | SereneDBListType | DatabaseType | DatabaseListType | DatabaseRoleType | DatabaseRoleListType
  | ServerSecretType | ServerSecretListType | BackupType | BackupListType | ScheduledBackupType | ScheduledBackupListType
  | SecretType | ConfigMapType | ServiceType | StatefulSetType | NetworkPolicyType

fun type_name :: "go_type \<Rightarrow> string" where
  "type_name SereneDBType = ''SereneDB''" | "type_name SereneDBListType = ''SereneDBList''"
| "type_name DatabaseType = ''Database''" | "type_name DatabaseListType = ''DatabaseList''"
| "type_name DatabaseRoleType = ''DatabaseRole''" | "type_name DatabaseRoleListType = ''DatabaseRoleList''"
| "type_name ServerSecretType = ''ServerSecret''" | "type_name ServerSecretListType = ''ServerSecretList''"
| "type_name BackupType = ''Backup''" | "type_name BackupListType = ''BackupList''"
| "type_name ScheduledBackupType = ''ScheduledBackup''" | "type_name ScheduledBackupListType = ''ScheduledBackupList''"
| "type_name SecretType = ''Secret''" | "type_name ConfigMapType = ''ConfigMap''" | "type_name ServiceType = ''Service''"
| "type_name StatefulSetType = ''StatefulSet''" | "type_name NetworkPolicyType = ''NetworkPolicy''"

record group_version =
  gv_group :: string
  gv_version :: string

definition GroupVersion :: group_version where
  "GroupVersion = \<lparr>gv_group = ''database.serenedb.com'', gv_version = ''v1alpha1''\<rparr>"

definition gvk_in :: "group_version \<Rightarrow> go_type \<Rightarrow> group_version_kind" where
  "gvk_in gv t = \<lparr>gvk_group = gv_group gv, gvk_version = gv_version gv, gvk_kind = type_name t\<rparr>"

text \<open>The types of k8s.io/api the operator uses, and where they are served.\<close>

definition built_in_types :: "go_type list" where
  "built_in_types = [SecretType, ConfigMapType, ServiceType, StatefulSetType, NetworkPolicyType]"

fun group_version_of :: "go_type \<Rightarrow> group_version" where
  "group_version_of SecretType = \<lparr>gv_group = [], gv_version = ''v1''\<rparr>"
| "group_version_of ConfigMapType = \<lparr>gv_group = [], gv_version = ''v1''\<rparr>"
| "group_version_of ServiceType = \<lparr>gv_group = [], gv_version = ''v1''\<rparr>"
| "group_version_of StatefulSetType = \<lparr>gv_group = ''apps'', gv_version = ''v1''\<rparr>"
| "group_version_of NetworkPolicyType = \<lparr>gv_group = ''networking.k8s.io'', gv_version = ''v1''\<rparr>"
| "group_version_of t = GroupVersion"

definition gvk_of :: "go_type \<Rightarrow> group_version_kind" where
  "gvk_of t = gvk_in (group_version_of t) t"

section \<open>Registration\<close>

text \<open>
  \<open>am_type s g\<close> is the Go type scheme \<open>s\<close> has for \<open>g\<close>. Adding types may panic:
      two different
  types must not claim one name.
\<close>

record ('b, 's) machinery =
  am_builder :: "group_version \<Rightarrow> 'b"
  am_register :: "go_type list \<Rightarrow> 'b \<Rightarrow> 'b"
  am_add :: "'b \<Rightarrow> 's \<Rightarrow> (go_error option \<times> 's) go"
  am_new :: 's
  am_client_go :: "'s \<Rightarrow> (go_error option \<times> 's) go"
  am_type :: "'s \<Rightarrow> group_version_kind \<Rightarrow> go_type option"

definition scheme_law :: "('b, 's) machinery \<Rightarrow> bool" where
  "scheme_law A \<longleftrightarrow>
     (\<forall>gv tss s s'. am_add A (fold (am_register A) tss (am_builder A gv)) s = Done (None, s') \<longrightarrow>
        (\<forall>ts \<in> set tss. \<forall>t \<in> set ts. am_type A s' (gvk_in gv t) = Some t) \<and>
        (\<forall>g t. am_type A s g = Some t \<longrightarrow> am_type A s' g = Some t)) \<and>
     (\<forall>s s'. am_client_go A s = Done (None, s') \<longrightarrow> (\<forall>t \<in> set built_in_types.
         am_type A s' (gvk_of t) = Some t))"

definition SchemeBuilder :: "('b, 's) machinery \<Rightarrow> 'b" where
  "SchemeBuilder A = am_builder A GroupVersion"

text \<open>The method value is bound to the pointer and so sees what is registered later.\<close>

definition AddToScheme :: "('b, 's) machinery \<Rightarrow> 'b \<Rightarrow> 's \<Rightarrow> (go_error option
    \<times> 's) go" where
  "AddToScheme A = am_add A"

definition backup_types_init :: "('b, 's) machinery \<Rightarrow> 'b \<Rightarrow> 'b" where
  "backup_types_init A = am_register A [BackupType, BackupListType]"

definition database_types_init :: "('b, 's) machinery \<Rightarrow> 'b \<Rightarrow> 'b" where
  "database_types_init A = am_register A [DatabaseType, DatabaseListType]"

definition databaserole_types_init :: "('b, 's) machinery \<Rightarrow> 'b \<Rightarrow> 'b" where
  "databaserole_types_init A = am_register A [DatabaseRoleType, DatabaseRoleListType]"

definition scheduledbackup_types_init :: "('b, 's) machinery \<Rightarrow> 'b \<Rightarrow> 'b" where
  "scheduledbackup_types_init A = am_register A [ScheduledBackupType, ScheduledBackupListType]"

definition serenedb_types_init :: "('b, 's) machinery \<Rightarrow> 'b \<Rightarrow> 'b" where
  "serenedb_types_init A = am_register A [SereneDBType, SereneDBListType]"

definition serversecret_types_init :: "('b, 's) machinery \<Rightarrow> 'b \<Rightarrow> 'b" where
  "serversecret_types_init A = am_register A [ServerSecretType, ServerSecretListType]"

text \<open>The \<open>init\<close> functions of a package run in the order of its file names.\<close>

definition api_init :: "('b, 's) machinery \<Rightarrow> 'b" where
  "api_init A =
     (let b = SchemeBuilder A;
          b = backup_types_init A b;
          b = database_types_init A b;
          b = databaserole_types_init A b;
          b = scheduledbackup_types_init A b;
          b = serenedb_types_init A b
      in serversecret_types_init A b)"

text \<open>\<open>utilruntime.Must(add(scheme))\<close>\<close>

definition must_add :: "('s \<Rightarrow> (go_error option \<times> 's) go) \<Rightarrow> 's \<Rightarrow> 's go" where
  "must_add add s = (case add s of Panic p \<Rightarrow> Panic p
     | Done (Some err, _) \<Rightarrow> Panic (error_text err) | Done (None, s') \<Rightarrow> Done s')"

definition main_init :: "('b, 's) machinery \<Rightarrow> 's go" where
  "main_init A = (case must_add (am_client_go A) (am_new A) of Panic p \<Rightarrow> Panic p
     | Done s \<Rightarrow> must_add (AddToScheme A (api_init A)) s)"

section \<open>The types the program uses\<close>

text \<open>
  A VolumeSnapshot is \<open>unstructured.Unstructured\<close>, which carries its own kind and needs no type.
\<close>

fun kind_type :: "kind \<Rightarrow> go_type option" where
  "kind_type KindSereneDB = Some SereneDBType"
| "kind_type KindDatabase = Some DatabaseType"
| "kind_type KindDatabaseRole = Some DatabaseRoleType"
| "kind_type KindServerSecret = Some ServerSecretType"
| "kind_type KindBackup = Some BackupType"
| "kind_type KindScheduledBackup = Some ScheduledBackupType"
| "kind_type KindSecret = Some SecretType"
| "kind_type KindConfigMap = Some ConfigMapType"
| "kind_type KindService = Some ServiceType"
| "kind_type KindStatefulSet = Some StatefulSetType"
| "kind_type KindNetworkPolicy = Some NetworkPolicyType"
| "kind_type KindVolumeSnapshot = None"

text \<open>The lists handed to \<open>requestsByIndex\<close>.\<close>

fun list_type :: "kind \<Rightarrow> go_type option" where
  "list_type KindDatabase = Some DatabaseListType"
| "list_type KindDatabaseRole = Some DatabaseRoleListType"
| "list_type KindServerSecret = Some ServerSecretListType"
| "list_type KindBackup = Some BackupListType"
| "list_type _ = None"

definition registered :: "('b, 's) machinery \<Rightarrow> 's \<Rightarrow> go_type \<Rightarrow> bool" where
  "registered A s t \<longleftrightarrow> am_type A s (gvk_of t) = Some t"

definition known_kind :: "('b, 's) machinery \<Rightarrow> 's \<Rightarrow> kind \<Rightarrow> bool" where
  "known_kind A s kd \<longleftrightarrow> (case kind_type kd of None \<Rightarrow> kd = KindVolumeSnapshot | Some t
      \<Rightarrow> registered A s t)"

definition known_list :: "('b, 's) machinery \<Rightarrow> 's \<Rightarrow> kind \<Rightarrow> bool" where
  "known_list A s kd \<longleftrightarrow> (case list_type kd of None \<Rightarrow> False | Some t \<Rightarrow>
      registered A s t)"

fun setup_typed :: "('b, 's) machinery \<Rightarrow> 's \<Rightarrow> 'e setup_event \<Rightarrow> bool" where
  "setup_typed A s (IndexedField kd _ _ _) \<longleftrightarrow> known_kind A s kd"
| "setup_typed A s (Completed rg _) \<longleftrightarrow> known_kind A s (rg_for rg) \<and> list_all (known_kind A s)
    (rg_owns rg) \<and>
     list_all (\<lambda>wt. known_kind A s (wt_source wt) \<and> known_list A s (wt_list wt)) (rg_watches rg)"
| "setup_typed A s _ \<longleftrightarrow> True"

fun object_type :: "api_object \<Rightarrow> go_type" where
  "object_type (DatabaseObject _) = DatabaseType"
| "object_type (RoleObject _) = DatabaseRoleType"
| "object_type (ServerSecretObject _) = ServerSecretType"
| "object_type (BackupObject _) = BackupType"
| "object_type (ScheduleObject _) = ScheduledBackupType"

fun call_types :: "event \<Rightarrow> go_type list" where
  "call_types (GotSereneDB _ _ _) = [SereneDBType]"
| "call_types (GotObject _ _ r) = (case r of Inl _ \<Rightarrow> [] | Inr obj \<Rightarrow> [object_type obj])"
| "call_types (GotSecret _ _ _) = [SecretType]"
| "call_types (GotNetworkPolicy _ _ _) = [NetworkPolicyType]"
| "call_types (ListedBackups _ _ _ _) = [BackupListType]"
| "call_types (CreatedSecret _ _) = [SecretType]"
| "call_types (CreatedBackup _ _) = [BackupType]"
| "call_types (UpdatedObject obj _) = [object_type obj]"
| "call_types (PatchedSecret _ _ _) = [SecretType]"
| "call_types (PatchedSereneDBStatus _ _ _) = [SereneDBType]"
| "call_types (PatchedStatus _ obj _) = [object_type obj]"
| "call_types (DeletedNetworkPolicy _ _) = [NetworkPolicyType]"
| "call_types (DeletedBackup _ _) = [BackupType]"
| "call_types (AppliedConfigMap _ _) = [ConfigMapType]"
| "call_types (AppliedService _ _) = [ServiceType]"
| "call_types (AppliedStatefulSet _ _) = [StatefulSetType]"
| "call_types (AppliedNetworkPolicy _ _) = [NetworkPolicyType]"
| "call_types _ = []"

section \<open>The scheme is complete\<close>

lemma must_add_Done: "must_add add s = Done s' \<longleftrightarrow> add s = Done (None, s')"
  by (auto simp: must_add_def split: go.splits option.splits)

lemma api_init_fold: "api_init A = fold (am_register A)
    [[BackupType, BackupListType], [DatabaseType, DatabaseListType], [DatabaseRoleType, DatabaseRoleListType],
     [ScheduledBackupType, ScheduledBackupListType], [SereneDBType, SereneDBListType],
     [ServerSecretType, ServerSecretListType]] (am_builder A GroupVersion)"
  by (simp add: api_init_def SchemeBuilder_def backup_types_init_def database_types_init_def databaserole_types_init_def
      scheduledbackup_types_init_def serenedb_types_init_def serversecret_types_init_def)

lemma main_init_registers:
  assumes "scheme_law A" "main_init A = Done s"
  shows "registered A s t"
proof -
  from assms(2) obtain s0 where s0: "am_client_go A (am_new A) = Done (None, s0)"
    "am_add A (api_init A) s0 = Done (None, s)"
    by (auto simp: main_init_def must_add_Done AddToScheme_def split: go.splits)
  from assms(1) s0(1) have "\<forall>t \<in> set built_in_types. am_type A s0 (gvk_of t) = Some t"
    unfolding scheme_law_def by blast
  moreover from assms(1) s0(2) have "\<forall>g t. am_type A s0 g = Some t \<longrightarrow> am_type A s g = Some t"
    unfolding scheme_law_def api_init_fold by blast
  ultimately have built_in: "\<forall>t \<in> set built_in_types. registered A s t" by (simp add: registered_def)
  from assms(1) s0(2) have "\<forall>ts \<in> set [[BackupType, BackupListType], [DatabaseType, DatabaseListType],
      [DatabaseRoleType, DatabaseRoleListType], [ScheduledBackupType, ScheduledBackupListType],
      [SereneDBType, SereneDBListType], [ServerSecretType, ServerSecretListType]].
      \<forall>t \<in> set ts. am_type A s (gvk_in GroupVersion t) = Some t"
    unfolding scheme_law_def api_init_fold by blast
  with built_in show ?thesis
    by (cases t) (simp_all add: built_in_types_def registered_def gvk_of_def)
qed

lemma list_all_watch: "watch (\<lambda>_ ev. if P ev then Some () else None) u es = Some u' \<Longrightarrow> list_all P es"
  by (induction es arbitrary: u) (auto split: if_splits)

lemma wp_list_all:
  "wp (\<lambda>_ ev. if P ev then Some () else None) m (\<lambda>_ _. True) () \<Longrightarrow> list_all P (trace_of m e)"
  by (drule wpD [where e = e]) (auto dest: list_all_watch)

text \<open>C13. Once the \<open>init\<close> functions have run without a panic, the scheme has a Go type of its own for
  every kind the program names: whatever the platform answers, every controller is completed for,
  owns and watches known kinds only, indexes them and lists them by known list types; and every
  object a reconcile reads, lists, writes or deletes is of a known type. VolumeSnapshots, which are
  unstructured, are the one exception.\<close>

theorem scheme_knows_types:
  assumes "scheme_law A" and "main_init A = Done s"
  shows "list_all (setup_typed A s) (trace_of (main l rt pf f) e) \<and>
     list_all (\<lambda>ev. list_all (registered A s) (call_types ev)) calls"
proof -
  have known: "registered A s t" for t using main_init_registers [OF assms] .
  then have kinds: "known_kind A s kd" for kd by (cases kd) (simp_all add: known_kind_def)
  have "wp (\<lambda>_ ev. if setup_typed A s ev then Some () else None) (main l rt pf f) (\<lambda>_ _. True) ()"
    unfolding main_def watch_certificate_def start_manager_def add_watcher_def register_controllers_def
    by (auto intro!: wp_intro wp_or_exit simp: setup_defs kinds known known_list_def split: option.splits)
  from wp_list_all [OF this] show ?thesis by (simp add: known list_all_iff)
qed

section \<open>A table as scheme\<close>

text \<open>As apimachinery does it: a name already taken by another type is a panic.\<close>

definition add_known :: "group_version_kind \<times> go_type \<Rightarrow> (group_version_kind \<times> go_type) list
    \<Rightarrow>
    (group_version_kind \<times> go_type) list go" where
  "add_known e s = (case map_of s (fst e) of
     None \<Rightarrow> Done (e # s)
   | Some t \<Rightarrow> if t = snd e then Done s else Panic ''Double registration of different types'')"

fun add_all :: "(group_version_kind \<times> go_type) list \<Rightarrow> (group_version_kind \<times> go_type) list
    \<Rightarrow>
    (go_error option \<times> (group_version_kind \<times> go_type) list) go" where
  "add_all [] s = Done (None, s)"
| "add_all (e # es) s = (case add_known e s of Panic p \<Rightarrow> Panic p | Done s' \<Rightarrow> add_all es s')"

definition table_machinery :: "(group_version \<times> go_type list, (group_version_kind \<times> go_type) list)
    machinery" where
  "table_machinery = \<lparr>
     am_builder = (\<lambda>gv. (gv, [])), am_register = (\<lambda>ts (gv, known). (gv, known @ ts)),
     am_add = (\<lambda>(gv, known). add_all (map (\<lambda>t. (gvk_in gv t, t)) known)),
     am_new = [], am_client_go = add_all (map (\<lambda>t. (gvk_of t, t)) built_in_types), am_type = map_of\<rparr>"

lemma add_known_adds: "add_known e s = Done s' \<Longrightarrow> map_of s' (fst e) = Some (snd e) \<and> map_of s
    \<subseteq>\<^sub>m map_of s'"
  by (cases e) (auto simp: add_known_def map_le_def split: option.splits if_splits)

lemma add_all_adds: "add_all es s = Done (r, s') \<Longrightarrow> (\<forall>e \<in> set es. map_of s' (fst e) = Some
    (snd e)) \<and> map_of s \<subseteq>\<^sub>m map_of s'"
proof (induction es arbitrary: s)
  case (Cons e es)
  then obtain s1 where s1: "add_known e s = Done s1" "add_all es s1 = Done (r, s')" by (auto split: go.splits)
  from Cons.IH [OF s1(2)] add_known_adds [OF s1(1)] show ?case
    by (auto intro: map_le_trans) (metis domI map_le_def)
qed simp

lemma register_all: "fold (am_register table_machinery) tss (gv, known) = (gv, known @ concat tss)"
  by (induction tss arbitrary: known) (simp_all add: table_machinery_def)

lemma table_law: "scheme_law table_machinery"
  unfolding scheme_law_def
proof (intro conjI allI impI)
  fix gv tss s s'
  assume "am_add table_machinery (fold (am_register table_machinery) tss (am_builder table_machinery gv)) s = Done
      (None, s')"
  moreover have "am_builder table_machinery gv = (gv, [])" by (simp add: table_machinery_def)
  ultimately have add: "add_all (map (\<lambda>t. (gvk_in gv t, t)) (concat tss)) s = Done (None, s')"
    by (simp add: register_all) (simp add: table_machinery_def)
  from add_all_adds [OF this] show
    "\<forall>ts \<in> set tss. \<forall>t \<in> set ts. am_type table_machinery s' (gvk_in gv t) = Some t"
    "\<And>g t. am_type table_machinery s g = Some t \<Longrightarrow> am_type table_machinery s' g = Some t"
    by (auto simp: table_machinery_def map_le_def dom_def)
next
  fix s s'
  assume "am_client_go table_machinery s = Done (None, s')"
  then have "add_all (map (\<lambda>t. (gvk_of t, t)) built_in_types) s = Done (None, s')" by (simp add: table_machinery_def)
  from add_all_adds [OF this] show "\<forall>t \<in> set built_in_types. am_type table_machinery s' (gvk_of t) = Some t"
    by (auto simp: table_machinery_def)
qed

definition full_table :: "(group_version_kind \<times> go_type) list" where
  "full_table = (case main_init table_machinery of Done s \<Rightarrow> s | Panic _ \<Rightarrow> [])"

lemma table_init: "main_init table_machinery = Done full_table"
  by code_simp

text \<open>A platform on which every step of the start succeeds.\<close>

definition willing_manager :: "unit manager" where
  "willing_manager = \<lparr>mg_client = static_client empty_stock, mg_list = (\<lambda>_ _ _ _ e. (Inr [], e)),
     mg_index_field = (\<lambda>_ _ _ e. (None, e)), mg_rest_mapping = (\<lambda>_ e. (None, e)), mg_complete =
         (\<lambda>_ e. (None, e)),
     mg_add = (\<lambda>_ e. (None, e)), mg_add_healthz = (\<lambda>_ e. (None, e)), mg_add_readyz = (\<lambda>_ e.
         (None, e)),
     mg_start = (\<lambda>e. (None, e))\<rparr>"

definition willing_platform :: "unit pgx \<Rightarrow> unit platform" where
  "willing_platform px = \<lparr>pf_cert_watcher = (\<lambda>_ _ e. (None, e)), pf_config = (\<lambda>e. (None, e)),
     pf_manager = (\<lambda>_ e. (Inr willing_manager, e)), pf_pgx = px\<rparr>"

definition completes :: "'e setup_event \<Rightarrow> bool" where
  "completes ev = (case ev of Completed _ _ \<Rightarrow> True | _ \<Rightarrow> False)"

lemma willing_start:
  "length (filter completes (trace_of (main l (still_runtime 0) (willing_platform px) default_flags) ())) = 6"
  by (simp add: main_def register_controllers_def setup_defs start_manager_def add_watcher_def or_exit_def
      watch_certificate_def trace_of_def call_def willing_platform_def willing_manager_def default_flags_def completes_def)

theorem scheme_knows_types_witness:
  "\<forall>l px. (let log = trace_of (main l (still_runtime 0) (willing_platform px) default_flags) () in
     list_all (setup_typed table_machinery full_table) log \<and> length (filter completes log) = 6) \<and>
     list_all (\<lambda>ev. list_all (registered table_machinery full_table) (call_types ev))
       [GotSereneDB ''prod'' ''mydb'' (Inr ready_db), ListedBackups ''prod'' ''nightly'' ''uid'' (Inr [])]"
proof (intro allI)
  fix l and px :: "unit pgx"
  show "(let log = trace_of (main l (still_runtime 0) (willing_platform px) default_flags) () in
     list_all (setup_typed table_machinery full_table) log \<and> length (filter completes log) = 6) \<and>
     list_all (\<lambda>ev. list_all (registered table_machinery full_table) (call_types ev))
       [GotSereneDB ''prod'' ''mydb'' (Inr ready_db), ListedBackups ''prod'' ''nightly'' ''uid'' (Inr [])]"
    unfolding Let_def
    by (intro conjI willing_start scheme_knows_types [OF table_law table_init, THEN conjunct1]
        scheme_knows_types [OF table_law table_init, THEN conjunct2])
qed

end
