(* ===== verification/Spec2Isabelle.thy ===== *)
theory Spec2Isabelle
  imports Lives Config Wakeups Snapshots Scheme
begin

text \<open>
  A model of the SereneDB operator (src/), a Kubernetes operator in Go that runs SereneDB
  servers and the objects inside them, with the theorems that make it correct.

  \<^bold>\<open>The program.\<close> Six reconcilers (src/internal/controller) are called with the name of an object
  and drive the world towards it. \<open>SereneDBReconciler\<close> owns the Secret, ConfigMap, Services,
  StatefulSet and NetworkPolicy of a server, which the builders of src/internal/resources
  compute from its spec. \<open>DatabaseReconciler\<close>, \<open>DatabaseRoleReconciler\<close> and
  \<open>ServerSecretReconciler\<close> share dependent.go: they wait for the server to be ready, open a SQL
  session as the superuser (src/internal/sqlexec), send the statements of
  src/internal/statements, and on deletion drop the object before they release it.
  \<open>BackupReconciler\<close> takes a volume snapshot after a CHECKPOINT, \<open>ScheduledBackupReconciler\<close> creates
  and prunes Backups by a cron expression. They interact only through the objects in the API:
  the Ready condition one writes is the gate of the others, the data claim one mounts is the
  source of the other's snapshot, the Backups one creates are the input of the other.

  \<^bold>\<open>The world.\<close> Every call that leaves the program goes through a record of functions over an
  arbitrary environment (theory Effects: \<open>client\<close>, \<open>session\<close>, \<open>connector\<close>, \<open>runtime\<close>), which may
  answer anything and change anything at every call, so other writers are included. The model
  adds a log of calls and answers. A reconciler is a state monad over environment and log; its
  definition follows the Go function branch by branch, early returns and errors included.
  Pure third-party functions are the fields of the record \<open>lib\<close> (theory Library); what the code
  relies on of them is a named law there (\<open>sanitize_law\<close>, \<open>condition_law\<close>, \<open>finalizer_law\<close>,
  \<open>controller_law\<close>, \<open>owner_law\<close>), a hypothesis of the theorems that need it, and the instance
  \<open>plain_lib\<close> meets all of them.

  \<^bold>\<open>Theories and the code they model.\<close>
  \<^item> Prelude, Errors: Go strings, integers, maps, \<open>fmt\<close> and \<open>strings\<close>; error values and their
    classification (\<open>asBlocked\<close>, \<open>isNoKindMatch\<close>).
  \<^item> ApiTypes: src/api/v1alpha1, one record per type with a field per field. KubeTypes: the
    Kubernetes types the operator builds and reads.
  \<^item> SqlExec: src/internal/sqlexec (sessions, quoting, the recording fake); SqlLex: a lexer of the
    SQL the statements are read back with, and the locale \<open>quoting\<close>.
  \<^item> Statements: src/internal/statements, each builder under its own name.
  \<^item> Names, Config, Workload: src/internal/resources, each builder under its own name.
  \<^item> Dependent: dependent.go, and the shape the three SQL reconcilers share, with the locales
    \<open>drop_operation\<close> and \<open>dependent_controller\<close>; Readiness: what their status may claim, with the
    locale \<open>dependent_reporter\<close>; DatabaseController, RoleController and
    ServerSecretController model the three files and interpret the locales; Dependents states
    what holds of all three.
  \<^item> SqlServer, Convergence: an abstract server, a catalog of roles, memberships, databases and
    secrets that statements change by their tokens, and what the reconcilers make of it.
  \<^item> Lifecycle: a reconcile run again and again against an API server that stores what it writes
    and a server that carries out what it sends, with the locale \<open>dependent_lifecycle\<close>; Lives: its
    interpretations on the three SQL reconcilers.
  \<^item> BackupController: backup_controller.go and the phase machine it refines.
  \<^item> GoTime, ScheduledBackupController: the parts of package time that are used, and
    scheduledbackup_controller.go.
  \<^item> SereneDBController: serenedb_controller.go; the callbacks handed to \<open>CreateOrUpdate\<close> are the
    \<open>_mutate\<close> definitions, and the locale \<open>settling\<close> is their contract against an API that completes
    what it is sent (\<open>api_server\<close>, with the documented defaulting as \<open>api_law\<close>).
  \<^item> Manager: the \<open>SetupWithManager\<close> and \<open>WithClient\<close> functions, the index functions and
    \<open>requestsByIndex\<close>; Startup: src/cmd/main.go from the parsed flags on, and the locale
    \<open>controller_setup\<close>; Wakeups: which events bring a reconcile, by the three kinds of source a
    controller is built with (\<open>dispatch_law\<close>). The log of the start has events of
    its own (\<open>setup_event\<close>), the calculus of theory Effects is the same.
  \<^item> Memory, DeepCopy, DeepCopies, Snapshots: the API types as they lie in the memory of a Go
    process, pointers, slices and maps being references to blocks; zz_generated.deepcopy.go on them;
    the value each struct stands for and the locale \<open>deep_copying\<close>, the contract of a copy.
  \<^item> Scheme: groupversion_info.go, the \<open>init\<close> functions of the api files and of cmd/main.go.
  \<^item> TestBed: the concrete environment of the witnesses.

  \<^bold>\<open>What the lemmas show.\<close>
  \<^item> Rules on the order of calls, as monitors over the log (\<open>gate_step\<close>, \<open>guard_step\<close>, \<open>release_step\<close>,
    \<open>session_step\<close>, \<open>ready_step\<close>, \<open>start_step\<close>, \<open>password_step\<close>, \<open>backup_rule\<close>, \<open>schedule_rule\<close>, \<open>rollout_rule\<close>): whatever the
    environment answers, no reconcile makes a call the rule forbids. They are proved with the
    calculus \<open>wp\<close> of theory Effects, step by step along the code.
  \<^item> Refinement of the catalog: a successful apply leaves exactly what the spec asks for and
    nothing else changed; a successful drop removes exactly its object.
  \<^item> Statements read back token by token as what they were built from, for all names and values,
    and lose nothing.
  \<^item> Agreement of the resources with each other: ports, volumes, selectors, the claim a backup
    snapshots, and the completeness of the config hash.
  \<^item> State machines: the history of a Backup's status and the bound on its phases; the waking of a
    schedule; the settling of a SereneDB's objects; the life of a Database, a DatabaseRole and a
    ServerSecret from the first reconcile to the removal.
  \<^item> The answer of a SereneDB reconcile explained by the calls it made: \<open>explained\<close> ties the outcome to
    the first call that failed, \<open>answered\<close> the answer to the outcome.
  \<^item> The start: what the manager is given before it runs, and which events then bring which
    reconciles, by name, by ownership or by the object itself; and that the scheme knows every type the controllers and the client name.
  \<^item> The generated deep copies are copies of the value and share no memory with it. The other
    theories treat API objects as values: the reconcilers take \<open>original := obj.DeepCopy()\<close> and then
    change \<open>obj\<close> in place, which the model writes as a record update that leaves \<open>original\<close> alone.
  \<^item> Behaviour the code has and may not want, stated as theorems: \<open>CreateSecret_case_collision\<close>,
    \<open>never_firing_always_due\<close>, \<open>failed_prune_creates_again\<close>, the updates without effect in
    \<open>second_reconcile_settles\<close>, and the guards in \<open>selector_matches_pod_iff\<close> and \<open>pod_rolls_iff\<close>.

  \<^bold>\<open>Bounds and termination.\<close> No definition needs fuel: the loops of the source run over finite
  lists or a fixed count and are structural recursions. Integers keep their width (\<open>int32\<close>,
  \<open>int64\<close> as words); durations saturate as in Go. Times are unbounded nanoseconds; the stamp of
  a Backup's name is read back for the years 1 to 9999, and a requeue is exact for activations
  within 146 years, the range in which the sum with one second stays inside \<open>int64\<close>. A map
  range visits its entries in any order (\<open>range_over\<close>), a panic is a value (\<open>Panic\<close>).

  \<^bold>\<open>Not modelled.\<close>
  \<^item> In src/cmd/main.go: flag parsing itself and the logger. The work queue of
    controller-runtime, which calls a reconcile for each request, is outside; the theorems hold for
    every run at any time.
  \<^item> The merge of a status patch: a patch that is taken is read as putting the new status in the place
    of the status it was computed from. \<open>Patch\<close> sends only the differing fields and no resource
    version, so one computed from a stale read and merged onto a newer status can leave a mixture;
    that is not represented in the histories of a Backup.
  \<^item> The \<open>LastTransitionTime\<close> of a condition, which no code reads; \<open>meta.SetStatusCondition\<close> is a
    parameter with a law. Times have no location, and the API does not cut them to seconds.
  \<^item> The API group of an owner reference.
  \<^item> Slices that share an array or hold room beyond their length, and writes to a map or slice that
    two objects share: a slice of the model sees the whole of its block.
  \<^item> Log lines, and the monotonic reading inside \<open>time.Time\<close>.
  \<^item> What the SQL server, the cron parser, SHA-256 and the API server do inside; each appears by
    the law the code relies on.
\<close>

end
